theory Spec2Isabelle
  imports Main
begin

section \<open>The world the capture controller runs in\<close>

text \<open>
  \<^verbatim>\<open>snapshot.py\<close> drives a browser through Selenium, reads a clock, sleeps, logs and
  writes two files. None of this is pure, so the embedding threads a \<open>world\<close> record
  through every call, and takes everything the program cannot decide itself from an
  environment \<open>env\<close>: what the page looks like at each interaction with the driver,
  whether that interaction raises, how long it takes, how the clock is formatted,
  which sleeps the operating system accepts, and what becomes of each of the two
  files on its way to the disk.

  Exceptions are values. Only the class and the message matter to the source: the
  class decides which \<^verbatim>\<open>except\<close> clause catches, the message is what \<^verbatim>\<open>str(e)\<close>
  puts into the log.
\<close>

datatype exn_class =
    TimeoutException | WebDriverException | ValueError | OverflowError | OSError
  | UnicodeEncodeError

datatype exn = Exn exn_class string

fun exn_class_of :: "exn \<Rightarrow> exn_class" where
  "exn_class_of (Exn c m) = c"

fun str_exn :: "exn \<Rightarrow> string" where
  "str_exn (Exn c m) = m"

datatype level = DEBUG | INFO | WARNING | ERROR

text \<open>
  The JavaScript snippets the source hands to \<^verbatim>\<open>execute_script\<close>, by what they do.
  \<open>ScrollToFraction i\<close> is \<^verbatim>\<open>window.scrollTo(0, document.body.scrollHeight * i/10)\<close>.
\<close>

datatype script =
    ScrollHeight
  | ScrollToFraction nat
  | ScrollToBottom
  | ScrollToTop
  | ImagesComplete
  | AjaxIdle
  | ObserveMutations
  | TotalHeight
  | ViewportWidth
  | UserAgent

datatype condition = BodyPresent | ScriptTruthy script

datatype request =
    Get string
  | WaitUntil nat condition
  | ExecuteScript script
  | SetWindowSize int int
  | SaveScreenshot string
  | Title
  | CurrentUrl
  | Quit

datatype event = Driver request | Sleep int | Log level string

text \<open>
  What a script can read off the page: the five height and five width metrics of
  lines 248-266, the title, the current URL, the user agent, and the number of DOM
  mutations the observer of lines 172-195 counts in its one-second window.
\<close>

record page =
  body_scrollHeight :: int
  body_offsetHeight :: int
  docEl_clientHeight :: int
  docEl_scrollHeight :: int
  docEl_offsetHeight :: int
  body_scrollWidth :: int
  body_offsetWidth :: int
  docEl_clientWidth :: int
  docEl_scrollWidth :: int
  docEl_offsetWidth :: int
  page_title :: string
  page_url :: string
  navigator_userAgent :: string
  mutations :: int

text \<open>
  The environment. The program is sequential and deterministic, so the browser's
  behaviour is fixed by what it answers to the k-th interaction: \<open>page_at k\<close> is the
  page the k-th driver call sees, \<open>fault k\<close> the exception it raises (if any),
  \<open>latency k\<close> the milliseconds it takes. \<open>strftime t\<close> is
  \<^verbatim>\<open>datetime.now().strftime('%Y%m%d_%H%M%S')\<close> at clock value \<open>t\<close>.

  The operating system and the file system are part of it too. \<open>sleep_max\<close> is the
  longest sleep, in milliseconds, the operating system accepts (on Linux what is
  left of its 63-bit nanosecond clock). \<open>screenshot_saved p\<close> says whether the driver
  manages to write the image to \<open>p\<close>. \<open>open_error p\<close> is the exception
  \<^verbatim>\<open>open(p, 'w')\<close> raises (if any), and \<open>dump_error p = Some (e, n)\<close> says that
  writing into the opened file raises \<open>e\<close> after \<open>n\<close> bytes have reached it (an
  encoding error of a string, a full disk).
\<close>

record env =
  page_at :: "nat \<Rightarrow> page"
  fault :: "nat \<Rightarrow> exn option"
  latency :: "nat \<Rightarrow> nat"
  strftime :: "int \<Rightarrow> string"
  sleep_max :: int
  screenshot_saved :: "string \<Rightarrow> bool"
  open_error :: "string \<Rightarrow> exn option"
  dump_error :: "string \<Rightarrow> (exn \<times> nat) option"

datatype content = Screenshot int int | Text string

text \<open>
  The state: how many driver interactions have happened, the clock in milliseconds
  (the source's \<^verbatim>\<open>time.time()\<close> is a float of seconds; every duration it uses is a
  multiple of half a second), the browser window's size, everything that happened
  so far in order, the files written so far, and the lines printed.
  A \<open>Screenshot w h\<close> file is the image the browser took with a window of that size.
\<close>

record world =
  ncalls :: nat
  clock :: int
  window_size :: "int \<times> int"
  trace :: "event list"
  files :: "(string \<times> content) list"
  stdout :: "string list"

type_synonym 'a io = "world \<Rightarrow> (exn + 'a) \<times> world"

definition io_return :: "'a \<Rightarrow> 'a io" where
  "io_return v w = (Inr v, w)"

definition io_bind :: "'a io \<Rightarrow> ('a \<Rightarrow> 'b io) \<Rightarrow> 'b io" where
  "io_bind m f w = (case m w of (Inl e, w') \<Rightarrow> (Inl e, w') | (Inr v, w') \<Rightarrow> f v w')"

text \<open>A call of the logger: recorded, never failing.\<close>

definition logger :: "level \<Rightarrow> string \<Rightarrow> unit io" where
  "logger l msg w = (Inr (), w\<lparr>trace := trace w @ [Log l msg]\<rparr>)"

text \<open>
  \<^verbatim>\<open>time.sleep\<close>, in milliseconds. CPython first converts the argument to 64-bit
  nanoseconds and raises \<^verbatim>\<open>OverflowError\<close> when it does not fit, which for whole
  seconds is beyond 9223372036 in either direction. Then a negative argument raises
  \<^verbatim>\<open>ValueError\<close>. Then the operating system is asked to sleep, and refuses with
  \<^verbatim>\<open>OSError\<close> what is longer than it accepts; it never refuses the few seconds of
  the sleeps the source writes as constants, the longest of which is three seconds.
  No time passes when the call raises.
\<close>

definition sleep_overflows :: "int \<Rightarrow> bool" where
  "sleep_overflows ms = (ms < - 9223372036000 \<or> 9223372036000 < ms)"

definition os_accepts :: "env \<Rightarrow> int \<Rightarrow> bool" where
  "os_accepts env ms = (ms \<le> 3000 \<or> ms \<le> sleep_max env)"

definition time_sleep :: "env \<Rightarrow> int \<Rightarrow> unit io" where
  "time_sleep env ms w =
     (if sleep_overflows ms then
        (Inl (Exn OverflowError ''timestamp too large to convert to C _PyTime_t''), w)
      else if ms < 0 then (Inl (Exn ValueError ''sleep length must be non-negative''), w)
      else if \<not> os_accepts env ms then (Inl (Exn OSError ''[Errno 22] Invalid argument''), w)
      else (Inr (), w\<lparr>clock := clock w + ms, trace := trace w @ [Sleep ms]\<rparr>))"

text \<open>
  One interaction with the driver: it is recorded, it takes its latency, and it
  either raises what the environment says or returns what \<open>f\<close> reads off the page.
\<close>

definition driver_call :: "env \<Rightarrow> request \<Rightarrow> (page \<Rightarrow> 'a) \<Rightarrow> 'a io" where
  "driver_call env rq f w =
     (let k = ncalls w;
          w' = w\<lparr>ncalls := Suc k, clock := clock w + int (latency env k),
                 trace := trace w @ [Driver rq]\<rparr>
      in case fault env k of
           Some e \<Rightarrow> (Inl e, w')
         | None \<Rightarrow> (Inr (f (page_at env k)), w'))"

definition execute_script :: "env \<Rightarrow> script \<Rightarrow> (page \<Rightarrow> 'a) \<Rightarrow> 'a io" where
  "execute_script env s f = driver_call env (ExecuteScript s) f"

definition set_window_size :: "env \<Rightarrow> int \<Rightarrow> int \<Rightarrow> unit io" where
  "set_window_size env width height =
     io_bind (driver_call env (SetWindowSize width height) (\<lambda>_. ()))
       (\<lambda>_ w. (Inr (), w\<lparr>window_size := (width, height)\<rparr>))"

text \<open>
  \<^verbatim>\<open>save_screenshot\<close>: the driver takes the image of the current window, which can
  raise, and then writes it to the path. Selenium catches the \<^verbatim>\<open>OSError\<close> of a
  failed write and returns \<^verbatim>\<open>False\<close>, with no file written; otherwise it returns
  \<^verbatim>\<open>True\<close>.
\<close>

definition save_screenshot :: "env \<Rightarrow> string \<Rightarrow> bool io" where
  "save_screenshot env path =
     io_bind (driver_call env (SaveScreenshot path) (\<lambda>_. ()))
       (\<lambda>_ w. if screenshot_saved env path then
                 (Inr True, w\<lparr>files := files w @
                    [(path, Screenshot (fst (window_size w)) (snd (window_size w)))]\<rparr>)
               else (Inr False, w))"

text \<open>
  Lines 299-300: \<^verbatim>\<open>open(path, 'w', encoding='utf-8')\<close> and, inside the \<^verbatim>\<open>with\<close>
  block, the dump of the text into the file. The open can fail, and then there is no
  file. Once the file is open it exists; when the dump raises, what had been written
  by then stays in it.
\<close>

definition write_text :: "env \<Rightarrow> string \<Rightarrow> string \<Rightarrow> unit io" where
  "write_text env path txt w =
     (case open_error env path of
        Some e \<Rightarrow> (Inl e, w)
      | None \<Rightarrow>
          (case dump_error env path of
             Some (e, n) \<Rightarrow> (Inl e, w\<lparr>files := files w @ [(path, Text (take n txt))]\<rparr>)
           | None \<Rightarrow> (Inr (), w\<lparr>files := files w @ [(path, Text txt)]\<rparr>)))"

section \<open>Strings the source builds\<close>

definition digit_char :: "nat \<Rightarrow> char" where
  "digit_char d = ''0123456789'' ! d"

fun str_nat :: "nat \<Rightarrow> string" where
  "str_nat n = (if n < 10 then [digit_char n] else str_nat (n div 10) @ [digit_char (n mod 10)])"

text \<open>Python's \<^verbatim>\<open>str\<close> of an \<^verbatim>\<open>int\<close>.\<close>

definition str_int :: "int \<Rightarrow> string" where
  "str_int i = (if i < 0 then CHR ''-'' # str_nat (nat (- i)) else str_nat (nat i))"

text \<open>
  \<^verbatim>\<open>os.path.join(d, name)\<close> on POSIX for a \<open>name\<close> that is not absolute (every name the
  source joins starts with \<^verbatim>\<open>snapshot_\<close>).
\<close>

definition path_join :: "string \<Rightarrow> string \<Rightarrow> string" where
  "path_join d name =
     (if d = [] \<or> last d = CHR ''/'' then d @ name else d @ ''/'' @ name)"

section \<open>The capture controller\<close>

record web_snapshot =
  output_dir :: string
  wait_time :: "int option"

text \<open>Lines 96-98: the nine partial scrolls of one pass, each followed by half a second.\<close>

fun scroll_steps :: "env \<Rightarrow> nat list \<Rightarrow> unit io" where
  "scroll_steps env [] = io_return ()"
| "scroll_steps env (i # is) =
     io_bind (execute_script env (ScrollToFraction i) (\<lambda>_. ()))
       (\<lambda>_. io_bind (time_sleep env 500) (\<lambda>_. scroll_steps env is))"

text \<open>Lines 95-105: one pass of the \<^verbatim>\<open>while True\<close> body, up to the new height.\<close>

definition scroll_pass :: "env \<Rightarrow> int io" where
  "scroll_pass env =
     io_bind (scroll_steps env [1..<10])
       (\<lambda>_. io_bind (execute_script env ScrollToBottom (\<lambda>_. ()))
         (\<lambda>_. io_bind (time_sleep env 2000)
           (\<lambda>_. execute_script env ScrollHeight body_scrollHeight)))"

text \<open>
  Lines 94-111. The loop has no bound, so it is a partial function: \<open>None\<close> is the
  loop that never leaves.
\<close>

partial_function (option) scroll_loop ::
  "env \<Rightarrow> int \<Rightarrow> world \<Rightarrow> ((exn + unit) \<times> world) option" where
  "scroll_loop env last_height w =
     (case scroll_pass env w of
        (Inl e, w1) \<Rightarrow> Some (Inl e, w1)
      | (Inr new_height, w1) \<Rightarrow>
          if new_height = last_height then Some (Inr (), w1)
          else scroll_loop env new_height w1)"

declare scroll_loop.simps [code]

definition scroll_to_bottom :: "env \<Rightarrow> world \<Rightarrow> ((exn + unit) \<times> world) option" where
  "scroll_to_bottom env w =
     (case io_bind (logger INFO ''Starting progressive scroll to trigger lazy loading...'')
             (\<lambda>_. execute_script env ScrollHeight body_scrollHeight) w of
        (Inl e, w1) \<Rightarrow> Some (Inl e, w1)
      | (Inr last_height, w1) \<Rightarrow>
          (case scroll_loop env last_height w1 of
             None \<Rightarrow> None
           | Some (Inl e, w2) \<Rightarrow> Some (Inl e, w2)
           | Some (Inr _, w2) \<Rightarrow>
               Some (io_bind (execute_script env ScrollToTop (\<lambda>_. ()))
                       (\<lambda>_. logger INFO ''Completed progressive scroll'') w2)))"

text \<open>
  Lines 129-137, with \<open>timeout\<close> in seconds as in the source. Every turn that does
  not return sleeps a second, so the loop ends.
\<close>

function stable_loop :: "env \<Rightarrow> int \<Rightarrow> int \<Rightarrow> int \<Rightarrow> bool io" where
  "stable_loop env timeout start_time last_height w =
     (if clock w - start_time < timeout * 1000 then
        (case execute_script env ScrollHeight body_scrollHeight w of
           (Inl e, w1) \<Rightarrow> (Inl e, w1)
         | (Inr current_height, w1) \<Rightarrow>
             if current_height = last_height then
               io_bind (time_sleep env 2000) (\<lambda>_. io_return True) w1
             else
               (case time_sleep env 1000 w1 of
                  (Inl e, w2) \<Rightarrow> (Inl e, w2)
                | (Inr _, w2) \<Rightarrow> stable_loop env timeout start_time current_height w2))
      else (Inr False, w))"
  by pat_completeness auto
termination
proof (relation "measure (\<lambda>(env, timeout, start_time, last_height, w).
                    nat (timeout * 1000 - (clock w - start_time)))", goal_cases)
  case 1
  show ?case by simp
next
  case (2 env timeout start_time last_height w x1 w1 current_height x2 w2 u)
  then show ?case
    by (auto simp: execute_script_def driver_call_def time_sleep_def sleep_overflows_def
        os_accepts_def Let_def
        split: option.splits if_splits)
qed

definition wait_for_content_stable :: "env \<Rightarrow> int \<Rightarrow> bool io" where
  "wait_for_content_stable env timeout =
     io_bind (logger INFO ''Waiting for content to stabilize...'')
       (\<lambda>_ w. stable_loop env timeout (clock w) 0 w)"

text \<open>
  Lines 139-152. \<^verbatim>\<open>WebDriverWait(driver, 10).until(...)\<close> is one interaction: it
  returns when the script became truthy, raises \<^verbatim>\<open>TimeoutException\<close> when it did
  not within ten seconds, and lets any other exception of the script through. Only
  the timeout is caught.
\<close>

definition wait_for_images :: "env \<Rightarrow> unit io" where
  "wait_for_images env =
     io_bind (logger INFO ''Waiting for images to load...'')
       (\<lambda>_ w. case driver_call env (WaitUntil 10 (ScriptTruthy ImagesComplete)) (\<lambda>_. ()) w of
          (Inl e, w1) \<Rightarrow>
            if exn_class_of e = TimeoutException
            then logger WARNING ''Timeout waiting for images to load'' w1
            else (Inl e, w1)
        | (Inr _, w1) \<Rightarrow> (Inr (), w1))"

text \<open>Lines 154-206: everything after the first log line is inside \<^verbatim>\<open>try\<close>.\<close>

definition wait_for_dynamic_content :: "env \<Rightarrow> bool io" where
  "wait_for_dynamic_content env =
     io_bind (logger INFO ''Checking for dynamic content loading...'')
       (\<lambda>_ w. case io_bind (driver_call env (WaitUntil 5 (ScriptTruthy AjaxIdle)) (\<lambda>_. ()))
                    (\<lambda>_. io_bind (execute_script env ObserveMutations mutations)
                      (\<lambda>changes.
                         if changes = 0 then
                           io_bind (logger INFO ''No DOM changes detected, content appears stable'')
                             (\<lambda>_. io_return True)
                         else io_return False)) w of
          (Inl e, w1) \<Rightarrow>
            io_bind (logger DEBUG (''Error checking dynamic content: '' @ str_exn e))
              (\<lambda>_. io_return False) w1
        | (Inr b, w1) \<Rightarrow> (Inr b, w1))"

text \<open>Lines 219-227: the first log line, the navigation and the wait for the body.\<close>

definition navigate :: "env \<Rightarrow> string \<Rightarrow> unit io" where
  "navigate env url =
     io_bind (logger INFO (''Starting screenshot capture for URL: '' @ url))
       (\<lambda>_. io_bind (driver_call env (Get url) (\<lambda>_. ()))
         (\<lambda>_. driver_call env (WaitUntil 10 BodyPresent) (\<lambda>_. ())))"

text \<open>Lines 242-245, with the source's seconds turned into milliseconds for the sleep.\<close>

definition extra_delay :: "web_snapshot \<Rightarrow> env \<Rightarrow> bool \<Rightarrow> bool \<Rightarrow> unit io" where
  "extra_delay self env content_stable dynamic_content_loaded =
     (if wait_time self \<noteq> None \<or> \<not> (content_stable \<and> dynamic_content_loaded) then
        (let wt = (case wait_time self of Some n \<Rightarrow> n | None \<Rightarrow> 3) in
           io_bind (logger INFO (''Waiting additional '' @ str_int wt @
                                 '' seconds for content to stabilize''))
             (\<lambda>_. time_sleep env (wt * 1000)))
      else io_return ())"

text \<open>The two \<^verbatim>\<open>Math.max\<close> scripts of lines 248-266.\<close>

definition js_total_height :: "page \<Rightarrow> int" where
  "js_total_height p =
     max (body_scrollHeight p) (max (body_offsetHeight p) (max (docEl_clientHeight p)
       (max (docEl_scrollHeight p) (docEl_offsetHeight p))))"

definition js_viewport_width :: "page \<Rightarrow> int" where
  "js_viewport_width p =
     max (body_scrollWidth p) (max (body_offsetWidth p) (max (docEl_clientWidth p)
       (max (docEl_scrollWidth p) (docEl_offsetWidth p))))"

text \<open>Lines 247-272; the result is \<open>(viewport_width, total_height)\<close>.\<close>

definition measure_and_resize :: "env \<Rightarrow> (int \<times> int) io" where
  "measure_and_resize env =
     io_bind (execute_script env TotalHeight js_total_height)
       (\<lambda>total_height. io_bind (execute_script env ViewportWidth js_viewport_width)
         (\<lambda>viewport_width.
            io_bind (set_window_size env (viewport_width + 100) (total_height + 100))
              (\<lambda>_. io_bind (time_sleep env 2000)
                (\<lambda>_. io_return (viewport_width, total_height)))))"

section \<open>The JSON sidecar\<close>

text \<open>
  The values \<^verbatim>\<open>json_data\<close> is built from: strings, integers and dictionaries with
  string keys, in insertion order. A string is the list of the bytes of its UTF-8
  encoding, which is what reaches the file.
\<close>

datatype json = JInt int | JString string | JObject "(string \<times> json) list"

text \<open>
  \<^verbatim>\<open>json.dump(..., ensure_ascii=False, indent=2)\<close> belongs to Python's standard
  library, not to the repository; the definitions below follow its output format.
  With \<^verbatim>\<open>ensure_ascii=False\<close> the encoder escapes the quote, the backslash and the
  control characters below 0x20, and nothing else.
\<close>

definition hex_char :: "nat \<Rightarrow> char" where
  "hex_char d = ''0123456789abcdef'' ! d"

definition escape_char :: "char \<Rightarrow> string" where
  "escape_char c =
     (if c = CHR 0x22 then [CHR 0x5C, CHR 0x22]
      else if c = CHR 0x5C then [CHR 0x5C, CHR 0x5C]
      else if c = CHR 0x0A then [CHR 0x5C, CHR ''n'']
      else if c = CHR 0x0D then [CHR 0x5C, CHR ''r'']
      else if c = CHR 0x09 then [CHR 0x5C, CHR ''t'']
      else if c = CHR 0x08 then [CHR 0x5C, CHR ''b'']
      else if c = CHR 0x0C then [CHR 0x5C, CHR ''f'']
      else if (of_char c :: nat) < 32 then
        [CHR 0x5C, CHR ''u'', CHR ''0'', CHR ''0'',
         hex_char (of_char c div 16), hex_char (of_char c mod 16)]
      else [c])"

definition encode_string :: "string \<Rightarrow> string" where
  "encode_string s = CHR 0x22 # concat (map escape_char s) @ [CHR 0x22]"

definition newline_indent :: "nat \<Rightarrow> string" where
  "newline_indent lvl = CHR 0x0A # concat (replicate lvl ''  '')"

fun json_encode :: "nat \<Rightarrow> json \<Rightarrow> string"
  and encode_items :: "nat \<Rightarrow> (string \<times> json) list \<Rightarrow> string" where
  "json_encode lvl (JInt i) = str_int i"
| "json_encode lvl (JString s) = encode_string s"
| "json_encode lvl (JObject []) = ''{}''"
| "json_encode lvl (JObject (kv # kvs)) =
     ''{'' @ newline_indent (Suc lvl) @ encode_items (Suc lvl) (kv # kvs) @
     newline_indent lvl @ ''}''"
| "encode_items lvl [] = []"
| "encode_items lvl [(k, v)] = encode_string k @ '': '' @ json_encode lvl v"
| "encode_items lvl ((k, v) # kv' # kvs) =
     encode_string k @ '': '' @ json_encode lvl v @ '','' @ newline_indent lvl @
     encode_items lvl (kv' # kvs)"

definition json_dumps :: "json \<Rightarrow> string" where
  "json_dumps v = json_encode 0 v"

text \<open>Lines 283-295.\<close>

definition json_data ::
  "string \<Rightarrow> string \<Rightarrow> int \<Rightarrow> int \<Rightarrow> string \<Rightarrow> string \<Rightarrow> string \<Rightarrow> json" where
  "json_data url timestamp viewport_width total_height title current_url user_agent =
     JObject
       [(''url'', JString url),
        (''timestamp'', JString timestamp),
        (''dimensions'', JObject
           [(''width'', JInt viewport_width),
            (''height'', JInt total_height)]),
        (''metadata'', JObject
           [(''title'', JString title),
            (''url'', JString current_url),
            (''user_agent'', JString user_agent)])]"

text \<open>Lines 274-303.\<close>

definition save_outputs ::
  "web_snapshot \<Rightarrow> env \<Rightarrow> string \<Rightarrow> int \<Rightarrow> int \<Rightarrow> (string \<times> string) io" where
  "save_outputs self env url viewport_width total_height w =
     (let timestamp = strftime env (clock w);
          filename = ''snapshot_'' @ timestamp;
          screenshot_path = path_join (output_dir self) (filename @ ''.png'');
          json_path = path_join (output_dir self) (filename @ ''.json'')
      in io_bind (save_screenshot env screenshot_path)
           (\<lambda>_. io_bind (driver_call env Title page_title)
             (\<lambda>title. io_bind (driver_call env CurrentUrl page_url)
               (\<lambda>current_url. io_bind (execute_script env UserAgent navigator_userAgent)
                 (\<lambda>user_agent.
                    io_bind (write_text env json_path
                               (json_dumps (json_data url timestamp viewport_width
                                  total_height title current_url user_agent)))
                      (\<lambda>_. io_bind (logger INFO
                                (''Screenshot and JSON data saved successfully: '' @ filename))
                        (\<lambda>_. io_return (screenshot_path, json_path))))))) w)"

text \<open>Lines 232-303: what the \<^verbatim>\<open>try\<close> block does once the scroll has returned.\<close>

definition after_scroll :: "web_snapshot \<Rightarrow> env \<Rightarrow> string \<Rightarrow> (string \<times> string) io" where
  "after_scroll self env url =
     io_bind (wait_for_content_stable env 10)
       (\<lambda>content_stable. io_bind (wait_for_images env)
         (\<lambda>_. io_bind (wait_for_dynamic_content env)
           (\<lambda>dynamic_content_loaded.
              io_bind (extra_delay self env content_stable dynamic_content_loaded)
                (\<lambda>_. io_bind (measure_and_resize env)
                  (\<lambda>(viewport_width, total_height).
                     save_outputs self env url viewport_width total_height)))))"

text \<open>Lines 218-303: the body of the \<^verbatim>\<open>try\<close>.\<close>

definition capture_body ::
  "web_snapshot \<Rightarrow> env \<Rightarrow> string \<Rightarrow> world \<Rightarrow> ((exn + string \<times> string) \<times> world) option" where
  "capture_body self env url w =
     (case navigate env url w of
        (Inl e, w1) \<Rightarrow> Some (Inl e, w1)
      | (Inr _, w1) \<Rightarrow>
          (case scroll_to_bottom env w1 of
             None \<Rightarrow> None
           | Some (Inl e, w2) \<Rightarrow> Some (Inl e, w2)
           | Some (Inr _, w2) \<Rightarrow> Some (after_scroll self env url w2)))"

text \<open>
  Lines 208-310. The result is Python's: \<open>Some (screenshot_path, json_path)\<close>, or
  \<open>None\<close> for the source's \<^verbatim>\<open>None\<close>. The outer \<open>option\<close> is \<open>None\<close> when the call
  never returns.
\<close>

definition capture_screenshot ::
  "web_snapshot \<Rightarrow> env \<Rightarrow> string \<Rightarrow> world \<Rightarrow> ((string \<times> string) option \<times> world) option" where
  "capture_screenshot self env url w =
     (case capture_body self env url w of
        None \<Rightarrow> None
      | Some (Inr paths, w') \<Rightarrow> Some (Some paths, w')
      | Some (Inl e, w') \<Rightarrow>
          if exn_class_of e = TimeoutException then
            Some (None, snd (logger ERROR (''Timeout while loading URL: '' @ url) w'))
          else
            Some (None, snd (logger ERROR (''Error capturing screenshot: '' @ str_exn e) w')))"

text \<open>Lines 69-82, as far as the capture can see it: the initial window.\<close>

definition setup_driver :: "world \<Rightarrow> world" where
  "setup_driver w = w\<lparr>window_size := (1920, 1080)\<rparr>"

text \<open>Lines 312-316.\<close>

definition close :: "env \<Rightarrow> unit io" where
  "close env =
     io_bind (driver_call env Quit (\<lambda>_. ()))
       (\<lambda>_. logger INFO ''WebDriver closed successfully'')"

definition print_line :: "string \<Rightarrow> world \<Rightarrow> world" where
  "print_line s w = w\<lparr>stdout := stdout w @ [s]\<rparr>"

text \<open>
  Lines 318-342, from the parsed arguments on. \<^verbatim>\<open>--wait-time\<close> is declared with
  \<^verbatim>\<open>type=int\<close> and handed to the constructor as it is. The logging level and the
  creation of the output directory touch nothing the capture reads and are left out.
  \<open>capture_screenshot\<close> raises nothing, so the \<^verbatim>\<open>finally\<close> clause is what comes next.
\<close>

record args =
  arg_url :: string
  arg_output_dir :: string
  arg_wait_time :: "int option"

definition main :: "args \<Rightarrow> env \<Rightarrow> world \<Rightarrow> ((exn + unit) \<times> world) option" where
  "main a env w =
     (let snapshot = \<lparr>output_dir = arg_output_dir a, wait_time = arg_wait_time a\<rparr> in
        case capture_screenshot snapshot env (arg_url a) (setup_driver w) of
          None \<Rightarrow> None
        | Some (result, w1) \<Rightarrow>
            Some (close env
              (print_line
                 (case result of
                    Some (screenshot_path, json_path) \<Rightarrow>
                      ''Screenshot and JSON data saved successfully: '' @ screenshot_path
                  | None \<Rightarrow> ''Failed to capture screenshot'') w1)))"

section \<open>Reading the sidecar back\<close>

text \<open>
  The repository never reads its JSON files; the round trip the specification asks
  for needs a reader. \<open>json_loads\<close> is a reference parser for the fragment of JSON
  the sidecar uses (objects, strings, integers, any white space between tokens,
  every string escape; a \<^verbatim>\<open>\u\<close> escape is accepted for code points below 128,
  which are single bytes). It follows RFC 8259, not the source.
\<close>

definition is_ws :: "char \<Rightarrow> bool" where
  "is_ws c = (c = CHR '' '' \<or> c = CHR 0x0A \<or> c = CHR 0x0D \<or> c = CHR 0x09)"

definition skip_ws :: "string \<Rightarrow> string" where
  "skip_ws s = dropWhile is_ws s"

definition is_digit :: "char \<Rightarrow> bool" where
  "is_digit c = (48 \<le> (of_char c :: nat) \<and> (of_char c :: nat) \<le> 57)"

definition hex_val :: "char \<Rightarrow> nat option" where
  "hex_val c =
     (let n = (of_char c :: nat) in
        if 48 \<le> n \<and> n \<le> 57 then Some (n - 48)
        else if 97 \<le> n \<and> n \<le> 102 then Some (n - 87)
        else if 65 \<le> n \<and> n \<le> 70 then Some (n - 55)
        else None)"

definition unescape :: "char \<Rightarrow> char option" where
  "unescape e =
     (if e = CHR 0x22 then Some (CHR 0x22)
      else if e = CHR 0x5C then Some (CHR 0x5C)
      else if e = CHR ''/'' then Some (CHR ''/'')
      else if e = CHR ''b'' then Some (CHR 0x08)
      else if e = CHR ''f'' then Some (CHR 0x0C)
      else if e = CHR ''n'' then Some (CHR 0x0A)
      else if e = CHR ''r'' then Some (CHR 0x0D)
      else if e = CHR ''t'' then Some (CHR 0x09)
      else None)"

definition cons_result :: "char \<Rightarrow> (string \<times> string) option \<Rightarrow> (string \<times> string) option" where
  "cons_result c r = (case r of None \<Rightarrow> None | Some (s, rest) \<Rightarrow> Some (c # s, rest))"

text \<open>The characters of a string literal after its opening quote, up to the closing one.\<close>

fun parse_chars :: "string \<Rightarrow> (string \<times> string) option" where
  "parse_chars [] = None"
| "parse_chars (c # cs) =
     (if c = CHR 0x22 then Some ([], cs)
      else if c = CHR 0x5C then
        (case cs of
           [] \<Rightarrow> None
         | e # r \<Rightarrow>
             if e = CHR ''u'' then
               (case r of
                  a # b # c' # d # r' \<Rightarrow>
                    (case (hex_val a, hex_val b, hex_val c', hex_val d) of
                       (Some x1, Some x2, Some x3, Some x4) \<Rightarrow>
                         (let n = ((x1 * 16 + x2) * 16 + x3) * 16 + x4 in
                            if n < 128 then cons_result (char_of n) (parse_chars r') else None)
                     | _ \<Rightarrow> None)
                | _ \<Rightarrow> None)
             else
               (case unescape e of
                  None \<Rightarrow> None
                | Some ch \<Rightarrow> cons_result ch (parse_chars r)))
      else if (of_char c :: nat) < 32 then None
      else cons_result c (parse_chars cs))"

definition parse_nat :: "string \<Rightarrow> (nat \<times> string) option" where
  "parse_nat s =
     (let ds = takeWhile is_digit s in
        if ds = [] then None
        else Some (foldl (\<lambda>a c. a * 10 + (of_char c - 48)) 0 ds, dropWhile is_digit s))"

definition parse_int :: "string \<Rightarrow> (int \<times> string) option" where
  "parse_int s =
     (case s of
        [] \<Rightarrow> None
      | c # r \<Rightarrow>
          if c = CHR ''-'' then
            (case parse_nat r of None \<Rightarrow> None | Some (n, rest) \<Rightarrow> Some (- int n, rest))
          else
            (case parse_nat s of None \<Rightarrow> None | Some (n, rest) \<Rightarrow> Some (int n, rest)))"

text \<open>
  Values and the members of an object. The first argument bounds the depth of the
  recursion; \<open>json_loads\<close> starts it with the length of the text, which is more than
  any text can use up.
\<close>

fun parse_value :: "nat \<Rightarrow> string \<Rightarrow> (json \<times> string) option"
  and parse_members :: "nat \<Rightarrow> string \<Rightarrow> ((string \<times> json) list \<times> string) option" where
  "parse_value 0 s = None"
| "parse_value (Suc n) s =
     (case skip_ws s of
        [] \<Rightarrow> None
      | c # r \<Rightarrow>
          if c = CHR 0x22 then
            (case parse_chars r of None \<Rightarrow> None | Some (str, rest) \<Rightarrow> Some (JString str, rest))
          else if c = CHR ''{'' then
            (case skip_ws r of
               [] \<Rightarrow> None
             | c' # r' \<Rightarrow>
                 if c' = CHR ''}'' then Some (JObject [], r')
                 else (case parse_members n r of
                         None \<Rightarrow> None
                       | Some (kvs, rest) \<Rightarrow> Some (JObject kvs, rest)))
          else
            (case parse_int (c # r) of None \<Rightarrow> None | Some (i, rest) \<Rightarrow> Some (JInt i, rest)))"
| "parse_members 0 s = None"
| "parse_members (Suc n) s =
     (case skip_ws s of
        [] \<Rightarrow> None
      | c # r \<Rightarrow>
          if c = CHR 0x22 then
            (case parse_chars r of
               None \<Rightarrow> None
             | Some (k, r1) \<Rightarrow>
                 (case skip_ws r1 of
                    [] \<Rightarrow> None
                  | c1 # r2 \<Rightarrow>
                      if c1 = CHR '':'' then
                        (case parse_value n r2 of
                           None \<Rightarrow> None
                         | Some (v, r3) \<Rightarrow>
                             (case skip_ws r3 of
                                [] \<Rightarrow> None
                              | c3 # r4 \<Rightarrow>
                                  if c3 = CHR '','' then
                                    (case parse_members n r4 of
                                       None \<Rightarrow> None
                                     | Some (kvs, r5) \<Rightarrow> Some ((k, v) # kvs, r5))
                                  else if c3 = CHR ''}'' then Some ([(k, v)], r4)
                                  else None))
                      else None))
          else None)"

definition json_loads :: "string \<Rightarrow> json option" where
  "json_loads s =
     (case parse_value (length s) s of
        None \<Rightarrow> None
      | Some (v, rest) \<Rightarrow> if skip_ws rest = [] then Some v else None)"

text \<open>Looking a key up in a parsed object; of two equal keys the later one counts.\<close>

fun json_get :: "json \<Rightarrow> string \<Rightarrow> json option" where
  "json_get (JObject kvs) k = map_of (rev kvs) k"
| "json_get v k = None"

fun json_keys :: "json \<Rightarrow> string list" where
  "json_keys (JObject kvs) = map fst kvs"
| "json_keys v = []"

text \<open>How much depth the parser needs for a value.\<close>

fun need :: "json \<Rightarrow> nat" and need_items :: "(string \<times> json) list \<Rightarrow> nat" where
  "need (JInt i) = 1"
| "need (JString s) = 1"
| "need (JObject kvs) = Suc (need_items kvs)"
| "need_items [] = 0"
| "need_items ((k, v) # kvs) = Suc (max (need v) (need_items kvs))"

section \<open>Notions the properties are stated with\<close>

text \<open>What one pass of the scroll loop leaves in the trace when nothing raises.\<close>

definition pass_events :: "event list" where
  "pass_events =
     concat (map (\<lambda>i. [Driver (ExecuteScript (ScrollToFraction i)), Sleep 500]) [1..<10]) @
     [Driver (ExecuteScript ScrollToBottom), Sleep 2000, Driver (ExecuteScript ScrollHeight)]"

text \<open>
  A scroll that starts at interaction \<open>k0\<close> measures the height there, and then once
  at the end of each pass of eleven interactions: \<open>height_at env k0 p\<close> is the height
  measured after pass \<open>p\<close>.
\<close>

definition height_at :: "env \<Rightarrow> nat \<Rightarrow> nat \<Rightarrow> int" where
  "height_at env k0 p = body_scrollHeight (page_at env (k0 + 11 * p))"

text \<open>A step that leaves the written files as they are, whether it raises or not.\<close>

definition keeps_files :: "'a io \<Rightarrow> bool" where
  "keeps_files m = (\<forall>w. files (snd (m w)) = files w)"

text \<open>
  A run from \<open>w\<close> to \<open>w'\<close> with result \<open>r\<close> that caught no exception of the driver: a
  driver call of the run that raised was the last one, and what it raised is the
  result. A step lets the driver's exceptions through when all its runs are such.
\<close>

definition raises_last :: "env \<Rightarrow> world \<Rightarrow> exn + 'a \<Rightarrow> world \<Rightarrow> bool" where
  "raises_last env w r w' =
     (ncalls w \<le> ncalls w' \<and>
      (\<forall>k e. ncalls w \<le> k \<and> k < ncalls w' \<and> fault env k = Some e \<longrightarrow>
             ncalls w' = Suc k \<and> r = Inl e))"

definition lets_through :: "env \<Rightarrow> 'a io \<Rightarrow> bool" where
  "lets_through env m = (\<forall>w r w'. m w = (r, w') \<longrightarrow> raises_last env w r w')"

text \<open>A text after which a number can end: nothing, or something that is no digit.\<close>

definition ends_number :: "string \<Rightarrow> bool" where
  "ends_number rest = (case rest of [] \<Rightarrow> True | c # _ \<Rightarrow> \<not> is_digit c)"

text \<open>
  The layout the specification describes for the sidecar, written out: one member
  per line, two spaces of indentation per level, keys in double quotes.
\<close>

definition quoted :: "string \<Rightarrow> string" where
  "quoted k = CHR 0x22 # k @ [CHR 0x22]"

definition sidecar_text ::
  "string \<Rightarrow> string \<Rightarrow> int \<Rightarrow> int \<Rightarrow> string \<Rightarrow> string \<Rightarrow> string \<Rightarrow> string" where
  "sidecar_text url timestamp width height title current_url user_agent =
     ''{'' @ [CHR 0x0A] @
     ''  '' @ quoted ''url'' @ '': '' @ encode_string url @ '','' @ [CHR 0x0A] @
     ''  '' @ quoted ''timestamp'' @ '': '' @ encode_string timestamp @ '','' @ [CHR 0x0A] @
     ''  '' @ quoted ''dimensions'' @ '': {'' @ [CHR 0x0A] @
     ''    '' @ quoted ''width'' @ '': '' @ str_int width @ '','' @ [CHR 0x0A] @
     ''    '' @ quoted ''height'' @ '': '' @ str_int height @ [CHR 0x0A] @
     ''  },'' @ [CHR 0x0A] @
     ''  '' @ quoted ''metadata'' @ '': {'' @ [CHR 0x0A] @
     ''    '' @ quoted ''title'' @ '': '' @ encode_string title @ '','' @ [CHR 0x0A] @
     ''    '' @ quoted ''url'' @ '': '' @ encode_string current_url @ '','' @ [CHR 0x0A] @
     ''    '' @ quoted ''user_agent'' @ '': '' @ encode_string user_agent @ [CHR 0x0A] @
     ''  }'' @ [CHR 0x0A] @
     ''}''"

text \<open>Concrete pages, environments and a start state to run the program on.\<close>

definition demo_page :: page where
  "demo_page =
     \<lparr>body_scrollHeight = 2000, body_offsetHeight = 1990, docEl_clientHeight = 1080,
      docEl_scrollHeight = 2016, docEl_offsetHeight = 2010, body_scrollWidth = 1900,
      body_offsetWidth = 1904, docEl_clientWidth = 1920, docEl_scrollWidth = 1920,
      docEl_offsetWidth = 1920, page_title = ''T'', page_url = ''http://x/'',
      navigator_userAgent = ''UA'', mutations = 0\<rparr>"

definition demo_env :: env where
  "demo_env =
     \<lparr>page_at = (\<lambda>k. demo_page), fault = (\<lambda>k. None), latency = (\<lambda>k. 0),
      strftime = (\<lambda>t. ''20240101_000000''), sleep_max = 9000000000000,
      screenshot_saved = (\<lambda>p. True), open_error = (\<lambda>p. None), dump_error = (\<lambda>p. None)\<rparr>"

text \<open>The same browser, but the interactions listed in \<open>fs\<close> raise.\<close>

definition faulty_env :: "(nat \<times> exn) list \<Rightarrow> env" where
  "faulty_env fs = demo_env\<lparr>fault := map_of fs\<rparr>"

text \<open>A page that is taller at every interaction, and a page whose body has no height.\<close>

definition growing_env :: env where
  "growing_env = demo_env\<lparr>page_at := (\<lambda>k. demo_page\<lparr>body_scrollHeight := int k\<rparr>)\<rparr>"

definition blank_env :: env where
  "blank_env = demo_env\<lparr>page_at := (\<lambda>k. demo_page\<lparr>body_scrollHeight := 0\<rparr>)\<rparr>"

text \<open>
  A disk the driver cannot write the image to, and a dump that raises after eleven
  bytes, which is where the value of the first key would start.
\<close>

definition unsaved_env :: env where
  "unsaved_env = demo_env\<lparr>screenshot_saved := (\<lambda>p. False)\<rparr>"

definition failing_dump_env :: env where
  "failing_dump_env =
     demo_env\<lparr>dump_error := (\<lambda>p. Some (Exn UnicodeEncodeError ''surrogates not allowed'', 11))\<rparr>"

text \<open>A page whose DOM is still changing when the mutation observer looks at it.\<close>

definition busy_env :: env where
  "busy_env = demo_env\<lparr>page_at := (\<lambda>k. demo_page\<lparr>mutations := 3\<rparr>)\<rparr>"

definition demo_world :: world where
  "demo_world =
     \<lparr>ncalls = 0, clock = 0, window_size = (1920, 1080), trace = [], files = [], stdout = []\<rparr>"

definition demo_self :: web_snapshot where
  "demo_self = \<lparr>output_dir = ''out'', wait_time = None\<rparr>"

definition demo_args :: args where
  "demo_args = \<lparr>arg_url = ''http://x'', arg_output_dir = ''out'', arg_wait_time = Some (- 1)\<rparr>"

section \<open>Basic facts about the primitives\<close>

lemmas io_defs = io_bind_def io_return_def logger_def time_sleep_def sleep_overflows_def
  os_accepts_def driver_call_def execute_script_def set_window_size_def save_screenshot_def
  write_text_def Let_def

lemmas phase_defs = capture_screenshot_def capture_body_def navigate_def scroll_to_bottom_def
  scroll_pass_def after_scroll_def wait_for_content_stable_def wait_for_images_def
  wait_for_dynamic_content_def extra_delay_def measure_and_resize_def save_outputs_def
  path_join_def js_total_height_def js_viewport_width_def

lemmas demo_defs = demo_env_def demo_page_def demo_world_def demo_self_def faulty_env_def
  busy_env_def unsaved_env_def failing_dump_env_def

lemma upt_1_10: "[Suc 0..<10] = [1, 2, 3, 4, 5, 6, 7, 8, 9::nat]"
  by (simp add: upt_rec)

lemma add_10: "n + 10 = Suc (Suc (Suc (Suc (Suc (Suc (Suc (Suc (Suc (Suc n)))))))))"
  by simp

section \<open>The scroll loop\<close>

lemma scroll_pass_ok:
  assumes "\<forall>k\<ge>ncalls w. fault env k = None"
  shows "fst (scroll_pass env w) = Inr (body_scrollHeight (page_at env (ncalls w + 10)))"
    and "ncalls (snd (scroll_pass env w)) = ncalls w + 11"
    and "trace (snd (scroll_pass env w)) = trace w @ pass_events"
    and "files (snd (scroll_pass env w)) = files w"
    and "window_size (snd (scroll_pass env w)) = window_size w"
    and "stdout (snd (scroll_pass env w)) = stdout w"
  using assms
  by (simp_all add: scroll_pass_def upt_1_10 io_defs pass_events_def add_10)


lemma scroll_loop_fixed_point:
  assumes "\<forall>k\<ge>ncalls w. fault env k = None"
      and "H 0 = last_height"
      and "\<forall>p. H (Suc p) = body_scrollHeight (page_at env (ncalls w + 11 * p + 10))"
      and "\<forall>p<n. H (Suc p) \<noteq> H p"
      and "H (Suc n) = H n"
  shows "\<exists>w'. scroll_loop env last_height w = Some (Inr (), w') \<and>
           ncalls w' = ncalls w + 11 * Suc n \<and>
           trace w' = trace w @ concat (replicate (Suc n) pass_events) \<and>
           files w' = files w \<and> window_size w' = window_size w \<and> stdout w' = stdout w"
  using assms
proof (induction n arbitrary: w last_height H)
  case 0
  have h: "body_scrollHeight (page_at env (ncalls w + 10)) = last_height"
    using 0 by (metis One_nat_def add.right_neutral mult_zero_right)
  obtain r w1 where sp: "scroll_pass env w = (r, w1)" by (cases "scroll_pass env w")
  with scroll_pass_ok[OF 0(1)] h have "r = Inr last_height" "ncalls w1 = ncalls w + 11"
    "trace w1 = trace w @ pass_events" "files w1 = files w" "window_size w1 = window_size w"
    "stdout w1 = stdout w"
    by auto
  then show ?case
    by (subst scroll_loop.simps) (simp add: sp)
next
  case (Suc n)
  obtain r w1 where sp: "scroll_pass env w = (r, w1)" by (cases "scroll_pass env w")
  from Suc.prems have ne: "H (Suc 0) \<noteq> H 0" by blast
  have h1: "H (Suc 0) = body_scrollHeight (page_at env (ncalls w + 10))"
    using Suc.prems(3) by (metis add.right_neutral mult_zero_right)
  from sp scroll_pass_ok[OF Suc.prems(1)] have w1:
    "r = Inr (H (Suc 0))" "ncalls w1 = ncalls w + 11"
    "trace w1 = trace w @ pass_events" "files w1 = files w" "window_size w1 = window_size w"
    "stdout w1 = stdout w"
    by (auto simp: h1)
  have a1: "\<forall>k\<ge>ncalls w1. fault env k = None" using Suc.prems(1) w1(2) by simp
  have a3: "\<forall>p. (H \<circ> Suc) (Suc p) = body_scrollHeight (page_at env (ncalls w1 + 11 * p + 10))"
    using Suc.prems(3) w1(2) by (simp add: add.commute add.left_commute)
  have a4: "\<forall>p<n. (H \<circ> Suc) (Suc p) \<noteq> (H \<circ> Suc) p" using Suc.prems(4) by simp
  have a5: "(H \<circ> Suc) (Suc n) = (H \<circ> Suc) n" using Suc.prems(5) by simp
  from Suc.IH[OF a1 _ a3 a4 a5, of "H (Suc 0)"]
  obtain w' where w': "scroll_loop env (H (Suc 0)) w1 = Some (Inr (), w')"
    "ncalls w' = ncalls w1 + 11 * Suc n"
    "trace w' = trace w1 @ concat (replicate (Suc n) pass_events)"
    "files w' = files w1" "window_size w' = window_size w1" "stdout w' = stdout w1"
    by auto
  show ?case
    using ne Suc.prems(2) w' w1
    by (subst scroll_loop.simps) (simp add: sp)
qed

lemma scroll_loop_diverges:
  assumes "scroll_loop env last_height w = Some r"
      and "\<forall>k\<ge>ncalls w. fault env k = None"
      and "\<forall>p. body_scrollHeight (page_at env (ncalls w + 11 * Suc p + 10)) \<noteq>
               body_scrollHeight (page_at env (ncalls w + 11 * p + 10))"
      and "body_scrollHeight (page_at env (ncalls w + 10)) \<noteq> last_height"
  shows False
proof -
  let ?P = "\<lambda>env last_height w (r :: (exn + unit) \<times> world).
     (\<forall>k\<ge>ncalls w. fault env k = None) \<longrightarrow>
     (\<forall>p. body_scrollHeight (page_at env (ncalls w + 11 * Suc p + 10)) \<noteq>
               body_scrollHeight (page_at env (ncalls w + 11 * p + 10))) \<longrightarrow>
     body_scrollHeight (page_at env (ncalls w + 10)) \<noteq> last_height \<longrightarrow> False"
  have "?P env last_height w r"
  proof (rule scroll_loop.raw_induct[where P = ?P, OF _ assms(1)], goal_cases)
    case (1 f env last_height w r)
    show ?case
    proof (intro impI)
      assume nf: "\<forall>k\<ge>ncalls w. fault env k = None"
        and gr: "\<forall>p. body_scrollHeight (page_at env (ncalls w + 11 * Suc p + 10)) \<noteq>
               body_scrollHeight (page_at env (ncalls w + 11 * p + 10))"
        and ne: "body_scrollHeight (page_at env (ncalls w + 10)) \<noteq> last_height"
      obtain x w1 where sp: "scroll_pass env w = (x, w1)" by (cases "scroll_pass env w")
      from sp scroll_pass_ok[OF nf] have w1:
        "x = Inr (body_scrollHeight (page_at env (ncalls w + 10)))" "ncalls w1 = ncalls w + 11"
        by auto
      from 1(2) sp w1 ne
      have rec: "f env (body_scrollHeight (page_at env (ncalls w + 10))) w1 = Some r"
        by simp
      have a: "\<forall>k\<ge>ncalls w1. fault env k = None" using nf w1 by simp
      have b: "\<forall>p. body_scrollHeight (page_at env (ncalls w1 + 11 * Suc p + 10)) \<noteq>
                   body_scrollHeight (page_at env (ncalls w1 + 11 * p + 10))"
      proof
        fix p
        have "ncalls w1 + 11 * Suc p + 10 = ncalls w + 11 * Suc (Suc p) + 10"
             "ncalls w1 + 11 * p + 10 = ncalls w + 11 * Suc p + 10"
          using w1 by simp_all
        then show "body_scrollHeight (page_at env (ncalls w1 + 11 * Suc p + 10)) \<noteq>
                   body_scrollHeight (page_at env (ncalls w1 + 11 * p + 10))"
          using gr by metis
      qed
      have c: "body_scrollHeight (page_at env (ncalls w1 + 10)) \<noteq>
               body_scrollHeight (page_at env (ncalls w + 10))"
      proof -
        have "ncalls w1 + 10 = ncalls w + 11 * Suc 0 + 10" using w1 by simp
        then show ?thesis using gr[rule_format, of 0] by simp
      qed
      from 1(1)[OF rec] a b c show False by blast
    qed
  qed
  with assms show False by blast
qed


section \<open>What leaves the files alone\<close>

lemma keeps_filesD: "keeps_files m \<Longrightarrow> m w = (r, w') \<Longrightarrow> files w' = files w"
  by (metis keeps_files_def snd_conv)

lemma keeps_files_bind [intro!]:
  "keeps_files m \<Longrightarrow> (\<And>v. keeps_files (f v)) \<Longrightarrow> keeps_files (io_bind m f)"
  by (auto simp: keeps_files_def io_bind_def split: prod.splits sum.splits)
     (metis snd_conv)+

lemma keeps_files_return [intro!]: "keeps_files (io_return v)"
  by (simp add: keeps_files_def io_return_def)

lemma keeps_files_logger [intro!]: "keeps_files (logger l m)"
  by (simp add: keeps_files_def logger_def)

lemma keeps_files_sleep [intro!]: "keeps_files (time_sleep env ms)"
  by (simp add: keeps_files_def time_sleep_def sleep_overflows_def os_accepts_def)

lemma keeps_files_driver_call [intro!]: "keeps_files (driver_call env rq f)"
  by (simp add: keeps_files_def driver_call_def Let_def split: option.splits)

lemma keeps_files_execute_script [intro!]: "keeps_files (execute_script env s f)"
  by (simp add: execute_script_def keeps_files_driver_call)

lemma keeps_files_set_window_size [intro!]: "keeps_files (set_window_size env a b)"
  by (simp add: keeps_files_def set_window_size_def io_bind_def driver_call_def Let_def
      split: option.splits)

lemma keeps_files_scroll_steps [intro!]: "keeps_files (scroll_steps env is)"
  by (induction "is") auto

lemma keeps_files_scroll_pass [intro!]: "keeps_files (scroll_pass env)"
  unfolding scroll_pass_def by auto

lemma keeps_files_navigate [intro!]: "keeps_files (navigate env url)"
  unfolding navigate_def by auto

declare stable_loop.simps [simp del]

lemma stable_loop_files:
  "files (snd (stable_loop env timeout start_time last_height w)) = files w"
proof (induction env timeout start_time last_height w rule: stable_loop.induct)
  case (1 env timeout start_time last_height w)
  show ?case
  proof (cases "clock w - start_time < timeout * 1000")
    case False
    then show ?thesis by (subst stable_loop.simps) simp
  next
    case True
    obtain r w1 where ex: "execute_script env ScrollHeight body_scrollHeight w = (r, w1)"
      by (cases "execute_script env ScrollHeight body_scrollHeight w")
    have f1: "files w1 = files w"
      using keeps_filesD[OF keeps_files_execute_script ex] .
    show ?thesis
    proof (cases r)
      case (Inl e)
      with True ex f1 show ?thesis by (subst stable_loop.simps) simp
    next
      case (Inr h)
      show ?thesis
      proof (cases "h = last_height")
        case True': True
        with True ex Inr f1 show ?thesis
          by (subst stable_loop.simps) (simp add: io_bind_def time_sleep_def sleep_overflows_def os_accepts_def io_return_def)
      next
        case False
        obtain r2 w2 where sl: "time_sleep env 1000 w1 = (r2, w2)" by (cases "time_sleep env 1000 w1")
        then have r2: "r2 = Inr ()" "files w2 = files w1"
          by (auto simp: time_sleep_def sleep_overflows_def os_accepts_def)
        from "1.IH"[OF True ex[symmetric] Inr False sl[symmetric] r2(1)] r2
        have "files (snd (stable_loop env timeout start_time h w2)) = files w2"
          by simp
        with True ex Inr False sl r2 f1 show ?thesis
          by (subst stable_loop.simps) simp
      qed
    qed
  qed
qed

lemma keeps_files_stable [intro!]: "keeps_files (wait_for_content_stable env timeout)"
  by (simp add: wait_for_content_stable_def keeps_files_def io_bind_def logger_def
      stable_loop_files)

lemma keeps_files_images [intro!]: "keeps_files (wait_for_images env)"
  unfolding wait_for_images_def
  by (rule keeps_files_bind)
     (auto simp: keeps_files_def driver_call_def logger_def Let_def split: option.splits)

lemma keeps_files_dynamic [intro!]: "keeps_files (wait_for_dynamic_content env)"
  unfolding wait_for_dynamic_content_def
  by (rule keeps_files_bind)
     (auto simp: keeps_files_def io_defs split: option.splits)

lemma keeps_files_extra_delay [intro!]: "keeps_files (extra_delay self env cs dl)"
  unfolding extra_delay_def by (auto simp: Let_def)

lemma keeps_files_measure [intro!]: "keeps_files (measure_and_resize env)"
  unfolding measure_and_resize_def by auto

lemma scroll_loop_files:
  assumes "scroll_loop env last_height w = Some (r, w')"
  shows "files w' = files w"
proof -
  let ?P = "\<lambda>(env::env) (last_height::int) w (y :: (exn + unit) \<times> world). files (snd y) = files w"
  have "?P env last_height w (r, w')"
  proof (rule scroll_loop.raw_induct[where P = ?P, OF _ assms], goal_cases)
    case (1 f env last_height w y)
    obtain x w1 where sp: "scroll_pass env w = (x, w1)" by (cases "scroll_pass env w")
    have f1: "files w1 = files w" using keeps_filesD[OF keeps_files_scroll_pass sp] .
    show ?case
    proof (cases x)
      case (Inl e)
      with 1(2) sp f1 show ?thesis by auto
    next
      case (Inr h)
      show ?thesis
      proof (cases "h = last_height")
        case True
        with 1(2) sp f1 Inr show ?thesis by auto
      next
        case False
        with 1(2) sp Inr have "f env h w1 = Some y" by simp
        from 1(1)[OF this] f1 show ?thesis by simp
      qed
    qed
  qed
  then show ?thesis by simp
qed

lemma scroll_to_bottom_files:
  assumes "scroll_to_bottom env w = Some (r, w')"
  shows "files w' = files w"
proof -
  let ?m = "io_bind (logger INFO ''Starting progressive scroll to trigger lazy loading...'')
             (\<lambda>_. execute_script env ScrollHeight body_scrollHeight)"
  obtain x w1 where m: "?m w = (x, w1)" by (cases "?m w")
  have "keeps_files ?m" by auto
  from keeps_filesD[OF this m] have f1: "files w1 = files w" .
  show ?thesis
  proof (cases x)
    case (Inl e)
    with assms m f1 show ?thesis by (simp add: scroll_to_bottom_def)
  next
    case (Inr h)
    show ?thesis
    proof (cases "scroll_loop env h w1")
      case None
      with assms m Inr show ?thesis by (simp add: scroll_to_bottom_def)
    next
      case (Some y)
      obtain r2 w2 where y: "y = (r2, w2)" by (cases y)
      from scroll_loop_files Some y have f2: "files w2 = files w1" by blast
      let ?t = "io_bind (execute_script env ScrollToTop (\<lambda>_. ()))
                       (\<lambda>_. logger INFO ''Completed progressive scroll'')"
      have kt: "keeps_files ?t" by auto
      show ?thesis
      proof (cases r2)
        case (Inl e)
        with assms m Inr Some y f1 f2 show ?thesis
          by (simp add: scroll_to_bottom_def del: One_nat_def)
      next
        case Inr': (Inr u)
        with assms m Inr Some y have "?t w2 = (r, w')"
          by (simp add: scroll_to_bottom_def)
        from keeps_filesD[OF kt this] f1 f2 show ?thesis by simp
      qed
    qed
  qed
qed

section \<open>When the scroll returns\<close>

lemma scroll_to_bottom_returns:
  assumes nf: "\<forall>k\<ge>ncalls w. fault env k = None"
      and ne: "\<forall>p<n. height_at env (ncalls w) (Suc p) \<noteq> height_at env (ncalls w) p"
      and eq: "height_at env (ncalls w) (Suc n) = height_at env (ncalls w) n"
  shows "\<exists>w'. scroll_to_bottom env w = Some (Inr (), w') \<and>
           ncalls w' = ncalls w + 11 * Suc n + 2 \<and>
           trace w' = trace w @
             [Log INFO ''Starting progressive scroll to trigger lazy loading...'',
              Driver (ExecuteScript ScrollHeight)] @
             concat (replicate (Suc n) pass_events) @
             [Driver (ExecuteScript ScrollToTop), Log INFO ''Completed progressive scroll''] \<and>
           files w' = files w \<and> window_size w' = window_size w"
proof -
  let ?m = "io_bind (logger INFO ''Starting progressive scroll to trigger lazy loading...'')
             (\<lambda>_. execute_script env ScrollHeight body_scrollHeight)"
  obtain x w1 where m: "?m w = (x, w1)" by (cases "?m w")
  with nf have w1: "x = Inr (height_at env (ncalls w) 0)" "ncalls w1 = Suc (ncalls w)"
    "trace w1 = trace w @ [Log INFO ''Starting progressive scroll to trigger lazy loading...'',
              Driver (ExecuteScript ScrollHeight)]"
    "files w1 = files w" "window_size w1 = window_size w"
    by (auto simp: io_defs height_at_def)
  have a1: "\<forall>k\<ge>ncalls w1. fault env k = None" using nf w1 by simp
  have a3: "\<forall>p. height_at env (ncalls w) (Suc p) =
                body_scrollHeight (page_at env (ncalls w1 + 11 * p + 10))"
    using w1 by (simp add: height_at_def add.commute add.left_commute)
  from scroll_loop_fixed_point[OF a1 refl a3 ne eq]
  obtain w2 where w2: "scroll_loop env (height_at env (ncalls w) 0) w1 = Some (Inr (), w2)"
    "ncalls w2 = ncalls w1 + 11 * Suc n"
    "trace w2 = trace w1 @ concat (replicate (Suc n) pass_events)"
    "files w2 = files w1" "window_size w2 = window_size w1"
    by blast
  have "fault env (ncalls w2) = None" using nf w2 w1 by simp
  then show ?thesis
    using m w1 w2
    by (simp add: scroll_to_bottom_def io_bind_def execute_script_def driver_call_def
        logger_def Let_def del: One_nat_def)
qed

lemma scroll_to_bottom_never_returns:
  assumes nf: "\<forall>k\<ge>ncalls w. fault env k = None"
      and gr: "\<forall>p. height_at env (ncalls w) (Suc p) \<noteq> height_at env (ncalls w) p"
  shows "scroll_to_bottom env w = None"
proof -
  let ?m = "io_bind (logger INFO ''Starting progressive scroll to trigger lazy loading...'')
             (\<lambda>_. execute_script env ScrollHeight body_scrollHeight)"
  obtain x w1 where m: "?m w = (x, w1)" by (cases "?m w")
  with nf have w1: "x = Inr (height_at env (ncalls w) 0)" "ncalls w1 = Suc (ncalls w)"
    by (auto simp: io_defs height_at_def)
  have a1: "\<forall>k\<ge>ncalls w1. fault env k = None" using nf w1 by simp
  have a2: "\<forall>p. body_scrollHeight (page_at env (ncalls w1 + 11 * Suc p + 10)) \<noteq>
               body_scrollHeight (page_at env (ncalls w1 + 11 * p + 10))"
  proof
    fix p
    have "ncalls w1 + 11 * Suc p + 10 = ncalls w + 11 * Suc (Suc p)"
         "ncalls w1 + 11 * p + 10 = ncalls w + 11 * Suc p"
      using w1 by simp_all
    then show "body_scrollHeight (page_at env (ncalls w1 + 11 * Suc p + 10)) \<noteq>
               body_scrollHeight (page_at env (ncalls w1 + 11 * p + 10))"
      using gr[rule_format, of "Suc p"] by (metis height_at_def)
  qed
  have a3: "body_scrollHeight (page_at env (ncalls w1 + 10)) \<noteq> height_at env (ncalls w) 0"
  proof -
    have "ncalls w1 + 10 = ncalls w + 11 * Suc 0" using w1 by simp
    then show ?thesis using gr[rule_format, of 0] by (simp add: height_at_def add.commute)
  qed
  have "scroll_loop env (height_at env (ncalls w) 0) w1 = None"
  proof (cases "scroll_loop env (height_at env (ncalls w) 0) w1")
    case (Some r)
    from scroll_loop_diverges[OF Some a1 a2 a3] show ?thesis ..
  qed simp
  then show ?thesis using m w1 by (simp add: scroll_to_bottom_def)
qed

text \<open>
  C5. Provided no driver call raises: when the height measured after pass \<open>n + 1\<close> is
  the first to equal the one measured before it, \<open>scroll_to_bottom\<close> returns after
  exactly \<open>n + 1\<close> passes, each made of the nine partial scrolls with their half-second
  pauses, the scroll to the bottom, the two-second pause and the new measurement, and
  the last thing it does to the page is to scroll back to the top. There is no bound
  on the passes: when every pass measures more than the one before, the call never
  returns.
\<close>

theorem scroll_to_bottom_fixed_point:
  assumes "\<forall>k\<ge>ncalls w. fault env k = None"
  shows "((\<forall>p<n. height_at env (ncalls w) (Suc p) \<noteq> height_at env (ncalls w) p) \<and>
          height_at env (ncalls w) (Suc n) = height_at env (ncalls w) n \<longrightarrow>
          (\<exists>w'. scroll_to_bottom env w = Some (Inr (), w') \<and>
             ncalls w' = ncalls w + 11 * Suc n + 2 \<and>
             trace w' = trace w @
               [Log INFO ''Starting progressive scroll to trigger lazy loading...'',
                Driver (ExecuteScript ScrollHeight)] @
               concat (replicate (Suc n) pass_events) @
               [Driver (ExecuteScript ScrollToTop),
                Log INFO ''Completed progressive scroll''])) \<and>
         ((\<forall>p. height_at env (ncalls w) p < height_at env (ncalls w) (Suc p)) \<longrightarrow>
          scroll_to_bottom env w = None) \<and>
         pass_events =
           [Driver (ExecuteScript (ScrollToFraction 1)), Sleep 500,
            Driver (ExecuteScript (ScrollToFraction 2)), Sleep 500,
            Driver (ExecuteScript (ScrollToFraction 3)), Sleep 500,
            Driver (ExecuteScript (ScrollToFraction 4)), Sleep 500,
            Driver (ExecuteScript (ScrollToFraction 5)), Sleep 500,
            Driver (ExecuteScript (ScrollToFraction 6)), Sleep 500,
            Driver (ExecuteScript (ScrollToFraction 7)), Sleep 500,
            Driver (ExecuteScript (ScrollToFraction 8)), Sleep 500,
            Driver (ExecuteScript (ScrollToFraction 9)), Sleep 500,
            Driver (ExecuteScript ScrollToBottom), Sleep 2000,
            Driver (ExecuteScript ScrollHeight)]"
proof (intro conjI impI)
  assume "(\<forall>p<n. height_at env (ncalls w) (Suc p) \<noteq> height_at env (ncalls w) p) \<and>
          height_at env (ncalls w) (Suc n) = height_at env (ncalls w) n"
  with scroll_to_bottom_returns[OF assms, of n]
  show "\<exists>w'. scroll_to_bottom env w = Some (Inr (), w') \<and>
             ncalls w' = ncalls w + 11 * Suc n + 2 \<and>
             trace w' = trace w @
               [Log INFO ''Starting progressive scroll to trigger lazy loading...'',
                Driver (ExecuteScript ScrollHeight)] @
               concat (replicate (Suc n) pass_events) @
               [Driver (ExecuteScript ScrollToTop),
                Log INFO ''Completed progressive scroll'']"
    by blast
next
  assume "\<forall>p. height_at env (ncalls w) p < height_at env (ncalls w) (Suc p)"
  then have "\<forall>p. height_at env (ncalls w) (Suc p) \<noteq> height_at env (ncalls w) p"
    by (metis less_irrefl)
  from scroll_to_bottom_never_returns[OF assms this]
  show "scroll_to_bottom env w = None" .
next
  show "pass_events =
           [Driver (ExecuteScript (ScrollToFraction 1)), Sleep 500,
            Driver (ExecuteScript (ScrollToFraction 2)), Sleep 500,
            Driver (ExecuteScript (ScrollToFraction 3)), Sleep 500,
            Driver (ExecuteScript (ScrollToFraction 4)), Sleep 500,
            Driver (ExecuteScript (ScrollToFraction 5)), Sleep 500,
            Driver (ExecuteScript (ScrollToFraction 6)), Sleep 500,
            Driver (ExecuteScript (ScrollToFraction 7)), Sleep 500,
            Driver (ExecuteScript (ScrollToFraction 8)), Sleep 500,
            Driver (ExecuteScript (ScrollToFraction 9)), Sleep 500,
            Driver (ExecuteScript ScrollToBottom), Sleep 2000,
            Driver (ExecuteScript ScrollHeight)]"
    by (simp add: pass_events_def upt_1_10)
qed

theorem scroll_to_bottom_fixed_point_witness:
  "(\<exists>w'. scroll_to_bottom demo_env demo_world = Some (Inr (), w') \<and> ncalls w' = 13 \<and>
      trace w' =
        [Log INFO ''Starting progressive scroll to trigger lazy loading...'',
         Driver (ExecuteScript ScrollHeight)] @ pass_events @
        [Driver (ExecuteScript ScrollToTop), Log INFO ''Completed progressive scroll'']) \<and>
   scroll_to_bottom growing_env demo_world = None"
proof -
  have nf1: "\<forall>k\<ge>ncalls demo_world. fault demo_env k = None"
    by (simp add: demo_env_def)
  have nf2: "\<forall>k\<ge>ncalls demo_world. fault growing_env k = None"
    by (simp add: growing_env_def demo_env_def)
  have h1: "(\<forall>p<0. height_at demo_env (ncalls demo_world) (Suc p) \<noteq>
                     height_at demo_env (ncalls demo_world) p) \<and>
            height_at demo_env (ncalls demo_world) (Suc 0) = height_at demo_env (ncalls demo_world) 0"
    by (simp add: height_at_def demo_env_def)
  have h2: "\<forall>p. height_at growing_env (ncalls demo_world) p <
                height_at growing_env (ncalls demo_world) (Suc p)"
    by (simp add: height_at_def growing_env_def demo_env_def)
  from scroll_to_bottom_fixed_point[OF nf1, of 0] h1
  have a: "\<exists>w'. scroll_to_bottom demo_env demo_world = Some (Inr (), w') \<and>
      ncalls w' = ncalls demo_world + 11 * Suc 0 + 2 \<and>
      trace w' = trace demo_world @
        [Log INFO ''Starting progressive scroll to trigger lazy loading...'',
         Driver (ExecuteScript ScrollHeight)] @ concat (replicate (Suc 0) pass_events) @
        [Driver (ExecuteScript ScrollToTop), Log INFO ''Completed progressive scroll'']"
    by blast
  from scroll_to_bottom_fixed_point[OF nf2, of 0] h2
  have b: "scroll_to_bottom growing_env demo_world = None" by blast
  from a b show ?thesis by (simp add: demo_world_def)
qed

section \<open>The ways through a capture\<close>

lemma io_bind_cases:
  assumes "io_bind m f w = (r, w')"
  obtains (raised) e where "m w = (Inl e, w')" "r = Inl e"
        | (passed) u w1 where "m w = (Inr u, w1)" "f u w1 = (r, w')"
  using assms by (auto simp: io_bind_def split: prod.splits sum.splits)

lemma after_scroll_cases:
  assumes "after_scroll self env url w = (r, w')"
  obtains (raised) e where "r = Inl e" "files w' = files w"
        | (saving) cs dl w5 w6 w7 vw th where
            "extra_delay self env cs dl w5 = (Inr (), w6)" "files w6 = files w"
            "measure_and_resize env w6 = (Inr (vw, th), w7)"
            "save_outputs self env url vw th w7 = (r, w')"
proof -
  from assms[unfolded after_scroll_def] show ?thesis
  proof (cases rule: io_bind_cases)
    case (raised e)
    with keeps_filesD[OF keeps_files_stable raised(1)] that(1) show ?thesis by blast
  next
    case p1: (passed cs w3)
    note f3 = keeps_filesD[OF keeps_files_stable p1(1)]
    from p1(2) show ?thesis
    proof (cases rule: io_bind_cases)
      case (raised e)
      with keeps_filesD[OF keeps_files_images raised(1)] f3 that(1) show ?thesis by simp
    next
      case p2: (passed u w4)
      note f4 = keeps_filesD[OF keeps_files_images p2(1)]
      from p2(2) show ?thesis
      proof (cases rule: io_bind_cases)
        case (raised e)
        with keeps_filesD[OF keeps_files_dynamic raised(1)] f3 f4 that(1) show ?thesis by simp
      next
        case p3: (passed dl w5)
        note f5 = keeps_filesD[OF keeps_files_dynamic p3(1)]
        from p3(2) show ?thesis
        proof (cases rule: io_bind_cases)
          case (raised e)
          with keeps_filesD[OF keeps_files_extra_delay raised(1)] f3 f4 f5 that(1)
          show ?thesis by simp
        next
          case p4: (passed u' w6)
          note f6 = keeps_filesD[OF keeps_files_extra_delay p4(1)]
          from p4(2) show ?thesis
          proof (cases rule: io_bind_cases)
            case (raised e)
            with keeps_filesD[OF keeps_files_measure raised(1)] f3 f4 f5 f6 that(1)
            show ?thesis by simp
          next
            case p5: (passed vt w7)
            obtain vw th where vt: "vt = (vw, th)" by (cases vt)
            from p5 vt p4(1) f3 f4 f5 f6 that(2)[of cs dl w5 w6 vw th w7] show ?thesis
              by simp
          qed
        qed
      qed
    qed
  qed
qed

lemma capture_body_cases:
  assumes "capture_body self env url w = Some (r, w')"
  obtains (raised) e where "r = Inl e" "files w' = files w"
        | (scrolled) w1 w2 where "navigate env url w = (Inr (), w1)"
            "scroll_to_bottom env w1 = Some (Inr (), w2)" "files w2 = files w"
            "after_scroll self env url w2 = (r, w')"
proof -
  obtain x w1 where nav: "navigate env url w = (x, w1)" by (cases "navigate env url w")
  note f1 = keeps_filesD[OF keeps_files_navigate nav]
  show ?thesis
  proof (cases x)
    case (Inl e)
    with assms nav f1 that(1) show ?thesis by (auto simp: capture_body_def)
  next
    case (Inr u)
    show ?thesis
    proof (cases "scroll_to_bottom env w1")
      case None
      with assms nav Inr show ?thesis by (simp add: capture_body_def)
    next
      case (Some y)
      obtain x2 w2 where y: "y = (x2, w2)" by (cases y)
      from scroll_to_bottom_files Some y have f2: "files w2 = files w1" by blast
      show ?thesis
      proof (cases x2)
        case (Inl e)
        with assms nav Inr Some y f1 f2 that(1) show ?thesis
          by (auto simp: capture_body_def)
      next
        case Inr2: (Inr u2)
        with assms nav Inr Some y f1 f2 that(2)[of w1 w2] show ?thesis
          by (auto simp: capture_body_def)
      qed
    qed
  qed
qed

lemma capture_screenshot_None_iff:
  "capture_screenshot self env url w = None \<longleftrightarrow>
     (\<exists>w1. navigate env url w = (Inr (), w1) \<and> scroll_to_bottom env w1 = None)"
  by (auto simp: capture_screenshot_def capture_body_def
      split: option.splits prod.splits sum.splits)

lemma capture_screenshot_Some_iff:
  "capture_screenshot self env url w = Some (Some paths, w') \<longleftrightarrow>
     capture_body self env url w = Some (Inr paths, w')"
  by (auto simp: capture_screenshot_def split: option.splits prod.splits sum.splits)

lemma capture_screenshot_failed:
  assumes "capture_screenshot self env url w = Some (None, w')"
  obtains e w2 where "capture_body self env url w = Some (Inl e, w2)" "files w' = files w2"
  using assms
  by (auto simp: capture_screenshot_def logger_def
      split: option.splits prod.splits sum.splits if_splits)

text \<open>
  C3. When the navigation itself or the wait for the body raises
  \<^verbatim>\<open>TimeoutException\<close>, \<open>capture_screenshot\<close> returns \<open>None\<close>, has written no file,
  and the last thing it did was to log the timeout as an error. The wait that timed
  out is the one bounded by ten seconds.
\<close>

theorem navigation_timeout_no_files:
  assumes "fault env (ncalls w) = Some (Exn TimeoutException m) \<or>
           (fault env (ncalls w) = None \<and>
            fault env (Suc (ncalls w)) = Some (Exn TimeoutException m))"
  shows "\<exists>w'. capture_screenshot self env url w = Some (None, w') \<and>
           files w' = files w \<and>
           trace w' = trace w @
             [Log INFO (''Starting screenshot capture for URL: '' @ url), Driver (Get url)] @
             (if fault env (ncalls w) = None then [Driver (WaitUntil 10 BodyPresent)] else []) @
             [Log ERROR (''Timeout while loading URL: '' @ url)]"
  using assms
  by (auto simp: capture_screenshot_def capture_body_def navigate_def io_defs)

theorem navigation_timeout_no_files_witness:
  "\<exists>w'. capture_screenshot demo_self (faulty_env [(1, Exn TimeoutException ''timed out'')])
           ''http://x'' demo_world = Some (None, w') \<and>
        files w' = [] \<and>
        trace w' =
          [Log INFO ''Starting screenshot capture for URL: http://x'',
           Driver (Get ''http://x''), Driver (WaitUntil 10 BodyPresent),
           Log ERROR ''Timeout while loading URL: http://x'']"
proof -
  let ?env = "faulty_env [(1, Exn TimeoutException ''timed out'')]"
  have n: "fault ?env (ncalls demo_world) = None"
    and t: "fault ?env (Suc (ncalls demo_world)) = Some (Exn TimeoutException ''timed out'')"
    by (simp_all add: faulty_env_def demo_env_def demo_world_def)
  from n t have h: "fault ?env (ncalls demo_world) = Some (Exn TimeoutException ''timed out'') \<or>
           (fault ?env (ncalls demo_world) = None \<and>
            fault ?env (Suc (ncalls demo_world)) = Some (Exn TimeoutException ''timed out''))"
    by simp
  from navigation_timeout_no_files[OF h, of demo_self "''http://x''"] n
  show ?thesis by (auto simp: demo_world_def)
qed

text \<open>
  C8. On a page whose body has scroll height 0 the very first sample equals the
  initial \<^verbatim>\<open>last_height = 0\<close>: \<open>wait_for_content_stable\<close> reports stable after one
  sample and the two-second confirmation, without ever having seen two samples. On a
  page of height 2000 it needs the second, equal sample.
\<close>

theorem wait_for_content_stable_blank_page:
  "wait_for_content_stable blank_env 10 demo_world =
     (Inr True,
      demo_world\<lparr>ncalls := 1, clock := 2000,
        trace := [Log INFO ''Waiting for content to stabilize...'',
                  Driver (ExecuteScript ScrollHeight), Sleep 2000]\<rparr>) \<and>
   wait_for_content_stable demo_env 10 demo_world =
     (Inr True,
      demo_world\<lparr>ncalls := 2, clock := 3000,
        trace := [Log INFO ''Waiting for content to stabilize...'',
                  Driver (ExecuteScript ScrollHeight), Sleep 1000,
                  Driver (ExecuteScript ScrollHeight), Sleep 2000]\<rparr>)"
  by (simp add: wait_for_content_stable_def io_defs stable_loop.simps
      blank_env_def demo_env_def demo_page_def demo_world_def)

section \<open>The extra delay\<close>

lemma measure_save_trace:
  assumes "io_bind (measure_and_resize env)
             (\<lambda>(viewport_width, total_height).
                save_outputs self env url viewport_width total_height) w = (r, w')"
  shows "\<exists>rest. trace w' = trace w @ Driver (ExecuteScript TotalHeight) # rest \<and>
           (\<forall>ms. Sleep ms \<in> set rest \<longrightarrow> ms = 2000) \<and> clock w \<le> clock w'"
  using assms
  by (auto simp: measure_and_resize_def save_outputs_def io_defs split: option.splits if_splits)

lemma str_int_3: "str_int 3 = ''3''"
  by (simp add: str_int_def digit_char_def str_nat.simps)

lemma extra_delay_accepted:
  assumes "case wait_time self of
             None \<Rightarrow> True
           | Some n \<Rightarrow> 0 \<le> n \<and> n \<le> 9223372036 \<and> os_accepts env (n * 1000)"
  shows "\<exists>w6. extra_delay self env content_stable dynamic_content_loaded w5 = (Inr (), w6) \<and>
           trace w6 = trace w5 @
             (case wait_time self of
                Some n \<Rightarrow>
                  [Log INFO (''Waiting additional '' @ str_int n @
                             '' seconds for content to stabilize''),
                   Sleep (n * 1000)]
              | None \<Rightarrow>
                  if content_stable \<and> dynamic_content_loaded then []
                  else [Log INFO ''Waiting additional 3 seconds for content to stabilize'',
                        Sleep 3000]) \<and>
           clock w6 = clock w5 +
             (case wait_time self of
                Some n \<Rightarrow> n * 1000
              | None \<Rightarrow> if content_stable \<and> dynamic_content_loaded then 0 else 3000)"
proof (cases "wait_time self")
  case None
  then show ?thesis
    by (simp add: extra_delay_def io_bind_def io_return_def logger_def time_sleep_def
        sleep_overflows_def os_accepts_def str_int_3)
next
  case (Some n)
  with assms have "0 \<le> n" "n \<le> 9223372036" "os_accepts env (n * 1000)" by simp_all
  with Some show ?thesis
    by (simp add: extra_delay_def io_bind_def io_return_def logger_def time_sleep_def
        sleep_overflows_def)
qed

text \<open>
  C4, as the code has it. Take a capture whose navigation, scroll and three checks
  have returned, the last of them in state \<open>w5\<close>. A supplied \<^verbatim>\<open>wait_time\<close> \<open>n\<close> is one
  that \<^verbatim>\<open>time.sleep\<close> accepts: not negative, at most 9223372036, and not refused by
  the operating system. Then \<open>capture_screenshot\<close> returns, and what it did right
  after the checks is: with \<^verbatim>\<open>wait_time\<close> \<open>n\<close>, the log line and one sleep of exactly
  \<open>n\<close> seconds, whatever the checks reported; with no \<^verbatim>\<open>wait_time\<close>, the log line and
  one sleep of three seconds when one of the two checks reported not-stable, and
  nothing when both reported stable. The measurement of the page follows at once,
  and the only sleep after it is the two-second pause of line 272. The clock has
  advanced by at least the delay.
\<close>

theorem capture_extra_delay:
  assumes "navigate env url w = (Inr (), w1)"
      and "scroll_to_bottom env w1 = Some (Inr (), w2)"
      and "wait_for_content_stable env 10 w2 = (Inr content_stable, w3)"
      and "wait_for_images env w3 = (Inr (), w4)"
      and "wait_for_dynamic_content env w4 = (Inr dynamic_content_loaded, w5)"
      and "case wait_time self of
             None \<Rightarrow> True
           | Some n \<Rightarrow> 0 \<le> n \<and> n \<le> 9223372036 \<and> os_accepts env (n * 1000)"
  shows "\<exists>r w' rest.
           capture_screenshot self env url w = Some (r, w') \<and>
           trace w' = trace w5 @
             (case wait_time self of
                Some n \<Rightarrow>
                  [Log INFO (''Waiting additional '' @ str_int n @
                             '' seconds for content to stabilize''),
                   Sleep (n * 1000)]
              | None \<Rightarrow>
                  if content_stable \<and> dynamic_content_loaded then []
                  else [Log INFO ''Waiting additional 3 seconds for content to stabilize'',
                        Sleep 3000]) @
             Driver (ExecuteScript TotalHeight) # rest \<and>
           (\<forall>ms. Sleep ms \<in> set rest \<longrightarrow> ms = 2000) \<and>
           clock w5 +
             (case wait_time self of
                Some n \<Rightarrow> n * 1000
              | None \<Rightarrow> if content_stable \<and> dynamic_content_loaded then 0 else 3000)
           \<le> clock w'"
proof -
  let ?evs = "case wait_time self of
                Some n \<Rightarrow>
                  [Log INFO (''Waiting additional '' @ str_int n @
                             '' seconds for content to stabilize''),
                   Sleep (n * 1000)]
              | None \<Rightarrow>
                  if content_stable \<and> dynamic_content_loaded then []
                  else [Log INFO ''Waiting additional 3 seconds for content to stabilize'',
                        Sleep 3000]"
  let ?d = "case wait_time self of
                Some n \<Rightarrow> n * 1000
              | None \<Rightarrow> if content_stable \<and> dynamic_content_loaded then 0 else 3000"
  let ?m = "io_bind (measure_and_resize env)
             (\<lambda>(viewport_width, total_height).
                save_outputs self env url viewport_width total_height)"
  from extra_delay_accepted[OF assms(6), of content_stable dynamic_content_loaded w5]
  obtain w6 where x: "extra_delay self env content_stable dynamic_content_loaded w5 = (Inr (), w6)"
    and t6: "trace w6 = trace w5 @ ?evs" and c6: "clock w6 = clock w5 + ?d"
    by blast
  obtain r0 w7 where m: "?m w6 = (r0, w7)" by (cases "?m w6")
  from measure_save_trace[OF m] obtain rest where
    t7: "trace w7 = trace w6 @ Driver (ExecuteScript TotalHeight) # rest"
    and s7: "\<forall>ms. Sleep ms \<in> set rest \<longrightarrow> ms = 2000" and c7: "clock w6 \<le> clock w7"
    by blast
  have body: "capture_body self env url w = Some (r0, w7)"
    using assms(1-5) x m by (simp add: capture_body_def after_scroll_def io_bind_def)
  show ?thesis
  proof (cases r0)
    case (Inr paths)
    with body have "capture_screenshot self env url w = Some (Some paths, w7)"
      by (simp add: capture_screenshot_def)
    with t6 t7 s7 c6 c7 show ?thesis by auto
  next
    case (Inl e)
    let ?msg = "if exn_class_of e = TimeoutException then ''Timeout while loading URL: '' @ url
                else ''Error capturing screenshot: '' @ str_exn e"
    from Inl body have c: "capture_screenshot self env url w =
        Some (None, w7\<lparr>trace := trace w7 @ [Log ERROR ?msg]\<rparr>)"
      by (simp add: capture_screenshot_def logger_def)
    have "trace (w7\<lparr>trace := trace w7 @ [Log ERROR ?msg]\<rparr>) =
            trace w5 @ ?evs @ Driver (ExecuteScript TotalHeight) # (rest @ [Log ERROR ?msg])"
      using t6 t7 by simp
    moreover have "\<forall>ms. Sleep ms \<in> set (rest @ [Log ERROR ?msg]) \<longrightarrow> ms = 2000"
      using s7 by simp
    moreover have "clock w5 + ?d \<le> clock (w7\<lparr>trace := trace w7 @ [Log ERROR ?msg]\<rparr>)"
      using c6 c7 by simp
    ultimately show ?thesis using c by blast
  qed
qed

lemma demo_phases:
  "\<exists>w1 w2 w3 w4 w5.
     navigate demo_env ''http://x'' demo_world = (Inr (), w1) \<and>
     scroll_to_bottom demo_env w1 = Some (Inr (), w2) \<and>
     wait_for_content_stable demo_env 10 w2 = (Inr True, w3) \<and>
     wait_for_images demo_env w3 = (Inr (), w4) \<and>
     wait_for_dynamic_content demo_env w4 = (Inr True, w5) \<and>
     ncalls w5 = 20 \<and> clock w5 = 9500 \<and>
     last (trace w5) = Log INFO ''No DOM changes detected, content appears stable''"
  apply (simp add: phase_defs io_defs demo_defs upt_1_10)
  apply (subst scroll_loop.simps)
  apply (simp add: phase_defs io_defs demo_defs upt_1_10 stable_loop.simps)
  done

lemma busy_phases:
  "\<exists>w1 w2 w3 w4 w5.
     navigate busy_env ''http://x'' demo_world = (Inr (), w1) \<and>
     scroll_to_bottom busy_env w1 = Some (Inr (), w2) \<and>
     wait_for_content_stable busy_env 10 w2 = (Inr True, w3) \<and>
     wait_for_images busy_env w3 = (Inr (), w4) \<and>
     wait_for_dynamic_content busy_env w4 = (Inr False, w5) \<and>
     ncalls w5 = 20 \<and> clock w5 = 9500 \<and>
     last (trace w5) = Driver (ExecuteScript ObserveMutations)"
  apply (simp add: phase_defs io_defs demo_defs upt_1_10)
  apply (subst scroll_loop.simps)
  apply (simp add: phase_defs io_defs demo_defs upt_1_10 stable_loop.simps)
  done

theorem capture_extra_delay_witness:
  "(\<exists>pre rest r w'.
      capture_screenshot \<lparr>output_dir = ''out'', wait_time = Some 7\<rparr> demo_env ''http://x''
        demo_world = Some (r, w') \<and>
      trace w' = pre @
        [Log INFO ''Waiting additional 7 seconds for content to stabilize'', Sleep 7000,
         Driver (ExecuteScript TotalHeight)] @ rest \<and>
      last pre = Log INFO ''No DOM changes detected, content appears stable'' \<and>
      16500 \<le> clock w') \<and>
   (\<exists>pre rest r w'.
      capture_screenshot demo_self demo_env ''http://x'' demo_world = Some (r, w') \<and>
      trace w' = pre @ [Driver (ExecuteScript TotalHeight)] @ rest \<and>
      last pre = Log INFO ''No DOM changes detected, content appears stable'') \<and>
   (\<exists>pre rest r w'.
      capture_screenshot demo_self busy_env ''http://x'' demo_world = Some (r, w') \<and>
      trace w' = pre @
        [Log INFO ''Waiting additional 3 seconds for content to stabilize'', Sleep 3000,
         Driver (ExecuteScript TotalHeight)] @ rest \<and>
      last pre = Driver (ExecuteScript ObserveMutations) \<and>
      12500 \<le> clock w')"
proof (intro conjI)
  let ?self = "\<lparr>output_dir = ''out'', wait_time = Some 7\<rparr>"
  have s: "str_int 7 = ''7''" by (simp add: str_int_def digit_char_def str_nat.simps)
  from demo_phases obtain w1 w2 w3 w4 w5 where
    p: "navigate demo_env ''http://x'' demo_world = (Inr (), w1)"
       "scroll_to_bottom demo_env w1 = Some (Inr (), w2)"
       "wait_for_content_stable demo_env 10 w2 = (Inr True, w3)"
       "wait_for_images demo_env w3 = (Inr (), w4)"
       "wait_for_dynamic_content demo_env w4 = (Inr True, w5)"
    and c5: "clock w5 = 9500"
    and l5: "last (trace w5) = Log INFO ''No DOM changes detected, content appears stable''"
    by blast
  have a: "case wait_time ?self of None \<Rightarrow> True
           | Some n \<Rightarrow> 0 \<le> n \<and> n \<le> 9223372036 \<and> os_accepts demo_env (n * 1000)"
    by (simp add: os_accepts_def demo_env_def)
  from capture_extra_delay[OF p a] obtain r w' rest where
    "capture_screenshot ?self demo_env ''http://x'' demo_world = Some (r, w')"
    "trace w' = trace w5 @
        [Log INFO ''Waiting additional 7 seconds for content to stabilize'', Sleep 7000,
         Driver (ExecuteScript TotalHeight)] @ rest"
    "16500 \<le> clock w'"
    by (auto simp: s c5)
  with l5 show "\<exists>pre rest r w'.
      capture_screenshot ?self demo_env ''http://x'' demo_world = Some (r, w') \<and>
      trace w' = pre @
        [Log INFO ''Waiting additional 7 seconds for content to stabilize'', Sleep 7000,
         Driver (ExecuteScript TotalHeight)] @ rest \<and>
      last pre = Log INFO ''No DOM changes detected, content appears stable'' \<and>
      16500 \<le> clock w'"
    by blast
  have b: "case wait_time demo_self of None \<Rightarrow> True
           | Some n \<Rightarrow> 0 \<le> n \<and> n \<le> 9223372036 \<and> os_accepts demo_env (n * 1000)"
    by (simp add: demo_self_def)
  from capture_extra_delay[OF p b] obtain r w' rest where
    "capture_screenshot demo_self demo_env ''http://x'' demo_world = Some (r, w')"
    "trace w' = trace w5 @ [Driver (ExecuteScript TotalHeight)] @ rest"
    by (auto simp: demo_self_def)
  with l5 show "\<exists>pre rest r w'.
      capture_screenshot demo_self demo_env ''http://x'' demo_world = Some (r, w') \<and>
      trace w' = pre @ [Driver (ExecuteScript TotalHeight)] @ rest \<and>
      last pre = Log INFO ''No DOM changes detected, content appears stable''"
    by blast
  from busy_phases obtain v1 v2 v3 v4 v5 where
    q: "navigate busy_env ''http://x'' demo_world = (Inr (), v1)"
       "scroll_to_bottom busy_env v1 = Some (Inr (), v2)"
       "wait_for_content_stable busy_env 10 v2 = (Inr True, v3)"
       "wait_for_images busy_env v3 = (Inr (), v4)"
       "wait_for_dynamic_content busy_env v4 = (Inr False, v5)"
    and d5: "clock v5 = 9500"
    and m5: "last (trace v5) = Driver (ExecuteScript ObserveMutations)"
    by blast
  have c: "case wait_time demo_self of None \<Rightarrow> True
           | Some n \<Rightarrow> 0 \<le> n \<and> n \<le> 9223372036 \<and> os_accepts busy_env (n * 1000)"
    by (simp add: demo_self_def)
  from capture_extra_delay[OF q c] obtain r w' rest where
    "capture_screenshot demo_self busy_env ''http://x'' demo_world = Some (r, w')"
    "trace w' = trace v5 @
        [Log INFO ''Waiting additional 3 seconds for content to stabilize'', Sleep 3000,
         Driver (ExecuteScript TotalHeight)] @ rest"
    "12500 \<le> clock w'"
    by (auto simp: demo_self_def d5)
  with m5 show "\<exists>pre rest r w'.
      capture_screenshot demo_self busy_env ''http://x'' demo_world = Some (r, w') \<and>
      trace w' = pre @
        [Log INFO ''Waiting additional 3 seconds for content to stabilize'', Sleep 3000,
         Driver (ExecuteScript TotalHeight)] @ rest \<and>
      last pre = Driver (ExecuteScript ObserveMutations) \<and>
      12500 \<le> clock w'"
    by blast
qed

text \<open>
  C4 as stated fails: a supplied \<^verbatim>\<open>wait_time\<close> of 9223372037 is not slept. The
  conversion of \<^verbatim>\<open>time.sleep\<close> overflows, the capture logs the error and returns
  \<open>None\<close> with the clock where the checks left it.
\<close>

theorem oversized_wait_time_counterexample:
  "map_option fst
     (capture_screenshot \<lparr>output_dir = ''out'', wait_time = Some 9223372037\<rparr> demo_env
        ''http://x'' demo_world) = Some None \<and>
   map_option (clock \<circ> snd)
     (capture_screenshot \<lparr>output_dir = ''out'', wait_time = Some 9223372037\<rparr> demo_env
        ''http://x'' demo_world) = Some 9500 \<and>
   map_option (rev \<circ> take 3 \<circ> rev \<circ> trace \<circ> snd)
     (capture_screenshot \<lparr>output_dir = ''out'', wait_time = Some 9223372037\<rparr> demo_env
        ''http://x'' demo_world) =
     Some [Log INFO ''No DOM changes detected, content appears stable'',
           Log INFO ''Waiting additional 9223372037 seconds for content to stabilize'',
           Log ERROR ''Error capturing screenshot: timestamp too large to convert to C _PyTime_t'']"
proof -
  have "\<exists>w'. capture_screenshot \<lparr>output_dir = ''out'', wait_time = Some 9223372037\<rparr> demo_env
               ''http://x'' demo_world = Some (None, w') \<and>
             clock w' = 9500 \<and>
             rev (take 3 (rev (trace w'))) =
               [Log INFO ''No DOM changes detected, content appears stable'',
                Log INFO ''Waiting additional 9223372037 seconds for content to stabilize'',
                Log ERROR
                  ''Error capturing screenshot: timestamp too large to convert to C _PyTime_t'']"
    apply (simp add: phase_defs io_defs demo_defs upt_1_10)
    apply (subst scroll_loop.simps)
    apply (simp add: phase_defs io_defs demo_defs upt_1_10 stable_loop.simps
        str_int_def digit_char_def str_nat.simps)
    done
  then show ?thesis by auto
qed

section \<open>A negative wait time\<close>

lemma extra_delay_negative:
  assumes "wait_time self = Some n" "n < 0"
  shows "extra_delay self env cs dl w =
           (Inl (if n < - 9223372036
                 then Exn OverflowError ''timestamp too large to convert to C _PyTime_t''
                 else Exn ValueError ''sleep length must be non-negative''),
            w\<lparr>trace := trace w @
                 [Log INFO (''Waiting additional '' @ str_int n @
                            '' seconds for content to stabilize'')]\<rparr>)"
  using assms by (simp add: extra_delay_def io_defs)

lemma capture_negative_wait_time:
  assumes wt: "wait_time self = Some n" "n < 0"
      and run: "capture_screenshot self env url w = Some (r, w')"
  shows "r = None \<and> files w' = files w"
proof (cases r)
  case (Some paths)
  with run have "capture_body self env url w = Some (Inr paths, w')"
    by (simp add: capture_screenshot_Some_iff)
  then show ?thesis
  proof (cases rule: capture_body_cases)
    case (scrolled w1 w2)
    from scrolled(4) show ?thesis
    proof (cases rule: after_scroll_cases)
      case (saving cs dl w5 w6 w7 vw th)
      with extra_delay_negative[OF wt] show ?thesis by simp
    qed simp
  qed simp
next
  case None
  with run obtain e w2 where b: "capture_body self env url w = Some (Inl e, w2)"
    and f: "files w' = files w2"
    by (auto elim: capture_screenshot_failed)
  from b have "files w2 = files w"
  proof (cases rule: capture_body_cases)
    case (scrolled w1 w3)
    from scrolled(4) show ?thesis
    proof (cases rule: after_scroll_cases)
      case (saving cs dl w5 w6 w7 vw th)
      with extra_delay_negative[OF wt] show ?thesis by simp
    qed (simp add: scrolled)
  qed simp
  with f None show ?thesis by simp
qed

lemma capture_reaches_negative_delay:
  assumes wt: "wait_time self = Some n" "n < 0"
      and "navigate env url w = (Inr (), w1)"
      and "scroll_to_bottom env w1 = Some (Inr (), w2)"
      and "wait_for_content_stable env 10 w2 = (Inr content_stable, w3)"
      and "wait_for_images env w3 = (Inr (), w4)"
      and "wait_for_dynamic_content env w4 = (Inr dynamic_content_loaded, w5)"
  shows "capture_screenshot self env url w =
           Some (None,
             w5\<lparr>trace := trace w5 @
               [Log INFO (''Waiting additional '' @ str_int n @
                          '' seconds for content to stabilize''),
                Log ERROR (''Error capturing screenshot: '' @
                  (if n < - 9223372036 then ''timestamp too large to convert to C _PyTime_t''
                   else ''sleep length must be non-negative''))]\<rparr>)"
  using assms(3-7) extra_delay_negative[OF wt, of env content_stable dynamic_content_loaded w5]
  by (simp add: capture_screenshot_def capture_body_def after_scroll_def io_bind_def logger_def)

lemma close_frame:
  "files (snd (close env w)) = files w" "stdout (snd (close env w)) = stdout w"
  by (simp_all add: close_def io_defs split: option.splits)

text \<open>
  C10, as the code has it. The command line hands any integer \<^verbatim>\<open>--wait-time\<close> to the
  controller unchecked. With a negative one the extra-delay step is taken whatever
  the checks reported, and its sleep raises: \<^verbatim>\<open>ValueError\<close> down to -9223372036,
  \<^verbatim>\<open>OverflowError\<close> below. When the navigation, the scroll and the checks before
  the delay have returned, the generic handler logs that exception and the capture
  returns \<open>None\<close>. Every capture that returns at all returns \<open>None\<close> and has written
  no file, and \<open>main\<close> then prints the failure line. The capture fails to return
  exactly when the scroll loop before the delay never ends.
\<close>

theorem negative_wait_time_fails:
  assumes "arg_wait_time a = Some n" and "n < 0"
  shows "extra_delay \<lparr>output_dir = arg_output_dir a, wait_time = arg_wait_time a\<rparr> env
           content_stable dynamic_content_loaded w5 =
           (Inl (if n < - 9223372036
                 then Exn OverflowError ''timestamp too large to convert to C _PyTime_t''
                 else Exn ValueError ''sleep length must be non-negative''),
            w5\<lparr>trace := trace w5 @
                 [Log INFO (''Waiting additional '' @ str_int n @
                            '' seconds for content to stabilize'')]\<rparr>) \<and>
         (navigate env (arg_url a) w = (Inr (), w1) \<and>
          scroll_to_bottom env w1 = Some (Inr (), w2) \<and>
          wait_for_content_stable env 10 w2 = (Inr content_stable, w3) \<and>
          wait_for_images env w3 = (Inr (), w4) \<and>
          wait_for_dynamic_content env w4 = (Inr dynamic_content_loaded, w5) \<longrightarrow>
          capture_screenshot \<lparr>output_dir = arg_output_dir a, wait_time = arg_wait_time a\<rparr>
            env (arg_url a) w =
            Some (None,
              w5\<lparr>trace := trace w5 @
                [Log INFO (''Waiting additional '' @ str_int n @
                           '' seconds for content to stabilize''),
                 Log ERROR (''Error capturing screenshot: '' @
                   (if n < - 9223372036 then ''timestamp too large to convert to C _PyTime_t''
                    else ''sleep length must be non-negative''))]\<rparr>) \<and>
          files w5 = files w) \<and>
         (capture_screenshot \<lparr>output_dir = arg_output_dir a, wait_time = arg_wait_time a\<rparr>
            env (arg_url a) w = None \<or>
          (\<exists>w'. capture_screenshot \<lparr>output_dir = arg_output_dir a, wait_time = arg_wait_time a\<rparr>
                   env (arg_url a) w = Some (None, w') \<and> files w' = files w)) \<and>
         (capture_screenshot \<lparr>output_dir = arg_output_dir a, wait_time = arg_wait_time a\<rparr>
            env (arg_url a) w = None \<longleftrightarrow>
          (\<exists>w1. navigate env (arg_url a) w = (Inr (), w1) \<and> scroll_to_bottom env w1 = None)) \<and>
         (main a env w = None \<or>
          (\<exists>r w'. main a env w = Some (r, w') \<and> files w' = files w \<and>
                   last (stdout w') = ''Failed to capture screenshot''))"
proof (intro conjI)
  let ?self = "\<lparr>output_dir = arg_output_dir a, wait_time = arg_wait_time a\<rparr>"
  have wt: "wait_time ?self = Some n" using assms by simp
  show "extra_delay ?self env content_stable dynamic_content_loaded w5 =
           (Inl (if n < - 9223372036
                 then Exn OverflowError ''timestamp too large to convert to C _PyTime_t''
                 else Exn ValueError ''sleep length must be non-negative''),
            w5\<lparr>trace := trace w5 @
                 [Log INFO (''Waiting additional '' @ str_int n @
                            '' seconds for content to stabilize'')]\<rparr>)"
    by (rule extra_delay_negative[OF wt assms(2)])
  show "navigate env (arg_url a) w = (Inr (), w1) \<and>
          scroll_to_bottom env w1 = Some (Inr (), w2) \<and>
          wait_for_content_stable env 10 w2 = (Inr content_stable, w3) \<and>
          wait_for_images env w3 = (Inr (), w4) \<and>
          wait_for_dynamic_content env w4 = (Inr dynamic_content_loaded, w5) \<longrightarrow>
          capture_screenshot ?self env (arg_url a) w =
            Some (None,
              w5\<lparr>trace := trace w5 @
                [Log INFO (''Waiting additional '' @ str_int n @
                           '' seconds for content to stabilize''),
                 Log ERROR (''Error capturing screenshot: '' @
                   (if n < - 9223372036 then ''timestamp too large to convert to C _PyTime_t''
                    else ''sleep length must be non-negative''))]\<rparr>) \<and>
          files w5 = files w"
  proof (intro impI, elim conjE)
    assume p: "navigate env (arg_url a) w = (Inr (), w1)"
      "scroll_to_bottom env w1 = Some (Inr (), w2)"
      "wait_for_content_stable env 10 w2 = (Inr content_stable, w3)"
      "wait_for_images env w3 = (Inr (), w4)"
      "wait_for_dynamic_content env w4 = (Inr dynamic_content_loaded, w5)"
    note c = capture_reaches_negative_delay[OF wt assms(2) p]
    from capture_negative_wait_time[OF wt assms(2) c] have "files w5 = files w" by simp
    with c show "capture_screenshot ?self env (arg_url a) w =
            Some (None,
              w5\<lparr>trace := trace w5 @
                [Log INFO (''Waiting additional '' @ str_int n @
                           '' seconds for content to stabilize''),
                 Log ERROR (''Error capturing screenshot: '' @
                   (if n < - 9223372036 then ''timestamp too large to convert to C _PyTime_t''
                    else ''sleep length must be non-negative''))]\<rparr>) \<and>
          files w5 = files w"
      by simp
  qed
  show "capture_screenshot ?self env (arg_url a) w = None \<or>
         (\<exists>w'. capture_screenshot ?self env (arg_url a) w = Some (None, w') \<and> files w' = files w)"
  proof (cases "capture_screenshot ?self env (arg_url a) w")
    case (Some y)
    obtain r w' where y: "y = (r, w')" by (cases y)
    from capture_negative_wait_time[OF wt assms(2)] Some y show ?thesis by simp
  qed simp
  show "capture_screenshot ?self env (arg_url a) w = None \<longleftrightarrow>
         (\<exists>w1. navigate env (arg_url a) w = (Inr (), w1) \<and> scroll_to_bottom env w1 = None)"
    by (rule capture_screenshot_None_iff)
  show "main a env w = None \<or>
         (\<exists>r w'. main a env w = Some (r, w') \<and> files w' = files w \<and>
                  last (stdout w') = ''Failed to capture screenshot'')"
  proof (cases "capture_screenshot ?self env (arg_url a) (setup_driver w)")
    case None
    then show ?thesis by (simp add: main_def)
  next
    case (Some y)
    obtain r w' where y: "y = (r, w')" by (cases y)
    from capture_negative_wait_time[OF wt assms(2)] Some y
    have r: "r = None" "files w' = files w" by (simp_all add: setup_driver_def)
    obtain x w2 where c: "close env (print_line ''Failed to capture screenshot'' w') = (x, w2)"
      by (cases "close env (print_line ''Failed to capture screenshot'' w')")
    from c close_frame[of env "print_line ''Failed to capture screenshot'' w'"]
    have "files w2 = files w'" "stdout w2 = stdout w' @ [''Failed to capture screenshot'']"
      by (simp_all add: print_line_def)
    then show ?thesis using Some y r c by (simp add: main_def)
  qed
qed

lemma demo_scroll_returns: "scroll_to_bottom demo_env w \<noteq> None"
proof -
  have "\<forall>k\<ge>ncalls w. fault demo_env k = None" by (simp add: demo_env_def)
  from scroll_to_bottom_returns[OF this, of 0] show ?thesis
    by (auto simp: height_at_def demo_env_def)
qed

lemma growing_never_returns: "capture_screenshot self growing_env url w = None"
proof -
  obtain w1 where nav: "navigate growing_env url w = (Inr (), w1)"
    by (simp add: navigate_def io_defs growing_env_def demo_env_def)
  have nf: "\<forall>k\<ge>ncalls w1. fault growing_env k = None"
    by (simp add: growing_env_def demo_env_def)
  have gr: "\<forall>p. height_at growing_env (ncalls w1) (Suc p) \<noteq> height_at growing_env (ncalls w1) p"
    by (simp add: height_at_def growing_env_def demo_env_def)
  from scroll_to_bottom_never_returns[OF nf gr] nav show ?thesis
    by (simp add: capture_screenshot_None_iff)
qed

theorem negative_wait_time_fails_witness:
  "extra_delay \<lparr>output_dir = ''out'', wait_time = Some (- 1)\<rparr> demo_env True True demo_world =
     (Inl (Exn ValueError ''sleep length must be non-negative''),
      demo_world\<lparr>trace :=
        [Log INFO ''Waiting additional -1 seconds for content to stabilize'']\<rparr>) \<and>
   extra_delay \<lparr>output_dir = ''out'', wait_time = Some (- 9223372037)\<rparr> demo_env True True
     demo_world =
     (Inl (Exn OverflowError ''timestamp too large to convert to C _PyTime_t''),
      demo_world\<lparr>trace :=
        [Log INFO ''Waiting additional -9223372037 seconds for content to stabilize'']\<rparr>) \<and>
   (\<exists>w5. capture_screenshot \<lparr>output_dir = ''out'', wait_time = Some (- 1)\<rparr>
            demo_env ''http://x'' demo_world =
            Some (None,
              w5\<lparr>trace := trace w5 @
                [Log INFO ''Waiting additional -1 seconds for content to stabilize'',
                 Log ERROR ''Error capturing screenshot: sleep length must be non-negative'']\<rparr>) \<and>
          files w5 = [] \<and> ncalls w5 = 20) \<and>
   (\<exists>r w'. main demo_args demo_env demo_world = Some (r, w') \<and> files w' = [] \<and>
            last (stdout w') = ''Failed to capture screenshot'')"
proof -
  have a: "arg_wait_time demo_args = Some (- 1)" and n: "(- 1 :: int) < 0"
    by (simp_all add: demo_args_def)
  have c: "capture_screenshot \<lparr>output_dir = ''out'', wait_time = Some (- 1)\<rparr>
            demo_env ''http://x'' w \<noteq> None" for w
    by (simp add: capture_screenshot_None_iff demo_scroll_returns)
  have m: "main demo_args demo_env demo_world \<noteq> None"
    using c[of "setup_driver demo_world"]
    by (simp add: main_def demo_args_def split: option.splits)
  have args: "arg_output_dir demo_args = ''out''" "arg_wait_time demo_args = Some (- 1)"
    "arg_url demo_args = ''http://x''"
    by (simp_all add: demo_args_def)
  from demo_phases obtain w1 w2 w3 w4 w5 where
    p: "navigate demo_env ''http://x'' demo_world = (Inr (), w1) \<and>
        scroll_to_bottom demo_env w1 = Some (Inr (), w2) \<and>
        wait_for_content_stable demo_env 10 w2 = (Inr True, w3) \<and>
        wait_for_images demo_env w3 = (Inr (), w4) \<and>
        wait_for_dynamic_content demo_env w4 = (Inr True, w5)"
    and n5: "ncalls w5 = 20"
    by blast
  have f: "files demo_world = []" "trace demo_world = []" by (simp_all add: demo_world_def)
  have s: "str_int (- 1) = ''-1''" by (simp add: str_int_def digit_char_def)
  note u = negative_wait_time_fails[OF a n, where env = demo_env and w = demo_world,
      unfolded args]
  have e: "extra_delay \<lparr>output_dir = ''out'', wait_time = Some (- 1)\<rparr> demo_env True True
             demo_world =
     (Inl (Exn ValueError ''sleep length must be non-negative''),
      demo_world\<lparr>trace :=
        [Log INFO ''Waiting additional -1 seconds for content to stabilize'']\<rparr>)"
    using u[where content_stable = True and dynamic_content_loaded = True
        and ?w5.0 = demo_world, THEN conjunct1]
    by (simp add: f s)
  have k: "capture_screenshot \<lparr>output_dir = ''out'', wait_time = Some (- 1)\<rparr>
            demo_env ''http://x'' demo_world =
            Some (None,
              w5\<lparr>trace := trace w5 @
                [Log INFO ''Waiting additional -1 seconds for content to stabilize'',
                 Log ERROR ''Error capturing screenshot: sleep length must be non-negative'']\<rparr>)
           \<and> files w5 = []"
    using u[where content_stable = True and dynamic_content_loaded = True
        and ?w5.0 = w5 and ?w1.0 = w1 and ?w2.0 = w2 and ?w3.0 = w3 and ?w4.0 = w4,
        THEN conjunct2, THEN conjunct1] p
    by (simp add: f s)
  have j: "\<exists>r w'. main demo_args demo_env demo_world = Some (r, w') \<and> files w' = [] \<and>
            last (stdout w') = ''Failed to capture screenshot''"
    using u[where content_stable = True and dynamic_content_loaded = True
        and ?w5.0 = w5 and ?w1.0 = w1 and ?w2.0 = w2 and ?w3.0 = w3 and ?w4.0 = w4,
        THEN conjunct2, THEN conjunct2, THEN conjunct2, THEN conjunct2] m
    by (simp add: f)
  have b: "arg_wait_time (demo_args\<lparr>arg_wait_time := Some (- 9223372037)\<rparr>) =
             Some (- 9223372037)" and l: "(- 9223372037 :: int) < 0"
    by simp_all
  have s2: "str_int (- 9223372037) = ''-9223372037''"
    by (simp add: str_int_def digit_char_def str_nat.simps)
  have o: "extra_delay \<lparr>output_dir = ''out'', wait_time = Some (- 9223372037)\<rparr> demo_env True
             True demo_world =
     (Inl (Exn OverflowError ''timestamp too large to convert to C _PyTime_t''),
      demo_world\<lparr>trace :=
        [Log INFO ''Waiting additional -9223372037 seconds for content to stabilize'']\<rparr>)"
    using negative_wait_time_fails[OF b l, where env = demo_env
        and content_stable = True and dynamic_content_loaded = True
        and ?w5.0 = demo_world, THEN conjunct1]
    by (simp add: f s2 demo_args_def)
  from e o k n5 j show ?thesis by blast
qed

text \<open>
  C10 as stated fails twice over. Below -9223372036 the sleep raises
  \<^verbatim>\<open>OverflowError\<close>, not \<^verbatim>\<open>ValueError\<close>, and that is what the handler logs. And on
  a page that grows at every pass the capture with \<^verbatim>\<open>--wait-time -1\<close> does not return
  \<open>None\<close>: it never returns, and never reaches the delay.
\<close>

theorem negative_wait_time_counterexample:
  "fst (extra_delay \<lparr>output_dir = ''out'', wait_time = Some (- 9223372037)\<rparr> demo_env True True
          demo_world) =
     Inl (Exn OverflowError ''timestamp too large to convert to C _PyTime_t'') \<and>
   map_option (last \<circ> trace \<circ> snd)
     (capture_screenshot \<lparr>output_dir = ''out'', wait_time = Some (- 9223372037)\<rparr> demo_env
        ''http://x'' demo_world) =
     Some (Log ERROR
             ''Error capturing screenshot: timestamp too large to convert to C _PyTime_t'') \<and>
   capture_screenshot \<lparr>output_dir = ''out'', wait_time = Some (- 1)\<rparr> growing_env ''http://x''
     demo_world = None \<and>
   main demo_args growing_env demo_world = None"
proof -
  have a: "fst (extra_delay \<lparr>output_dir = ''out'', wait_time = Some (- 9223372037)\<rparr> demo_env
                  True True demo_world) =
     Inl (Exn OverflowError ''timestamp too large to convert to C _PyTime_t'')"
    by (simp add: extra_delay_def io_defs)
  have "\<exists>w'. capture_screenshot \<lparr>output_dir = ''out'', wait_time = Some (- 9223372037)\<rparr>
               demo_env ''http://x'' demo_world = Some (None, w') \<and>
             last (trace w') = Log ERROR
               ''Error capturing screenshot: timestamp too large to convert to C _PyTime_t''"
    apply (simp add: phase_defs io_defs demo_defs upt_1_10)
    apply (subst scroll_loop.simps)
    apply (simp add: phase_defs io_defs demo_defs upt_1_10 stable_loop.simps)
    done
  then have b: "map_option (last \<circ> trace \<circ> snd)
     (capture_screenshot \<lparr>output_dir = ''out'', wait_time = Some (- 9223372037)\<rparr> demo_env
        ''http://x'' demo_world) =
     Some (Log ERROR
             ''Error capturing screenshot: timestamp too large to convert to C _PyTime_t'')"
    by auto
  have c: "capture_screenshot \<lparr>output_dir = ''out'', wait_time = Some (- 1)\<rparr> growing_env
             ''http://x'' w = None" for w
    by (rule growing_never_returns)
  then have "main demo_args growing_env demo_world = None"
    by (simp add: main_def demo_args_def)
  with a b c show ?thesis by blast
qed

section \<open>The two files\<close>

lemma save_outputs_cases:
  assumes "save_outputs self env url vw th w = (r, w')"
  defines "ts \<equiv> strftime env (clock w)"
  defines "png \<equiv> path_join (output_dir self) (''snapshot_'' @ ts @ ''.png'')"
  defines "jsn \<equiv> path_join (output_dir self) (''snapshot_'' @ ts @ ''.json'')"
  defines "pngs \<equiv> (if screenshot_saved env png
                     then [(png, Screenshot (fst (window_size w)) (snd (window_size w)))]
                     else [])"
  defines "body \<equiv> json_dumps (json_data url ts vw th
                   (page_title (page_at env (Suc (ncalls w))))
                   (page_url (page_at env (Suc (Suc (ncalls w)))))
                   (navigator_userAgent (page_at env (Suc (Suc (Suc (ncalls w)))))))"
  obtains (nothing) e where "r = Inl e" "files w' = files w"
        | (before_open) e where "r = Inl e" "files w' = files w @ pngs"
        | (cut_short) e n where "r = Inl e" "dump_error env jsn = Some (e, n)"
            "files w' = files w @ pngs @ [(jsn, Text (take n body))]"
        | (both) "r = Inr (png, jsn)" "files w' = files w @ pngs @ [(jsn, Text body)]"
            "ncalls w' = ncalls w + 4" "window_size w' = window_size w"
  using assms(1)
  unfolding ts_def png_def jsn_def pngs_def body_def save_outputs_def io_defs
  by (auto split: option.splits if_splits)

lemma measure_and_resize_Inr:
  assumes "measure_and_resize env w = (Inr (vw, th), w')"
  shows "th = js_total_height (page_at env (ncalls w))"
    and "vw = js_viewport_width (page_at env (Suc (ncalls w)))"
    and "ncalls w' = ncalls w + 3"
    and "window_size w' = (vw + 100, th + 100)"
    and "trace w' = trace w @
           [Driver (ExecuteScript TotalHeight), Driver (ExecuteScript ViewportWidth),
            Driver (SetWindowSize (vw + 100) (th + 100)), Sleep 2000]"
  using assms
  by (auto simp: measure_and_resize_def io_defs split: option.splits)



lemma run_ok:
  "\<exists>w'. capture_screenshot demo_self demo_env ''http://x'' demo_world =
     Some (Some (''out/snapshot_20240101_000000.png'', ''out/snapshot_20240101_000000.json''),
           w') \<and>
     ncalls w' = 27 \<and> window_size w' = (2020, 2116) \<and>
     files w' = [(''out/snapshot_20240101_000000.png'', Screenshot 2020 2116),
                 (''out/snapshot_20240101_000000.json'',
                  Text (json_dumps (json_data ''http://x'' ''20240101_000000'' 1920 2016
                                ''T'' ''http://x/'' ''UA'')))]"
  apply (simp add: phase_defs io_defs demo_defs upt_1_10)
  apply (subst scroll_loop.simps)
  apply (simp add: phase_defs io_defs demo_defs upt_1_10 stable_loop.simps)
  done

lemma run_unsaved:
  "\<exists>w'. capture_screenshot demo_self unsaved_env ''http://x'' demo_world =
     Some (Some (''out/snapshot_20240101_000000.png'', ''out/snapshot_20240101_000000.json''),
           w') \<and>
     files w' = [(''out/snapshot_20240101_000000.json'',
                  Text (json_dumps (json_data ''http://x'' ''20240101_000000'' 1920 2016
                                ''T'' ''http://x/'' ''UA'')))]"
  apply (simp add: phase_defs io_defs demo_defs upt_1_10)
  apply (subst scroll_loop.simps)
  apply (simp add: phase_defs io_defs demo_defs upt_1_10 stable_loop.simps)
  done





section \<open>Exceptions inside the phases\<close>

lemma lets_throughD: "lets_through env m \<Longrightarrow> m w = (r, w') \<Longrightarrow> raises_last env w r w'"
  by (simp add: lets_through_def)

lemma raises_last_seq:
  assumes "raises_last env w (Inr v) w1" "raises_last env w1 r w'"
  shows "raises_last env w r w'"
  using assms unfolding raises_last_def
  by (metis Inl_Inr_False le_trans not_le_imp_less order.strict_implies_order)

lemma raises_last_Inr:
  assumes "raises_last env w (Inr v) w1" "ncalls w \<le> k" "fault env k = Some e"
  shows "ncalls w1 \<le> k"
proof (rule ccontr)
  assume "\<not> ncalls w1 \<le> k"
  then have "k < ncalls w1" by simp
  with assms show False unfolding raises_last_def by auto
qed

lemma raises_last_Inl: "raises_last env w (Inl e) w' \<Longrightarrow> raises_last env w (Inl e) w'"
  by (simp add: raises_last_def)

lemma raises_last_Inr_any: "raises_last env w (Inr v) w' \<Longrightarrow> raises_last env w (Inr u) w'"
  by (simp add: raises_last_def)

lemma lets_through_bind [intro!]:
  assumes "lets_through env m" "\<And>v. lets_through env (f v)"
  shows "lets_through env (io_bind m f)"
  unfolding lets_through_def
proof (intro allI impI)
  fix w r w'
  assume b: "io_bind m f w = (r, w')"
  then show "raises_last env w r w'"
  proof (cases rule: io_bind_cases)
    case (raised e)
    from lets_throughD[OF assms(1) raised(1)] raised(2) show ?thesis
      by (simp add: raises_last_Inl)
  next
    case (passed u w1)
    from lets_throughD[OF assms(1) passed(1)] lets_throughD[OF assms(2) passed(2)]
    show ?thesis by (rule raises_last_seq)
  qed
qed

lemma lets_through_return [intro!]: "lets_through env (io_return v)"
  by (simp add: lets_through_def raises_last_def io_return_def)

lemma lets_through_logger [intro!]: "lets_through env (logger l m)"
  by (auto simp: lets_through_def raises_last_def logger_def)

lemma lets_through_sleep [intro!]: "lets_through env (time_sleep env ms)"
  by (auto simp: lets_through_def raises_last_def time_sleep_def)

lemma call_index: "ncalls w \<le> k \<Longrightarrow> k < Suc (ncalls w) \<Longrightarrow> k = ncalls w"
  by simp

lemma lets_through_driver_call [intro!]: "lets_through env (driver_call env rq f)"
  by (auto simp: lets_through_def raises_last_def driver_call_def Let_def
      split: option.splits dest!: call_index)

lemma lets_through_execute_script [intro!]: "lets_through env (execute_script env s f)"
  by (simp add: execute_script_def lets_through_driver_call)

lemma lets_through_scroll_steps [intro!]: "lets_through env (scroll_steps env is)"
  by (induction "is") auto

lemma lets_through_scroll_pass [intro!]: "lets_through env (scroll_pass env)"
  unfolding scroll_pass_def by auto

lemma scroll_loop_raises_last:
  assumes "scroll_loop env h w = Some (r, w')"
  shows "raises_last env w r w'"
proof -
  let ?P = "\<lambda>env (h :: int) w y. raises_last env w (fst y) (snd y)"
  have "?P env h w (r, w')"
  proof (rule scroll_loop.raw_induct[where P = ?P, OF _ assms], goal_cases)
    case (1 f env h w y)
    obtain x w1 where p: "scroll_pass env w = (x, w1)" by (cases "scroll_pass env w")
    note l = lets_throughD[OF lets_through_scroll_pass p]
    show ?case
    proof (cases x)
      case (Inl e)
      with 1(2) p l show ?thesis by (auto simp: raises_last_Inl)
    next
      case (Inr h')
      show ?thesis
      proof (cases "h' = h")
        case True
        with 1(2) p Inr l show ?thesis by (auto intro: raises_last_Inr_any)
      next
        case False
        with 1(2) p Inr have "f env h' w1 = Some y" by simp
        from 1(1)[OF this] l Inr show ?thesis by (auto intro: raises_last_seq)
      qed
    qed
  qed
  then show ?thesis by simp
qed

lemma scroll_to_bottom_raises_last:
  assumes "scroll_to_bottom env w = Some (r, w')"
  shows "raises_last env w r w'"
proof -
  let ?m = "io_bind (logger INFO ''Starting progressive scroll to trigger lazy loading...'')
             (\<lambda>_. execute_script env ScrollHeight body_scrollHeight)"
  let ?e = "io_bind (execute_script env ScrollToTop (\<lambda>_. ()))
              (\<lambda>_. logger INFO ''Completed progressive scroll'')"
  obtain x w1 where m: "?m w = (x, w1)" by (cases "?m w")
  have lm: "lets_through env ?m" by auto
  have le: "lets_through env ?e" by auto
  note l1 = lets_throughD[OF lm m]
  show ?thesis
  proof (cases x)
    case (Inl e)
    with assms m l1 show ?thesis by (auto simp: scroll_to_bottom_def raises_last_Inl)
  next
    case (Inr h)
    show ?thesis
    proof (cases "scroll_loop env h w1")
      case None
      with assms m Inr show ?thesis by (simp add: scroll_to_bottom_def)
    next
      case (Some y)
      obtain x2 w2 where y: "y = (x2, w2)" by (cases y)
      from scroll_loop_raises_last Some y have l2: "raises_last env w1 x2 w2" by blast
      show ?thesis
      proof (cases x2)
        case (Inl e)
        with assms m Inr Some y have "r = Inl e" "w' = w2" by (simp_all add: scroll_to_bottom_def)
        with l1 l2 Inr Inl show ?thesis by (auto intro: raises_last_seq)
      next
        case Inr2: (Inr u)
        with assms m Inr Some y have e: "?e w2 = (r, w')" by (simp add: scroll_to_bottom_def)
        from lets_throughD[OF le e] l1 l2 Inr Inr2 show ?thesis
          by (auto intro: raises_last_seq)
      qed
    qed
  qed
qed

lemma stable_loop_raises_last:
  "stable_loop env timeout start_time last_height w = (r, w') \<Longrightarrow> raises_last env w r w'"
proof (induction env timeout start_time last_height w rule: stable_loop.induct)
  case (1 env timeout start_time last_height w)
  show ?case
  proof (cases "clock w - start_time < timeout * 1000")
    case False
    with "1.prems" show ?thesis
      by (subst (asm) stable_loop.simps) (auto simp: raises_last_def)
  next
    case True
    obtain x w1 where ex: "execute_script env ScrollHeight body_scrollHeight w = (x, w1)"
      by (cases "execute_script env ScrollHeight body_scrollHeight w")
    note l1 = lets_throughD[OF lets_through_execute_script ex]
    show ?thesis
    proof (cases x)
      case (Inl e)
      with "1.prems" True ex l1 show ?thesis
        by (subst (asm) stable_loop.simps) (auto simp: raises_last_Inl)
    next
      case (Inr h)
      show ?thesis
      proof (cases "h = last_height")
        case same: True
        have l: "lets_through env (io_bind (time_sleep env 2000) (\<lambda>_. io_return True))"
          by auto
        from "1.prems" True ex Inr same
        have "io_bind (time_sleep env 2000) (\<lambda>_. io_return True) w1 = (r, w')"
          by (subst (asm) stable_loop.simps) simp
        from lets_throughD[OF l this] l1 Inr show ?thesis by (auto intro: raises_last_seq)
      next
        case False
        obtain r2 w2 where sl: "time_sleep env 1000 w1 = (r2, w2)" by (cases "time_sleep env 1000 w1")
        then have r2: "r2 = Inr ()" "ncalls w2 = ncalls w1"
          by (auto simp: time_sleep_def sleep_overflows_def os_accepts_def)
        note l2 = lets_throughD[OF lets_through_sleep sl]
        from "1.prems" True ex Inr False sl r2
        have rec: "stable_loop env timeout start_time h w2 = (r, w')"
          by (subst (asm) stable_loop.simps) simp
        from "1.IH"[OF True ex[symmetric] Inr False sl[symmetric] r2(1) rec]
        have "raises_last env w2 r w'" .
        with l1 l2 Inr r2 show ?thesis by (auto intro: raises_last_seq)
      qed
    qed
  qed
qed

lemma lets_through_stable [intro!]: "lets_through env (wait_for_content_stable env timeout)"
  unfolding wait_for_content_stable_def
  by (rule lets_through_bind)
     (rule lets_through_logger, simp add: lets_through_def stable_loop_raises_last)

lemma scroll_pass_progress:
  assumes "scroll_pass env w = (Inr h, w1)"
  shows "ncalls w < ncalls w1"
proof -
  from assms[unfolded scroll_pass_def] show ?thesis
  proof (cases rule: io_bind_cases)
    case (passed u wa)
    from lets_throughD[OF lets_through_scroll_steps passed(1)]
    have a: "ncalls w \<le> ncalls wa" by (simp add: raises_last_def)
    from passed(2) show ?thesis
    proof (cases rule: io_bind_cases)
      case p2: (passed u2 wb)
      then have b: "ncalls wb = Suc (ncalls wa)"
        by (auto simp: execute_script_def driver_call_def Let_def split: option.splits)
      have "lets_through env (io_bind (time_sleep env 2000)
              (\<lambda>_. execute_script env ScrollHeight body_scrollHeight))"
        by auto
      from lets_throughD[OF this p2(2)] have "ncalls wb \<le> ncalls w1"
        by (simp add: raises_last_def)
      with a b show ?thesis by simp
    qed simp
  qed simp
qed

lemma scroll_loop_fault_returns:
  assumes "fault env k = Some e"
  shows "ncalls w \<le> k \<Longrightarrow> \<exists>y. scroll_loop env h w = Some y"
proof (induction "k - ncalls w" arbitrary: w h rule: less_induct)
  case less
  obtain x w1 where p: "scroll_pass env w = (x, w1)" by (cases "scroll_pass env w")
  show ?case
  proof (cases x)
    case (Inl e')
    with p show ?thesis by (subst scroll_loop.simps) simp
  next
    case (Inr h')
    from lets_throughD[OF lets_through_scroll_pass p] Inr
    have "raises_last env w (Inr h') w1" by simp
    from raises_last_Inr[OF this less.prems assms] have le: "ncalls w1 \<le> k" .
    from scroll_pass_progress p Inr have "ncalls w < ncalls w1" by blast
    with le have "k - ncalls w1 < k - ncalls w" by simp
    from less.hyps[OF this le] obtain y where "scroll_loop env h' w1 = Some y" by blast
    with p Inr show ?thesis by (subst scroll_loop.simps) simp
  qed
qed

lemma scroll_to_bottom_fault_returns:
  assumes "ncalls w \<le> k" "fault env k = Some e"
  shows "\<exists>r w'. scroll_to_bottom env w = Some (r, w')"
proof -
  let ?m = "io_bind (logger INFO ''Starting progressive scroll to trigger lazy loading...'')
             (\<lambda>_. execute_script env ScrollHeight body_scrollHeight)"
  obtain x w1 where m: "?m w = (x, w1)" by (cases "?m w")
  have lm: "lets_through env ?m" by auto
  show ?thesis
  proof (cases x)
    case (Inl e')
    with m show ?thesis by (simp add: scroll_to_bottom_def)
  next
    case (Inr h)
    from lets_throughD[OF lm m] Inr have "raises_last env w (Inr h) w1" by simp
    from raises_last_Inr[OF this assms] have "ncalls w1 \<le> k" .
    from scroll_loop_fault_returns[OF assms(2) this] obtain y
      where "scroll_loop env h w1 = Some y" by blast
    with m Inr show ?thesis
      by (cases y) (auto simp: scroll_to_bottom_def split: sum.splits prod.splits)
  qed
qed

lemma raises_lastD:
  assumes "raises_last env w r w'" "ncalls w \<le> k" "k < ncalls w'" "fault env k = Some e"
  shows "r = Inl e \<and> ncalls w' = Suc k"
  using assms unfolding raises_last_def by blast

lemma wait_for_images_timeout:
  assumes "fault env (ncalls w) = Some e" "exn_class_of e = TimeoutException"
  shows "wait_for_images env w =
     (Inr (), w\<lparr>ncalls := Suc (ncalls w), clock := clock w + int (latency env (ncalls w)),
        trace := trace w @
          [Log INFO ''Waiting for images to load...'',
           Driver (WaitUntil 10 (ScriptTruthy ImagesComplete)),
           Log WARNING ''Timeout waiting for images to load'']\<rparr>)"
  using assms by (simp add: wait_for_images_def io_defs)

lemma wait_for_images_other:
  assumes "fault env (ncalls w) = Some e" "exn_class_of e \<noteq> TimeoutException"
  shows "wait_for_images env w =
     (Inl e, w\<lparr>ncalls := Suc (ncalls w), clock := clock w + int (latency env (ncalls w)),
        trace := trace w @
          [Log INFO ''Waiting for images to load...'',
           Driver (WaitUntil 10 (ScriptTruthy ImagesComplete))]\<rparr>)"
  using assms by (simp add: wait_for_images_def io_defs)

lemma wait_for_images_passed:
  assumes "fault env (ncalls w) = None \<or>
           (\<exists>e. fault env (ncalls w) = Some e \<and> exn_class_of e = TimeoutException)"
  shows "\<exists>w'. wait_for_images env w = (Inr (), w') \<and> ncalls w' = Suc (ncalls w)"
  using assms by (auto simp: wait_for_images_def io_defs)

lemma wait_for_dynamic_content_calls:
  "\<exists>b w'. wait_for_dynamic_content env w = (Inr b, w') \<and>
     ncalls w' = ncalls w + (if fault env (ncalls w) = None then 2 else 1)"
  by (auto simp: wait_for_dynamic_content_def io_defs split: option.splits)

lemma wait_for_dynamic_content_caught:
  assumes "fault env (ncalls w) = Some e \<or>
           (fault env (ncalls w) = None \<and> fault env (Suc (ncalls w)) = Some e)"
  shows "\<exists>w'. wait_for_dynamic_content env w = (Inr False, w') \<and>
           last (trace w') = Log DEBUG (''Error checking dynamic content: '' @ str_exn e)"
  using assms by (auto simp: wait_for_dynamic_content_def io_defs)

lemma extra_delay_calls:
  "extra_delay self env cs dl w = (r, w') \<Longrightarrow> ncalls w' = ncalls w"
  by (auto simp: extra_delay_def io_defs split: if_splits)

lemma extra_delay_trace:
  "extra_delay self env cs dl w = (r, w') \<Longrightarrow> \<exists>evs. trace w' = trace w @ evs"
  by (auto simp: extra_delay_def io_defs split: if_splits)

lemma finish_ok:
  assumes nf: "\<forall>k\<ge>ncalls w. fault env k = None"
      and op: "\<forall>p. open_error env p = None \<and> dump_error env p = None"
  shows "\<exists>paths w'. io_bind (measure_and_resize env)
            (\<lambda>(viewport_width, total_height).
               save_outputs self env url viewport_width total_height) w = (Inr paths, w')"
  using assms
  by (simp add: measure_and_resize_def save_outputs_def io_defs)

lemma capture_fails_with:
  assumes "capture_body self env url w = Some (Inl e, w')"
  shows "capture_screenshot self env url w =
           Some (None, w'\<lparr>trace := trace w' @
             [Log ERROR (if exn_class_of e = TimeoutException
                         then ''Timeout while loading URL: '' @ url
                         else ''Error capturing screenshot: '' @ str_exn e)]\<rparr>)"
  using assms by (simp add: capture_screenshot_def logger_def)

lemma capture_raised_in_scroll:
  assumes "navigate env url w = (Inr (), w1)"
      and "scroll_to_bottom env w1 = Some (Inl e, w2)"
  shows "capture_screenshot self env url w =
           Some (None, w2\<lparr>trace := trace w2 @
             [Log ERROR (if exn_class_of e = TimeoutException
                         then ''Timeout while loading URL: '' @ url
                         else ''Error capturing screenshot: '' @ str_exn e)]\<rparr>) \<and>
         files w2 = files w"
proof -
  have "capture_body self env url w = Some (Inl e, w2)"
    using assms by (simp add: capture_body_def)
  moreover have "files w2 = files w"
    using scroll_to_bottom_files[OF assms(2)] keeps_filesD[OF keeps_files_navigate assms(1)]
    by simp
  ultimately show ?thesis by (simp add: capture_fails_with)
qed

lemma capture_raised_in_stable:
  assumes "navigate env url w = (Inr (), w1)"
      and "scroll_to_bottom env w1 = Some (Inr (), w2)"
      and "wait_for_content_stable env 10 w2 = (Inl e, w3)"
  shows "capture_screenshot self env url w =
           Some (None, w3\<lparr>trace := trace w3 @
             [Log ERROR (if exn_class_of e = TimeoutException
                         then ''Timeout while loading URL: '' @ url
                         else ''Error capturing screenshot: '' @ str_exn e)]\<rparr>) \<and>
         files w3 = files w"
proof -
  have "capture_body self env url w = Some (Inl e, w3)"
    using assms by (simp add: capture_body_def after_scroll_def io_bind_def)
  moreover have "files w3 = files w"
    using scroll_to_bottom_files[OF assms(2)] keeps_filesD[OF keeps_files_navigate assms(1)]
      keeps_filesD[OF keeps_files_stable assms(3)]
    by simp
  ultimately show ?thesis by (simp add: capture_fails_with)
qed

lemma capture_raised_in_images:
  assumes "navigate env url w = (Inr (), w1)"
      and "scroll_to_bottom env w1 = Some (Inr (), w2)"
      and "wait_for_content_stable env 10 w2 = (Inr cs, w3)"
      and "fault env (ncalls w3) = Some e" "exn_class_of e \<noteq> TimeoutException"
  shows "\<exists>w4. capture_screenshot self env url w = Some (None, w4) \<and> files w4 = files w \<and>
           trace w4 = trace w3 @
             [Log INFO ''Waiting for images to load...'',
              Driver (WaitUntil 10 (ScriptTruthy ImagesComplete)),
              Log ERROR (''Error capturing screenshot: '' @ str_exn e)]"
proof -
  note i = wait_for_images_other[OF assms(4,5)]
  have "capture_body self env url w =
      Some (Inl e, w3\<lparr>ncalls := Suc (ncalls w3),
        clock := clock w3 + int (latency env (ncalls w3)),
        trace := trace w3 @
          [Log INFO ''Waiting for images to load...'',
           Driver (WaitUntil 10 (ScriptTruthy ImagesComplete))]\<rparr>)"
    using assms(1-3) i by (simp add: capture_body_def after_scroll_def io_bind_def)
  moreover have "files w3 = files w"
    using scroll_to_bottom_files[OF assms(2)] keeps_filesD[OF keeps_files_navigate assms(1)]
      keeps_filesD[OF keeps_files_stable assms(3)]
    by simp
  ultimately show ?thesis using assms(5) by (simp add: capture_fails_with)
qed

lemma capture_proceeds:
  assumes nav: "navigate env url w = (Inr (), w1)"
      and scr: "scroll_to_bottom env w1 = Some (Inr (), w2)"
      and stb: "wait_for_content_stable env 10 w2 = (Inr cs, w3)"
      and img: "fault env (ncalls w3) = None \<or>
                (\<exists>e1. fault env (ncalls w3) = Some e1 \<and> exn_class_of e1 = TimeoutException)"
      and later: "\<forall>k\<ge>ncalls w3 + (if fault env (Suc (ncalls w3)) = None then 3 else 2).
                    fault env k = None"
      and op: "\<forall>p. open_error env p = None \<and> dump_error env p = None"
      and wt: "case wait_time self of
                 None \<Rightarrow> True
               | Some n \<Rightarrow> 0 \<le> n \<and> n \<le> 9223372036 \<and> os_accepts env (n * 1000)"
  shows "\<exists>w4 dl w5 paths w' rest.
           wait_for_images env w3 = (Inr (), w4) \<and>
           wait_for_dynamic_content env w4 = (Inr dl, w5) \<and>
           capture_screenshot self env url w = Some (Some paths, w') \<and>
           trace w' = trace w5 @ rest"
proof -
  from wait_for_images_passed[OF img] obtain w4 where
    i: "wait_for_images env w3 = (Inr (), w4)" and n4: "ncalls w4 = Suc (ncalls w3)"
    by blast
  from wait_for_dynamic_content_calls[of env w4] obtain dl w5 where
    d: "wait_for_dynamic_content env w4 = (Inr dl, w5)"
    and n5: "ncalls w5 = ncalls w4 + (if fault env (ncalls w4) = None then 2 else 1)"
    by blast
  from extra_delay_accepted[OF wt, of cs dl w5] obtain w6 where
    x: "extra_delay self env cs dl w5 = (Inr (), w6)"
    by (elim exE conjE)
  from extra_delay_trace[OF x] obtain evs where t6: "trace w6 = trace w5 @ evs" by (elim exE)
  from extra_delay_calls[OF x] have n6: "ncalls w6 = ncalls w5" .
  have n: "ncalls w6 = ncalls w3 + (if fault env (Suc (ncalls w3)) = None then 3 else 2)"
    using n4 n5 n6 by simp
  note later[folded n]
  from finish_ok[OF this op, of self url]
  obtain paths w' where f: "io_bind (measure_and_resize env)
            (\<lambda>(viewport_width, total_height).
               save_outputs self env url viewport_width total_height) w6 = (Inr paths, w')"
    by blast
  from measure_save_trace[OF f] obtain rest0 where
    "trace w' = trace w6 @ Driver (ExecuteScript TotalHeight) # rest0"
    by (elim exE conjE)
  with t6 have t: "trace w' = trace w5 @ (evs @ Driver (ExecuteScript TotalHeight) # rest0)"
    by simp
  have "after_scroll self env url w2 = (Inr paths, w')"
    using stb i d x f by (simp add: after_scroll_def io_bind_def)
  with nav scr have "capture_screenshot self env url w = Some (Some paths, w')"
    by (simp add: capture_screenshot_def capture_body_def)
  with i d t show ?thesis by (intro exI conjI)
qed

text \<open>
  C2, as the code has it. Two phases catch their own exceptions: the image wait
  catches \<^verbatim>\<open>TimeoutException\<close> and logs a warning, the dynamic-content check catches
  every exception of either of its two driver calls, logs it at debug level and
  reports \<open>False\<close>. Whether one of them caught something, or the other, or both, the
  capture goes on past them and returns the pair of paths when no later step raises.
  The scroll and the height-stability poll catch nothing: whichever of their driver
  calls raises, the phase ends at that call with that exception, and a scroll one
  of whose calls will raise does return. The image wait catches nothing but the
  timeout. An exception that leaves one of these three phases is logged by the
  handlers of \<open>capture_screenshot\<close>, which returns \<open>None\<close> without having written a
  file.
\<close>

theorem in_phase_exceptions:
  "(fault env (ncalls w) = Some e \<and> exn_class_of e = TimeoutException \<longrightarrow>
      wait_for_images env w =
        (Inr (), w\<lparr>ncalls := Suc (ncalls w), clock := clock w + int (latency env (ncalls w)),
           trace := trace w @
             [Log INFO ''Waiting for images to load...'',
              Driver (WaitUntil 10 (ScriptTruthy ImagesComplete)),
              Log WARNING ''Timeout waiting for images to load'']\<rparr>)) \<and>
   (fault env (ncalls w) = Some e \<or>
    (fault env (ncalls w) = None \<and> fault env (Suc (ncalls w)) = Some e) \<longrightarrow>
      (\<exists>w'. wait_for_dynamic_content env w = (Inr False, w') \<and>
            last (trace w') = Log DEBUG (''Error checking dynamic content: '' @ str_exn e))) \<and>
   (navigate env url w = (Inr (), w1) \<and> scroll_to_bottom env w1 = Some (Inr (), w2) \<and>
    wait_for_content_stable env 10 w2 = (Inr cs, w3) \<and>
    (fault env (ncalls w3) = None \<or>
     (\<exists>e1. fault env (ncalls w3) = Some e1 \<and> exn_class_of e1 = TimeoutException)) \<and>
    (\<forall>k\<ge>ncalls w3 + (if fault env (Suc (ncalls w3)) = None then 3 else 2).
       fault env k = None) \<and>
    (\<forall>p. open_error env p = None \<and> dump_error env p = None) \<and>
    (case wait_time self of
       None \<Rightarrow> True
     | Some n \<Rightarrow> 0 \<le> n \<and> n \<le> 9223372036 \<and> os_accepts env (n * 1000)) \<longrightarrow>
      (\<exists>w4 dl w5 paths w' rest.
         wait_for_images env w3 = (Inr (), w4) \<and>
         wait_for_dynamic_content env w4 = (Inr dl, w5) \<and>
         capture_screenshot self env url w = Some (Some paths, w') \<and>
         trace w' = trace w5 @ rest)) \<and>
   (ncalls w \<le> k \<and> fault env k = Some e \<longrightarrow>
      (\<exists>r w'. scroll_to_bottom env w = Some (r, w') \<and>
              (k < ncalls w' \<longrightarrow> r = Inl e \<and> ncalls w' = Suc k))) \<and>
   (wait_for_content_stable env 10 w = (r3, w3) \<and> ncalls w \<le> k \<and> k < ncalls w3 \<and>
    fault env k = Some e \<longrightarrow>
      r3 = Inl e \<and> ncalls w3 = Suc k) \<and>
   (fault env (ncalls w) = Some e \<and> exn_class_of e \<noteq> TimeoutException \<longrightarrow>
      fst (wait_for_images env w) = Inl e) \<and>
   (navigate env url w = (Inr (), w1) \<and> scroll_to_bottom env w1 = Some (r2, w2) \<and>
    ncalls w1 \<le> k \<and> k < ncalls w2 \<and> fault env k = Some e \<longrightarrow>
      capture_screenshot self env url w =
        Some (None, w2\<lparr>trace := trace w2 @
          [Log ERROR (if exn_class_of e = TimeoutException
                      then ''Timeout while loading URL: '' @ url
                      else ''Error capturing screenshot: '' @ str_exn e)]\<rparr>) \<and>
      files w2 = files w) \<and>
   (navigate env url w = (Inr (), w1) \<and> scroll_to_bottom env w1 = Some (Inr (), w2) \<and>
    wait_for_content_stable env 10 w2 = (r3, w3) \<and>
    ncalls w2 \<le> k \<and> k < ncalls w3 \<and> fault env k = Some e \<longrightarrow>
      capture_screenshot self env url w =
        Some (None, w3\<lparr>trace := trace w3 @
          [Log ERROR (if exn_class_of e = TimeoutException
                      then ''Timeout while loading URL: '' @ url
                      else ''Error capturing screenshot: '' @ str_exn e)]\<rparr>) \<and>
      files w3 = files w) \<and>
   (navigate env url w = (Inr (), w1) \<and> scroll_to_bottom env w1 = Some (Inr (), w2) \<and>
    wait_for_content_stable env 10 w2 = (Inr cs, w3) \<and>
    fault env (ncalls w3) = Some e \<and> exn_class_of e \<noteq> TimeoutException \<longrightarrow>
      (\<exists>w4. capture_screenshot self env url w = Some (None, w4) \<and> files w4 = files w \<and>
            trace w4 = trace w3 @
              [Log INFO ''Waiting for images to load...'',
               Driver (WaitUntil 10 (ScriptTruthy ImagesComplete)),
               Log ERROR (''Error capturing screenshot: '' @ str_exn e)]))"
proof (intro conjI impI; (elim conjE)?)
  assume "fault env (ncalls w) = Some e" "exn_class_of e = TimeoutException"
  then show "wait_for_images env w =
        (Inr (), w\<lparr>ncalls := Suc (ncalls w), clock := clock w + int (latency env (ncalls w)),
           trace := trace w @
             [Log INFO ''Waiting for images to load...'',
              Driver (WaitUntil 10 (ScriptTruthy ImagesComplete)),
              Log WARNING ''Timeout waiting for images to load'']\<rparr>)"
    by (rule wait_for_images_timeout)
next
  assume "fault env (ncalls w) = Some e \<or>
    (fault env (ncalls w) = None \<and> fault env (Suc (ncalls w)) = Some e)"
  then show "\<exists>w'. wait_for_dynamic_content env w = (Inr False, w') \<and>
            last (trace w') = Log DEBUG (''Error checking dynamic content: '' @ str_exn e)"
    by (rule wait_for_dynamic_content_caught)
next
  assume "navigate env url w = (Inr (), w1)" "scroll_to_bottom env w1 = Some (Inr (), w2)"
    "wait_for_content_stable env 10 w2 = (Inr cs, w3)"
    "fault env (ncalls w3) = None \<or>
     (\<exists>e1. fault env (ncalls w3) = Some e1 \<and> exn_class_of e1 = TimeoutException)"
    "\<forall>k\<ge>ncalls w3 + (if fault env (Suc (ncalls w3)) = None then 3 else 2).
       fault env k = None"
    "\<forall>p. open_error env p = None \<and> dump_error env p = None"
    "case wait_time self of
       None \<Rightarrow> True
     | Some n \<Rightarrow> 0 \<le> n \<and> n \<le> 9223372036 \<and> os_accepts env (n * 1000)"
  then show "\<exists>w4 dl w5 paths w' rest.
         wait_for_images env w3 = (Inr (), w4) \<and>
         wait_for_dynamic_content env w4 = (Inr dl, w5) \<and>
         capture_screenshot self env url w = Some (Some paths, w') \<and>
         trace w' = trace w5 @ rest"
    by (rule capture_proceeds)
next
  assume k: "ncalls w \<le> k" "fault env k = Some e"
  from scroll_to_bottom_fault_returns[OF k] obtain r w'
    where s: "scroll_to_bottom env w = Some (r, w')" by blast
  have "k < ncalls w' \<longrightarrow> r = Inl e \<and> ncalls w' = Suc k"
    using raises_lastD[OF scroll_to_bottom_raises_last[OF s] k(1) _ k(2)] by blast
  with s show "\<exists>r w'. scroll_to_bottom env w = Some (r, w') \<and>
              (k < ncalls w' \<longrightarrow> r = Inl e \<and> ncalls w' = Suc k)"
    by blast
next
  assume a: "wait_for_content_stable env 10 w = (r3, w3)" "ncalls w \<le> k" "k < ncalls w3"
    "fault env k = Some e"
  from raises_lastD[OF lets_throughD[OF lets_through_stable a(1)] a(2-4)]
  show "r3 = Inl e" "ncalls w3 = Suc k" by blast+
next
  assume "fault env (ncalls w) = Some e" "exn_class_of e \<noteq> TimeoutException"
  then show "fst (wait_for_images env w) = Inl e"
    by (simp add: wait_for_images_other)
next
  assume a: "navigate env url w = (Inr (), w1)" "scroll_to_bottom env w1 = Some (r2, w2)"
    "ncalls w1 \<le> k" "k < ncalls w2" "fault env k = Some e"
  from raises_lastD[OF scroll_to_bottom_raises_last[OF a(2)] a(3-5)] have "r2 = Inl e"
    by blast
  with a(2) have "scroll_to_bottom env w1 = Some (Inl e, w2)" by simp
  from capture_raised_in_scroll[OF a(1) this, of self]
  show "capture_screenshot self env url w =
        Some (None, w2\<lparr>trace := trace w2 @
          [Log ERROR (if exn_class_of e = TimeoutException
                      then ''Timeout while loading URL: '' @ url
                      else ''Error capturing screenshot: '' @ str_exn e)]\<rparr>)"
    "files w2 = files w"
    by blast+
next
  assume a: "navigate env url w = (Inr (), w1)" "scroll_to_bottom env w1 = Some (Inr (), w2)"
    "wait_for_content_stable env 10 w2 = (r3, w3)"
    "ncalls w2 \<le> k" "k < ncalls w3" "fault env k = Some e"
  from raises_lastD[OF lets_throughD[OF lets_through_stable a(3)] a(4-6)] have "r3 = Inl e"
    by blast
  with a(3) have "wait_for_content_stable env 10 w2 = (Inl e, w3)" by simp
  from capture_raised_in_stable[OF a(1,2) this, of self]
  show "capture_screenshot self env url w =
        Some (None, w3\<lparr>trace := trace w3 @
          [Log ERROR (if exn_class_of e = TimeoutException
                      then ''Timeout while loading URL: '' @ url
                      else ''Error capturing screenshot: '' @ str_exn e)]\<rparr>)"
    "files w3 = files w"
    by blast+
next
  assume "navigate env url w = (Inr (), w1)" "scroll_to_bottom env w1 = Some (Inr (), w2)"
    "wait_for_content_stable env 10 w2 = (Inr cs, w3)"
    "fault env (ncalls w3) = Some e" "exn_class_of e \<noteq> TimeoutException"
  then show "\<exists>w4. capture_screenshot self env url w = Some (None, w4) \<and> files w4 = files w \<and>
            trace w4 = trace w3 @
              [Log INFO ''Waiting for images to load...'',
               Driver (WaitUntil 10 (ScriptTruthy ImagesComplete)),
               Log ERROR (''Error capturing screenshot: '' @ str_exn e)]"
    by (rule capture_raised_in_images)
qed

lemma phases_images_timeout:
  "\<exists>w1 w2 w3.
     navigate (faulty_env [(17, Exn TimeoutException ''images'')]) ''http://x'' demo_world = (Inr (), w1) \<and>
     scroll_to_bottom (faulty_env [(17, Exn TimeoutException ''images'')]) w1 = Some (Inr (), w2) \<and>
     wait_for_content_stable (faulty_env [(17, Exn TimeoutException ''images'')]) 10 w2 = (Inr True, w3) \<and>
     ncalls w3 = 17"
  apply (simp add: navigate_def scroll_to_bottom_def scroll_pass_def io_defs demo_defs upt_1_10)
  apply (subst scroll_loop.simps)
  apply (simp add: phase_defs io_defs demo_defs upt_1_10 stable_loop.simps)
  done

lemma phases_dynamic_first:
  "\<exists>w1 w2 w3.
     navigate (faulty_env [(18, Exn WebDriverException ''no fetch'')]) ''http://x'' demo_world = (Inr (), w1) \<and>
     scroll_to_bottom (faulty_env [(18, Exn WebDriverException ''no fetch'')]) w1 = Some (Inr (), w2) \<and>
     wait_for_content_stable (faulty_env [(18, Exn WebDriverException ''no fetch'')]) 10 w2 = (Inr True, w3) \<and>
     ncalls w3 = 17"
  apply (simp add: navigate_def scroll_to_bottom_def scroll_pass_def io_defs demo_defs upt_1_10)
  apply (subst scroll_loop.simps)
  apply (simp add: phase_defs io_defs demo_defs upt_1_10 stable_loop.simps)
  done

lemma phases_dynamic_second:
  "\<exists>w1 w2 w3.
     navigate (faulty_env [(19, Exn WebDriverException ''no fetch'')]) ''http://x'' demo_world = (Inr (), w1) \<and>
     scroll_to_bottom (faulty_env [(19, Exn WebDriverException ''no fetch'')]) w1 = Some (Inr (), w2) \<and>
     wait_for_content_stable (faulty_env [(19, Exn WebDriverException ''no fetch'')]) 10 w2 = (Inr True, w3) \<and>
     ncalls w3 = 17"
  apply (simp add: navigate_def scroll_to_bottom_def scroll_pass_def io_defs demo_defs upt_1_10)
  apply (subst scroll_loop.simps)
  apply (simp add: phase_defs io_defs demo_defs upt_1_10 stable_loop.simps)
  done

lemma phases_images_other:
  "\<exists>w1 w2 w3.
     navigate (faulty_env [(17, Exn WebDriverException ''no fetch'')]) ''http://x'' demo_world = (Inr (), w1) \<and>
     scroll_to_bottom (faulty_env [(17, Exn WebDriverException ''no fetch'')]) w1 = Some (Inr (), w2) \<and>
     wait_for_content_stable (faulty_env [(17, Exn WebDriverException ''no fetch'')]) 10 w2 = (Inr True, w3) \<and>
     ncalls w3 = 17"
  apply (simp add: navigate_def scroll_to_bottom_def scroll_pass_def io_defs demo_defs upt_1_10)
  apply (subst scroll_loop.simps)
  apply (simp add: phase_defs io_defs demo_defs upt_1_10 stable_loop.simps)
  done

lemma phases_scroll_fault:
  "\<exists>w1 w2.
     navigate (faulty_env [(7, Exn WebDriverException ''no fetch'')]) ''http://x'' demo_world = (Inr (), w1) \<and>
     scroll_to_bottom (faulty_env [(7, Exn WebDriverException ''no fetch'')]) w1 = Some (Inl (Exn WebDriverException ''no fetch''), w2) \<and>
     ncalls w1 = 2 \<and> ncalls w2 = 8"
  apply (simp add: navigate_def scroll_to_bottom_def scroll_pass_def io_defs demo_defs upt_1_10)
  apply (subst scroll_loop.simps)
  apply (simp add: phase_defs io_defs demo_defs upt_1_10 stable_loop.simps)
  done

lemma phases_stable_fault:
  "\<exists>w1 w2 w3.
     navigate (faulty_env [(16, Exn WebDriverException ''no fetch'')]) ''http://x'' demo_world = (Inr (), w1) \<and>
     scroll_to_bottom (faulty_env [(16, Exn WebDriverException ''no fetch'')]) w1 = Some (Inr (), w2) \<and>
     wait_for_content_stable (faulty_env [(16, Exn WebDriverException ''no fetch'')]) 10 w2 = (Inl (Exn WebDriverException ''no fetch''), w3) \<and>
     ncalls w2 = 15 \<and> ncalls w3 = 17"
  apply (simp add: navigate_def scroll_to_bottom_def scroll_pass_def io_defs demo_defs upt_1_10)
  apply (subst scroll_loop.simps)
  apply (simp add: phase_defs io_defs demo_defs upt_1_10 stable_loop.simps)
  done

lemma scroll_fault_run:
  "\<exists>w'. scroll_to_bottom (faulty_env [(7, Exn WebDriverException ''no fetch'')]) demo_world = Some (Inl (Exn WebDriverException ''no fetch''), w') \<and> ncalls w' = 8"
  apply (simp add: scroll_to_bottom_def scroll_pass_def io_defs demo_defs upt_1_10)
  apply (subst scroll_loop.simps)
  apply (simp add: scroll_pass_def io_defs demo_defs upt_1_10)
  done

lemma stable_fault_run:
  "\<exists>w'. wait_for_content_stable (faulty_env [(1, Exn WebDriverException ''no fetch'')]) 10 demo_world = (Inl (Exn WebDriverException ''no fetch''), w') \<and> ncalls w' = 2"
  by (simp add: wait_for_content_stable_def io_defs demo_defs stable_loop.simps)

theorem in_phase_exceptions_witness:
  "wait_for_images (faulty_env [(0, Exn TimeoutException ''images'')]) demo_world =
     (Inr (), demo_world\<lparr>ncalls := 1,
        trace := [Log INFO ''Waiting for images to load...'',
                  Driver (WaitUntil 10 (ScriptTruthy ImagesComplete)),
                  Log WARNING ''Timeout waiting for images to load'']\<rparr>) \<and>
   (\<exists>w'. wait_for_dynamic_content (faulty_env [(0, Exn WebDriverException ''no fetch'')])
           demo_world = (Inr False, w') \<and>
         last (trace w') = Log DEBUG ''Error checking dynamic content: no fetch'') \<and>
   (\<exists>w'. wait_for_dynamic_content (faulty_env [(1, Exn WebDriverException ''no fetch'')])
           demo_world = (Inr False, w') \<and>
         last (trace w') = Log DEBUG ''Error checking dynamic content: no fetch'') \<and>
   (\<exists>paths w'. capture_screenshot demo_self (faulty_env [(17, Exn TimeoutException ''images'')])
                 ''http://x'' demo_world = Some (Some paths, w')) \<and>
   (\<exists>paths w'. capture_screenshot demo_self
                 (faulty_env [(18, Exn WebDriverException ''no fetch'')])
                 ''http://x'' demo_world = Some (Some paths, w')) \<and>
   (\<exists>paths w'. capture_screenshot demo_self
                 (faulty_env [(19, Exn WebDriverException ''no fetch'')])
                 ''http://x'' demo_world = Some (Some paths, w')) \<and>
   (\<exists>w'. scroll_to_bottom (faulty_env [(7, Exn WebDriverException ''no fetch'')]) demo_world =
           Some (Inl (Exn WebDriverException ''no fetch''), w') \<and> ncalls w' = 8) \<and>
   (\<exists>w'. wait_for_content_stable (faulty_env [(1, Exn WebDriverException ''no fetch'')]) 10
           demo_world = (Inl (Exn WebDriverException ''no fetch''), w') \<and> ncalls w' = 2) \<and>
   fst (wait_for_images (faulty_env [(0, Exn WebDriverException ''no fetch'')]) demo_world) =
     Inl (Exn WebDriverException ''no fetch'') \<and>
   (\<exists>w'. capture_screenshot demo_self (faulty_env [(7, Exn WebDriverException ''no fetch'')])
           ''http://x'' demo_world = Some (None, w') \<and> files w' = [] \<and>
         last (trace w') = Log ERROR ''Error capturing screenshot: no fetch'') \<and>
   (\<exists>w'. capture_screenshot demo_self (faulty_env [(16, Exn WebDriverException ''no fetch'')])
           ''http://x'' demo_world = Some (None, w') \<and> files w' = [] \<and>
         last (trace w') = Log ERROR ''Error capturing screenshot: no fetch'') \<and>
   (\<exists>w'. capture_screenshot demo_self (faulty_env [(17, Exn WebDriverException ''no fetch'')])
           ''http://x'' demo_world = Some (None, w') \<and> files w' = [] \<and>
         last (trace w') = Log ERROR ''Error capturing screenshot: no fetch'')"
proof -
  let ?t = "Exn TimeoutException ''images''"
  let ?x = "Exn WebDriverException ''no fetch''"
  have n0: "ncalls demo_world = 0" "clock demo_world = 0" "trace demo_world = []"
    "files demo_world = []"
    by (simp_all add: demo_world_def)
  have lat: "latency (faulty_env fs) k = 0" for fs k
    by (simp add: faulty_env_def demo_env_def)
  have ct: "exn_class_of ?t = TimeoutException" and cx: "exn_class_of ?x \<noteq> TimeoutException"
    by simp_all
  have sx: "str_exn ?x = ''no fetch''" by simp
  have op: "\<forall>p. open_error (faulty_env fs) p = None \<and> dump_error (faulty_env fs) p = None"
    for fs
    by (simp add: faulty_env_def demo_env_def)
  have wt: "case wait_time demo_self of
       None \<Rightarrow> True
     | Some n \<Rightarrow> 0 \<le> n \<and> n \<le> 9223372036 \<and> os_accepts (faulty_env fs) (n * 1000)" for fs
    by (simp add: demo_self_def)
  have ft: "fault (faulty_env [(0, ?t)]) (ncalls demo_world) = Some ?t"
    and fx: "fault (faulty_env [(0, ?x)]) (ncalls demo_world) = Some ?x"
    and fy: "fault (faulty_env [(1, ?x)]) (ncalls demo_world) = None"
            "fault (faulty_env [(1, ?x)]) (Suc (ncalls demo_world)) = Some ?x"
    by (simp_all add: faulty_env_def demo_env_def n0)
  from in_phase_exceptions[where env = "faulty_env [(0, ?t)]" and w = demo_world and e = ?t,
      THEN conjunct1] ft ct
  have c1: "wait_for_images (faulty_env [(0, ?t)]) demo_world =
     (Inr (), demo_world\<lparr>ncalls := 1,
        trace := [Log INFO ''Waiting for images to load...'',
                  Driver (WaitUntil 10 (ScriptTruthy ImagesComplete)),
                  Log WARNING ''Timeout waiting for images to load'']\<rparr>)"
    by (simp add: n0 lat)
  from in_phase_exceptions[where env = "faulty_env [(0, ?x)]" and w = demo_world and e = ?x,
      THEN conjunct2, THEN conjunct1] fx
  have c2: "\<exists>w'. wait_for_dynamic_content (faulty_env [(0, ?x)]) demo_world = (Inr False, w') \<and>
         last (trace w') = Log DEBUG ''Error checking dynamic content: no fetch''"
    by (simp add: sx)
  from in_phase_exceptions[where env = "faulty_env [(1, ?x)]" and w = demo_world and e = ?x,
      THEN conjunct2, THEN conjunct1] fy
  have c3: "\<exists>w'. wait_for_dynamic_content (faulty_env [(1, ?x)]) demo_world = (Inr False, w') \<and>
         last (trace w') = Log DEBUG ''Error checking dynamic content: no fetch''"
    by (simp add: sx)
  have c4: "\<exists>paths w'. capture_screenshot demo_self (faulty_env [(17, ?t)]) ''http://x''
                         demo_world = Some (Some paths, w')"
  proof -
    let ?E = "faulty_env [(17, ?t)]"
    from phases_images_timeout obtain w1 w2 w3 where
      p: "navigate ?E ''http://x'' demo_world = (Inr (), w1)"
         "scroll_to_bottom ?E w1 = Some (Inr (), w2)"
         "wait_for_content_stable ?E 10 w2 = (Inr True, w3)" and n3: "ncalls w3 = 17"
      by blast
    have q: "fault ?E (ncalls w3) = None \<or>
             (\<exists>e1. fault ?E (ncalls w3) = Some e1 \<and> exn_class_of e1 = TimeoutException)"
      "\<forall>k\<ge>ncalls w3 + (if fault ?E (Suc (ncalls w3)) = None then 3 else 2). fault ?E k = None"
      by (simp_all add: n3 faulty_env_def demo_env_def)
    from in_phase_exceptions[where env = ?E and w = demo_world and url = "''http://x''"
        and ?w1.0 = w1 and ?w2.0 = w2 and ?w3.0 = w3 and cs = True and self = demo_self,
        THEN conjunct2, THEN conjunct2, THEN conjunct1] p q op[of "[(17, ?t)]"]
      wt[of "[(17, ?t)]"]
    show ?thesis by blast
  qed
  have c5: "\<exists>paths w'. capture_screenshot demo_self (faulty_env [(18, ?x)]) ''http://x''
                         demo_world = Some (Some paths, w')"
  proof -
    let ?E = "faulty_env [(18, ?x)]"
    from phases_dynamic_first obtain w1 w2 w3 where
      p: "navigate ?E ''http://x'' demo_world = (Inr (), w1)"
         "scroll_to_bottom ?E w1 = Some (Inr (), w2)"
         "wait_for_content_stable ?E 10 w2 = (Inr True, w3)" and n3: "ncalls w3 = 17"
      by blast
    have q: "fault ?E (ncalls w3) = None \<or>
             (\<exists>e1. fault ?E (ncalls w3) = Some e1 \<and> exn_class_of e1 = TimeoutException)"
      "\<forall>k\<ge>ncalls w3 + (if fault ?E (Suc (ncalls w3)) = None then 3 else 2). fault ?E k = None"
      by (simp_all add: n3 faulty_env_def demo_env_def)
    from in_phase_exceptions[where env = ?E and w = demo_world and url = "''http://x''"
        and ?w1.0 = w1 and ?w2.0 = w2 and ?w3.0 = w3 and cs = True and self = demo_self,
        THEN conjunct2, THEN conjunct2, THEN conjunct1] p q op[of "[(18, ?x)]"]
      wt[of "[(18, ?x)]"]
    show ?thesis by blast
  qed
  have c6: "\<exists>paths w'. capture_screenshot demo_self (faulty_env [(19, ?x)]) ''http://x''
                         demo_world = Some (Some paths, w')"
  proof -
    let ?E = "faulty_env [(19, ?x)]"
    from phases_dynamic_second obtain w1 w2 w3 where
      p: "navigate ?E ''http://x'' demo_world = (Inr (), w1)"
         "scroll_to_bottom ?E w1 = Some (Inr (), w2)"
         "wait_for_content_stable ?E 10 w2 = (Inr True, w3)" and n3: "ncalls w3 = 17"
      by blast
    have q: "fault ?E (ncalls w3) = None \<or>
             (\<exists>e1. fault ?E (ncalls w3) = Some e1 \<and> exn_class_of e1 = TimeoutException)"
      "\<forall>k\<ge>ncalls w3 + (if fault ?E (Suc (ncalls w3)) = None then 3 else 2). fault ?E k = None"
      by (simp_all add: n3 faulty_env_def demo_env_def)
    from in_phase_exceptions[where env = ?E and w = demo_world and url = "''http://x''"
        and ?w1.0 = w1 and ?w2.0 = w2 and ?w3.0 = w3 and cs = True and self = demo_self,
        THEN conjunct2, THEN conjunct2, THEN conjunct1] p q op[of "[(19, ?x)]"]
      wt[of "[(19, ?x)]"]
    show ?thesis by blast
  qed
  have c7: "\<exists>w'. scroll_to_bottom (faulty_env [(7, ?x)]) demo_world = Some (Inl ?x, w') \<and>
              ncalls w' = 8"
  proof -
    have "ncalls demo_world \<le> 7" "fault (faulty_env [(7, ?x)]) 7 = Some ?x"
      by (simp_all add: n0 faulty_env_def demo_env_def)
    with in_phase_exceptions[where env = "faulty_env [(7, ?x)]" and w = demo_world
        and k = 7 and e = ?x, THEN conjunct2, THEN conjunct2, THEN conjunct2, THEN conjunct1]
    obtain r w' where "scroll_to_bottom (faulty_env [(7, ?x)]) demo_world = Some (r, w')"
      "7 < ncalls w' \<longrightarrow> r = Inl ?x \<and> ncalls w' = Suc 7"
      by blast
    with scroll_fault_run show ?thesis by auto
  qed
  have c8: "\<exists>w'. wait_for_content_stable (faulty_env [(1, ?x)]) 10 demo_world = (Inl ?x, w') \<and>
              ncalls w' = 2"
  proof -
    from stable_fault_run obtain w' where
      r: "wait_for_content_stable (faulty_env [(1, ?x)]) 10 demo_world = (Inl ?x, w')"
      and n: "ncalls w' = 2"
      by blast
    have "ncalls demo_world \<le> 1" "1 < ncalls w'" "fault (faulty_env [(1, ?x)]) 1 = Some ?x"
      by (simp_all add: n0 n faulty_env_def demo_env_def)
    with in_phase_exceptions[where env = "faulty_env [(1, ?x)]" and w = demo_world
        and k = 1 and e = ?x and ?r3.0 = "Inl ?x" and ?w3.0 = w',
        THEN conjunct2, THEN conjunct2, THEN conjunct2, THEN conjunct2, THEN conjunct1] r
    have "ncalls w' = Suc 1" by blast
    with r show ?thesis by simp
  qed
  from in_phase_exceptions[where env = "faulty_env [(0, ?x)]" and w = demo_world and e = ?x,
      THEN conjunct2, THEN conjunct2, THEN conjunct2, THEN conjunct2, THEN conjunct2,
      THEN conjunct1] fx cx
  have c9: "fst (wait_for_images (faulty_env [(0, ?x)]) demo_world) = Inl ?x"
    by blast
  have c10: "\<exists>w'. capture_screenshot demo_self (faulty_env [(7, ?x)]) ''http://x'' demo_world =
                 Some (None, w') \<and> files w' = [] \<and>
               last (trace w') = Log ERROR ''Error capturing screenshot: no fetch''"
  proof -
    let ?E = "faulty_env [(7, ?x)]"
    from phases_scroll_fault obtain w1 w2 where
      p: "navigate ?E ''http://x'' demo_world = (Inr (), w1)"
         "scroll_to_bottom ?E w1 = Some (Inl ?x, w2)" and n: "ncalls w1 = 2" "ncalls w2 = 8"
      by blast
    have q: "ncalls w1 \<le> 7" "7 < ncalls w2" "fault ?E 7 = Some ?x"
      by (simp_all add: n faulty_env_def demo_env_def)
    from in_phase_exceptions[where env = ?E and w = demo_world and url = "''http://x''"
        and ?w1.0 = w1 and ?w2.0 = w2 and ?r2.0 = "Inl ?x" and k = 7 and e = ?x
        and self = demo_self,
        THEN conjunct2, THEN conjunct2, THEN conjunct2, THEN conjunct2, THEN conjunct2,
        THEN conjunct2, THEN conjunct1] p q
    show ?thesis by (simp add: n0)
  qed
  have c11: "\<exists>w'. capture_screenshot demo_self (faulty_env [(16, ?x)]) ''http://x'' demo_world =
                 Some (None, w') \<and> files w' = [] \<and>
               last (trace w') = Log ERROR ''Error capturing screenshot: no fetch''"
  proof -
    let ?E = "faulty_env [(16, ?x)]"
    from phases_stable_fault obtain w1 w2 w3 where
      p: "navigate ?E ''http://x'' demo_world = (Inr (), w1)"
         "scroll_to_bottom ?E w1 = Some (Inr (), w2)"
         "wait_for_content_stable ?E 10 w2 = (Inl ?x, w3)"
      and n: "ncalls w2 = 15" "ncalls w3 = 17"
      by blast
    have q: "ncalls w2 \<le> 16" "16 < ncalls w3" "fault ?E 16 = Some ?x"
      by (simp_all add: n faulty_env_def demo_env_def)
    from in_phase_exceptions[where env = ?E and w = demo_world and url = "''http://x''"
        and ?w1.0 = w1 and ?w2.0 = w2 and ?w3.0 = w3 and ?r3.0 = "Inl ?x" and k = 16
        and e = ?x and self = demo_self,
        THEN conjunct2, THEN conjunct2, THEN conjunct2, THEN conjunct2, THEN conjunct2,
        THEN conjunct2, THEN conjunct2, THEN conjunct1] p q
    show ?thesis by (simp add: n0)
  qed
  have c12: "\<exists>w'. capture_screenshot demo_self (faulty_env [(17, ?x)]) ''http://x'' demo_world =
                 Some (None, w') \<and> files w' = [] \<and>
               last (trace w') = Log ERROR ''Error capturing screenshot: no fetch''"
  proof -
    let ?E = "faulty_env [(17, ?x)]"
    from phases_images_other obtain w1 w2 w3 where
      p: "navigate ?E ''http://x'' demo_world = (Inr (), w1)"
         "scroll_to_bottom ?E w1 = Some (Inr (), w2)"
         "wait_for_content_stable ?E 10 w2 = (Inr True, w3)"
      and n: "ncalls w3 = 17"
      by blast
    have q: "fault ?E (ncalls w3) = Some ?x"
      by (simp add: n faulty_env_def demo_env_def)
    from in_phase_exceptions[where env = ?E and w = demo_world and url = "''http://x''"
        and ?w1.0 = w1 and ?w2.0 = w2 and ?w3.0 = w3 and cs = True
        and e = ?x and self = demo_self,
        THEN conjunct2, THEN conjunct2, THEN conjunct2, THEN conjunct2, THEN conjunct2,
        THEN conjunct2, THEN conjunct2, THEN conjunct2] p q cx
    show ?thesis by (auto simp: n0)
  qed
  from c1 c2 c3 c4 c5 c6 c7 c8 c9 c10 c11 c12 show ?thesis by (intro conjI)
qed

text \<open>
  C2 as stated fails: a driver call of the scroll raises, the exception leaves
  \<open>scroll_to_bottom\<close> uncaught, and the capture returns \<open>None\<close> with no file written
  although the navigation had succeeded.
\<close>

theorem scroll_exception_counterexample:
  "fst (navigate (faulty_env [(3, Exn WebDriverException ''script failed'')])
          ''http://x'' demo_world) = Inr () \<and>
   map_option fst
     (scroll_to_bottom (faulty_env [(3, Exn WebDriverException ''script failed'')])
        (snd (navigate (faulty_env [(3, Exn WebDriverException ''script failed'')])
                ''http://x'' demo_world))) =
     Some (Inl (Exn WebDriverException ''script failed'')) \<and>
   map_option fst
     (capture_screenshot demo_self (faulty_env [(3, Exn WebDriverException ''script failed'')])
        ''http://x'' demo_world) = Some None \<and>
   map_option (trace \<circ> snd)
     (capture_screenshot demo_self (faulty_env [(3, Exn WebDriverException ''script failed'')])
        ''http://x'' demo_world) =
     Some [Log INFO ''Starting screenshot capture for URL: http://x'',
           Driver (Get ''http://x''), Driver (WaitUntil 10 BodyPresent),
           Log INFO ''Starting progressive scroll to trigger lazy loading...'',
           Driver (ExecuteScript ScrollHeight),
           Driver (ExecuteScript (ScrollToFraction 1)),
           Log ERROR ''Error capturing screenshot: script failed''] \<and>
   map_option (files \<circ> snd)
     (capture_screenshot demo_self (faulty_env [(3, Exn WebDriverException ''script failed'')])
        ''http://x'' demo_world) = Some []"
proof -
  let ?E = "faulty_env [(3, Exn WebDriverException ''script failed'')]"
  have n: "navigate ?E ''http://x'' demo_world =
      (Inr (), demo_world\<lparr>ncalls := 2,
         trace := [Log INFO ''Starting screenshot capture for URL: http://x'',
                   Driver (Get ''http://x''), Driver (WaitUntil 10 BodyPresent)]\<rparr>)"
    by (simp add: navigate_def io_defs demo_defs)
  have s: "\<exists>w2. scroll_to_bottom ?E (demo_world\<lparr>ncalls := 2,
         trace := [Log INFO ''Starting screenshot capture for URL: http://x'',
                   Driver (Get ''http://x''), Driver (WaitUntil 10 BodyPresent)]\<rparr>) =
       Some (Inl (Exn WebDriverException ''script failed''), w2) \<and> files w2 = [] \<and>
       trace w2 = [Log INFO ''Starting screenshot capture for URL: http://x'',
           Driver (Get ''http://x''), Driver (WaitUntil 10 BodyPresent),
           Log INFO ''Starting progressive scroll to trigger lazy loading...'',
           Driver (ExecuteScript ScrollHeight),
           Driver (ExecuteScript (ScrollToFraction 1))]"
    apply (simp add: phase_defs io_defs demo_defs upt_1_10)
    apply (subst scroll_loop.simps)
    apply (simp add: phase_defs io_defs demo_defs upt_1_10)
    done
  from n s show ?thesis
    by (auto simp: capture_screenshot_def capture_body_def logger_def)
qed

section \<open>The sidecar can be read back\<close>

declare str_nat.simps [simp del]

lemma hex_val_hex_char: "d < 16 \<Longrightarrow> hex_val (hex_char d) = Some d"
proof -
  assume "d < 16"
  then consider "d = 0" | "d = 1" | "d = 2" | "d = 3" | "d = 4" | "d = 5" | "d = 6" | "d = 7"
    | "d = 8" | "d = 9" | "d = 10" | "d = 11" | "d = 12" | "d = 13" | "d = 14" | "d = 15"
    by atomize_elim arith
  then show ?thesis
    by cases (simp_all add: hex_val_def hex_char_def)
qed

lemma parse_chars_escape_step:
  assumes "parse_chars (tl_s @ CHR 0x22 # rest) = Some (s, rest)"
  shows "parse_chars (escape_char c @ tl_s @ CHR 0x22 # rest) = Some (c # s, rest)"
proof (cases "(of_char c :: nat) < 32 \<and> c \<notin> {CHR 0x0A, CHR 0x0D, CHR 0x09, CHR 0x08, CHR 0x0C}")
  case True
  then have lt: "(of_char c :: nat) < 32" by simp
  have ne: "c \<noteq> CHR 0x22" "c \<noteq> CHR 0x5C" using lt by auto
  have d1: "(of_char c :: nat) div 16 < 16" and d2: "(of_char c :: nat) mod 16 < 16"
    using lt by simp_all
  have e: "escape_char c = [CHR 0x5C, CHR ''u'', CHR ''0'', CHR ''0'',
         hex_char (of_char c div 16), hex_char (of_char c mod 16)]"
    using True ne by (simp add: escape_char_def)
  have z: "hex_val CHR ''0'' = Some 0" by (simp add: hex_val_def)
  show ?thesis
    using lt assms
    by (simp add: e z hex_val_hex_char[OF d1] hex_val_hex_char[OF d2] cons_result_def Let_def)
next
  case False
  then show ?thesis
    using assms
    by (auto simp: escape_char_def unescape_def cons_result_def)
qed

lemma parse_chars_escaped:
  "parse_chars (concat (map escape_char s) @ CHR 0x22 # rest) = Some (s, rest)"
proof (induction s)
  case Nil
  show ?case by simp
next
  case (Cons c s)
  from parse_chars_escape_step[OF Cons.IH, of c] show ?case by simp
qed

lemma parse_chars_encode_string:
  "encode_string s @ rest = CHR 0x22 # concat (map escape_char s) @ CHR 0x22 # rest"
  by (simp add: encode_string_def)

lemma digit_char_props:
  assumes "d < 10"
  shows "is_digit (digit_char d)" and "(of_char (digit_char d) :: nat) - 48 = d"
    and "digit_char d \<noteq> CHR ''-''" and "\<not> is_ws (digit_char d)"
proof -
  from assms consider "d = 0" | "d = 1" | "d = 2" | "d = 3" | "d = 4" | "d = 5" | "d = 6"
    | "d = 7" | "d = 8" | "d = 9"
    by atomize_elim arith
  then have "is_digit (digit_char d) \<and> (of_char (digit_char d) :: nat) - 48 = d \<and>
             digit_char d \<noteq> CHR ''-'' \<and> \<not> is_ws (digit_char d)"
    by cases (simp_all add: digit_char_def is_digit_def is_ws_def)
  then show "is_digit (digit_char d)" and "(of_char (digit_char d) :: nat) - 48 = d"
    and "digit_char d \<noteq> CHR ''-''" and "\<not> is_ws (digit_char d)"
    by simp_all
qed

lemma str_nat_digits: "\<forall>c\<in>set (str_nat n). is_digit c"
proof (induction n rule: str_nat.induct)
  case (1 n)
  show ?case
  proof (cases "n < 10")
    case True
    then show ?thesis by (subst str_nat.simps) (simp add: digit_char_props)
  next
    case False
    with 1 show ?thesis by (subst str_nat.simps) (simp add: digit_char_props)
  qed
qed

lemma str_nat_nonempty: "str_nat n \<noteq> []"
  by (subst str_nat.simps) simp

lemma str_nat_value: "foldl (\<lambda>a c. a * 10 + (of_char c - 48)) 0 (str_nat n) = n"
proof (induction n rule: str_nat.induct)
  case (1 n)
  show ?case
  proof (cases "n < 10")
    case True
    then show ?thesis by (subst str_nat.simps) (simp add: digit_char_props)
  next
    case False
    with 1 show ?thesis by (subst str_nat.simps) (simp add: digit_char_props)
  qed
qed

lemma takeWhile_digits:
  assumes "ends_number rest"
  shows "takeWhile is_digit (str_nat n @ rest) = str_nat n"
    and "dropWhile is_digit (str_nat n @ rest) = rest"
  using assms str_nat_digits[of n]
  by (auto simp: ends_number_def takeWhile_append dropWhile_append split: list.splits)

lemma parse_nat_str_nat:
  "ends_number rest \<Longrightarrow> parse_nat (str_nat n @ rest) = Some (n, rest)"
  by (simp add: parse_nat_def takeWhile_digits str_nat_nonempty str_nat_value)

lemma str_nat_head: "\<exists>c s. str_nat n = c # s \<and> is_digit c \<and> c \<noteq> CHR ''-''"
proof -
  obtain c s where cs: "str_nat n = c # s" using str_nat_nonempty[of n] by (cases "str_nat n") auto
  with str_nat_digits[of n] have d: "is_digit c" by simp
  then have "c \<noteq> CHR ''-''" by (auto simp: is_digit_def)
  with cs d show ?thesis by blast
qed

lemma parse_int_str_int:
  assumes "ends_number rest"
  shows "parse_int (str_int i @ rest) = Some (i, rest)"
proof (cases "i < 0")
  case True
  then show ?thesis
    using parse_nat_str_nat[OF assms, of "nat (- i)"]
    by (simp add: parse_int_def str_int_def)
next
  case False
  obtain c s where cs: "str_nat (nat i) = c # s" "c \<noteq> CHR ''-''"
    using str_nat_head[of "nat i"] by blast
  from False parse_nat_str_nat[OF assms, of "nat i"] cs show ?thesis
    by (simp add: parse_int_def str_int_def)
qed

lemma skip_ws_Cons: "is_ws c \<Longrightarrow> skip_ws (c # s) = skip_ws s"
  and skip_ws_stop: "\<not> is_ws c \<Longrightarrow> skip_ws (c # s) = c # s"
  by (simp_all add: skip_ws_def)

lemma skip_ws_newline_indent: "skip_ws (newline_indent lvl @ s) = skip_ws s"
proof -
  have "\<forall>c\<in>set (newline_indent lvl). is_ws c"
    by (auto simp: newline_indent_def is_ws_def)
  then show ?thesis
    by (simp add: skip_ws_def dropWhile_append)
qed

lemma digit_not_special:
  "is_digit c \<Longrightarrow> \<not> is_ws c \<and> c \<noteq> CHR 0x22 \<and> c \<noteq> CHR ''{'' \<and> c \<noteq> CHR ''-''"
  by (auto simp: is_digit_def is_ws_def)

lemma json_encode_head:
  "\<exists>c s. json_encode lvl v = c # s \<and> \<not> is_ws c"
proof (cases v)
  case (JInt i)
  show ?thesis
  proof (cases "i < 0")
    case True
    with JInt show ?thesis by (simp add: str_int_def is_ws_def)
  next
    case False
    obtain c s where "str_nat (nat i) = c # s" "is_digit c"
      using str_nat_head[of "nat i"] by blast
    with False JInt show ?thesis by (auto simp: str_int_def is_ws_def is_digit_def)
  qed
next
  case (JString x)
  then show ?thesis by (simp add: encode_string_def is_ws_def)
next
  case (JObject kvs)
  then show ?thesis by (cases kvs) (simp_all add: is_ws_def)
qed

lemma skip_ws_json_encode: "skip_ws (json_encode lvl v @ rest) = json_encode lvl v @ rest"
proof -
  obtain c s where "json_encode lvl v = c # s" "\<not> is_ws c"
    using json_encode_head by blast
  then show ?thesis by (simp add: skip_ws_stop)
qed

lemma parse_value_ws: "is_ws c \<Longrightarrow> parse_value n (c # s) = parse_value n s"
  by (cases n) (simp_all add: skip_ws_Cons)

lemma parse_members_indent:
  "parse_members n (newline_indent lvl @ s) = parse_members n s"
  by (cases n) (simp_all add: skip_ws_newline_indent)

lemma parse_value_string:
  "parse_value (Suc n) (encode_string s @ rest) = Some (JString s, rest)"
  by (simp add: parse_chars_encode_string skip_ws_stop is_ws_def parse_chars_escaped)

lemma parse_value_int:
  assumes "ends_number rest"
  shows "parse_value (Suc n) (str_int i @ rest) = Some (JInt i, rest)"
proof -
  obtain c s where cs: "str_int i = c # s" "\<not> is_ws c" "c \<noteq> CHR 0x22" "c \<noteq> CHR ''{''"
  proof (cases "i < 0")
    case True
    then show ?thesis using that by (simp add: str_int_def is_ws_def)
  next
    case False
    obtain c s where "str_nat (nat i) = c # s" "is_digit c"
      using str_nat_head[of "nat i"] by blast
    with False digit_not_special[of c] show ?thesis using that by (simp add: str_int_def)
  qed
  from parse_int_str_int[OF assms, of i] cs show ?thesis
    by (simp add: skip_ws_stop)
qed

lemma ends_number_simps [simp]:
  "ends_number (CHR '','' # s)" "ends_number (newline_indent lvl @ s)" "ends_number []"
  by (simp_all add: ends_number_def newline_indent_def is_digit_def)

lemma parse_round_trip:
  "(\<forall>n rest. need v \<le> n \<longrightarrow> ends_number rest \<longrightarrow>
      parse_value n (json_encode lvl v @ rest) = Some (v, rest))"
  "(kvs \<noteq> [] \<longrightarrow> (\<forall>n rest lvl'. need_items kvs \<le> n \<longrightarrow>
      parse_members n (encode_items lvl kvs @ newline_indent lvl' @ CHR ''}'' # rest) =
        Some (kvs, rest)))"
proof (induction lvl v and lvl kvs rule: json_encode_encode_items.induct)
  case (1 lvl i)
  show ?case
  proof (intro allI impI)
    fix n rest assume "need (JInt i) \<le> n" "ends_number rest"
    then obtain m where "n = Suc m" by (cases n) auto
    with parse_value_int[OF \<open>ends_number rest\<close>] show
      "parse_value n (json_encode lvl (JInt i) @ rest) = Some (JInt i, rest)"
      by simp
  qed
next
  case (2 lvl s)
  show ?case
  proof (intro allI impI)
    fix n rest assume "need (JString s) \<le> n"
    then obtain m where "n = Suc m" by (cases n) auto
    with parse_value_string show
      "parse_value n (json_encode lvl (JString s) @ rest) = Some (JString s, rest)"
      by simp
  qed
next
  case (3 lvl)
  show ?case
  proof (intro allI impI)
    fix n rest assume "need (JObject []) \<le> n"
    then obtain m where "n = Suc m" by (cases n) auto
    then show "parse_value n (json_encode lvl (JObject []) @ rest) = Some (JObject [], rest)"
      by (simp add: skip_ws_stop is_ws_def)
  qed
next
  case (4 lvl kv kvs)
  show ?case
  proof (intro allI impI)
    fix n rest assume n: "need (JObject (kv # kvs)) \<le> n"
    then obtain m where m: "n = Suc m" "need_items (kv # kvs) \<le> m" by (cases n) auto
    obtain k v where kv: "kv = (k, v)" by (cases kv)
    have first: "\<exists>t. skip_ws (newline_indent (Suc lvl) @ encode_items (Suc lvl) (kv # kvs) @
                     newline_indent lvl @ CHR ''}'' # rest) = CHR 0x22 # t"
      by (cases kvs) (simp_all add: kv skip_ws_newline_indent encode_string_def skip_ws_stop is_ws_def)
    from 4 m(2) have
      "parse_members m (encode_items (Suc lvl) (kv # kvs) @ newline_indent lvl @ CHR ''}'' # rest) =
         Some (kv # kvs, rest)"
      by simp
    with first m(1) show
      "parse_value n (json_encode lvl (JObject (kv # kvs)) @ rest) = Some (JObject (kv # kvs), rest)"
      by (auto simp: skip_ws_stop is_ws_def parse_members_indent)
  qed
next
  case (5 lvl)
  show ?case by simp
next
  case (6 lvl k v)
  show ?case
  proof (intro allI impI)
    fix n rest lvl' assume n: "need_items [(k, v)] \<le> n"
    then obtain m where m: "n = Suc m" "need v \<le> m" by (cases n) auto
    from 6 m(2) have v:
      "parse_value m (json_encode lvl v @ newline_indent lvl' @ CHR ''}'' # rest) =
         Some (v, newline_indent lvl' @ CHR ''}'' # rest)"
      by simp
    have "parse_members n (encode_string k @ '': '' @ json_encode lvl v @
            newline_indent lvl' @ CHR ''}'' # rest) = Some ([(k, v)], rest)"
      using m(1) v
      by (simp add: parse_chars_encode_string skip_ws_stop is_ws_def parse_chars_escaped
          parse_value_ws skip_ws_newline_indent)
    then show "parse_members n (encode_items lvl [(k, v)] @ newline_indent lvl' @ CHR ''}'' # rest) =
         Some ([(k, v)], rest)"
      by simp
  qed
next
  case (7 lvl k v kv' kvs)
  show ?case
  proof (intro allI impI)
    fix n rest lvl' assume n: "need_items ((k, v) # kv' # kvs) \<le> n"
    then obtain m where m: "n = Suc m" "need v \<le> m" "need_items (kv' # kvs) \<le> m"
      by (cases n) auto
    let ?tail = "encode_items lvl (kv' # kvs) @ newline_indent lvl' @ CHR ''}'' # rest"
    from 7(1) m(2) have v:
      "parse_value m (json_encode lvl v @ CHR '','' # newline_indent lvl @ ?tail) =
         Some (v, CHR '','' # newline_indent lvl @ ?tail)"
      by simp
    from 7(2) m(3) have r: "parse_members m ?tail = Some (kv' # kvs, rest)"
      by simp
    have "parse_members n (encode_string k @ '': '' @ json_encode lvl v @
            CHR '','' # newline_indent lvl @ ?tail) = Some ((k, v) # kv' # kvs, rest)"
      using m(1) v r
      by (simp add: parse_chars_encode_string skip_ws_stop is_ws_def parse_chars_escaped
          parse_value_ws parse_members_indent)
    then show "parse_members n (encode_items lvl ((k, v) # kv' # kvs) @
                 newline_indent lvl' @ CHR ''}'' # rest) = Some ((k, v) # kv' # kvs, rest)"
      by simp
  qed
qed

lemma need_le_length:
  "need v \<le> length (json_encode lvl v)"
  "need_items kvs \<le> length (encode_items lvl kvs)"
proof (induction lvl v and lvl kvs rule: json_encode_encode_items.induct)
  case (1 lvl i)
  have "str_int i \<noteq> []" by (simp add: str_int_def str_nat_nonempty)
  then show ?case by (cases "str_int i") simp_all
next
  case (2 lvl s)
  show ?case by (simp add: encode_string_def)
next
  case (6 lvl k v)
  then show ?case by (simp add: encode_string_def)
next
  case (7 lvl k v kv' kvs)
  then show ?case by (simp add: encode_string_def)
qed simp_all

lemma json_loads_dumps: "json_loads (json_dumps v) = Some v"
proof -
  from parse_round_trip(1)[of v 0, rule_format, of "length (json_encode 0 v)" "[]"]
    need_le_length(1)[of v 0]
  have "parse_value (length (json_encode 0 v)) (json_encode 0 v @ []) = Some (v, [])"
    by (simp del: append_Nil2)
  then show ?thesis by (simp add: json_loads_def json_dumps_def skip_ws_def)
qed

section \<open>What the sidecar holds\<close>

lemma sidecar_layout:
  "json_dumps (json_data url ts vw th title cur ua) = sidecar_text url ts vw th title cur ua"
  by (simp add: json_dumps_def json_data_def sidecar_text_def quoted_def newline_indent_def
      encode_string_def escape_char_def)

lemma capture_success_cases:
  assumes "capture_screenshot self env url w = Some (Some (p, j), w')"
  obtains w6 w7 vw th where "files w7 = files w"
    "measure_and_resize env w6 = (Inr (vw, th), w7)"
    "save_outputs self env url vw th w7 = (Inr (p, j), w')"
proof -
  from assms have "capture_body self env url w = Some (Inr (p, j), w')"
    by (simp add: capture_screenshot_Some_iff)
  then show ?thesis
  proof (cases rule: capture_body_cases)
    case (scrolled w1 w2)
    from scrolled(4) show ?thesis
    proof (cases rule: after_scroll_cases)
      case (saving cs dl w5 w6 w7 vw th)
      have "files w7 = files w"
        using keeps_filesD[OF keeps_files_measure saving(3)] saving(2) scrolled(3) by simp
      with saving that show ?thesis by blast
    qed simp
  qed simp
qed

lemma capture_success_files:
  assumes "capture_screenshot self env url w = Some (Some (p, j), w')"
  shows "\<exists>k ts.
     ncalls w' = k + 7 \<and>
     p = path_join (output_dir self) (''snapshot_'' @ ts @ ''.png'') \<and>
     j = path_join (output_dir self) (''snapshot_'' @ ts @ ''.json'') \<and>
     window_size w' = (js_viewport_width (page_at env (Suc k)) + 100,
                       js_total_height (page_at env k) + 100) \<and>
     files w' = files w @
       (if screenshot_saved env p
        then [(p, Screenshot (js_viewport_width (page_at env (Suc k)) + 100)
                             (js_total_height (page_at env k) + 100))]
        else []) @
       [(j, Text (json_dumps (json_data url ts
                    (js_viewport_width (page_at env (Suc k)))
                    (js_total_height (page_at env k))
                    (page_title (page_at env (k + 4)))
                    (page_url (page_at env (k + 5)))
                    (navigator_userAgent (page_at env (k + 6))))))]"
proof -
  from assms obtain w6 w7 vw th where f7: "files w7 = files w"
    and m: "measure_and_resize env w6 = (Inr (vw, th), w7)"
    and s: "save_outputs self env url vw th w7 = (Inr (p, j), w')"
    by (rule capture_success_cases)
  note mm = measure_and_resize_Inr[OF m]
  from s show ?thesis
  proof (cases rule: save_outputs_cases)
    case both
    have idx: "Suc (ncalls w7) = ncalls w6 + 4" "Suc (Suc (ncalls w7)) = ncalls w6 + 5"
      "Suc (Suc (Suc (ncalls w7))) = ncalls w6 + 6"
      using mm(3) by simp_all
    show ?thesis
      apply (rule exI[of _ "ncalls w6"])
      apply (rule exI[of _ "strftime env (clock w7)"])
      using both mm f7 unfolding idx
      by (simp add: add.commute)
  qed simp_all
qed

lemma js_measures_are_maxima:
  "js_total_height q =
     Max {body_scrollHeight q, body_offsetHeight q, docEl_clientHeight q,
          docEl_scrollHeight q, docEl_offsetHeight q}"
  "js_viewport_width q =
     Max {body_scrollWidth q, body_offsetWidth q, docEl_clientWidth q,
          docEl_scrollWidth q, docEl_offsetWidth q}"
  by (simp_all add: js_total_height_def js_viewport_width_def)

text \<open>
  C6. For every successful capture, the \<open>dimensions\<close> read back from the sidecar are
  the measured width and height, each the maximum of the five metrics of the page at
  the moment of its measurement, and the window was set to exactly these two values
  plus 100 for the screenshot, which shows it whenever the driver managed to write
  the image.
\<close>

theorem dimensions_match_viewport:
  assumes "capture_screenshot self env url w = Some (Some (p, j), w')"
  shows "\<exists>k width height txt doc.
     ncalls w' = k + 7 \<and>
     width = Max {body_scrollWidth (page_at env (Suc k)), body_offsetWidth (page_at env (Suc k)),
                  docEl_clientWidth (page_at env (Suc k)), docEl_scrollWidth (page_at env (Suc k)),
                  docEl_offsetWidth (page_at env (Suc k))} \<and>
     height = Max {body_scrollHeight (page_at env k), body_offsetHeight (page_at env k),
                   docEl_clientHeight (page_at env k), docEl_scrollHeight (page_at env k),
                   docEl_offsetHeight (page_at env k)} \<and>
     files w' = files w @
       (if screenshot_saved env p then [(p, Screenshot (width + 100) (height + 100))] else []) @
       [(j, Text txt)] \<and>
     window_size w' = (width + 100, height + 100) \<and>
     json_loads txt = Some doc \<and>
     json_get doc ''dimensions'' =
       Some (JObject [(''width'', JInt width), (''height'', JInt height)])"
proof -
  from capture_success_files[OF assms] obtain k ts where
    n: "ncalls w' = k + 7"
    and ws: "window_size w' = (js_viewport_width (page_at env (Suc k)) + 100,
                       js_total_height (page_at env k) + 100)"
    and f: "files w' = files w @
       (if screenshot_saved env p
        then [(p, Screenshot (js_viewport_width (page_at env (Suc k)) + 100)
                             (js_total_height (page_at env k) + 100))]
        else []) @
       [(j, Text (json_dumps (json_data url ts
                    (js_viewport_width (page_at env (Suc k)))
                    (js_total_height (page_at env k))
                    (page_title (page_at env (k + 4)))
                    (page_url (page_at env (k + 5)))
                    (navigator_userAgent (page_at env (k + 6))))))]"
    by blast
  let ?doc = "json_data url ts (js_viewport_width (page_at env (Suc k)))
                    (js_total_height (page_at env k))
                    (page_title (page_at env (k + 4)))
                    (page_url (page_at env (k + 5)))
                    (navigator_userAgent (page_at env (k + 6)))"
  have g: "json_get ?doc ''dimensions'' =
       Some (JObject [(''width'', JInt (js_viewport_width (page_at env (Suc k)))),
                      (''height'', JInt (js_total_height (page_at env k)))])"
    by (simp add: json_data_def)
  show ?thesis
    apply (rule exI[of _ k])
    apply (rule exI[of _ "js_viewport_width (page_at env (Suc k))"])
    apply (rule exI[of _ "js_total_height (page_at env k)"])
    apply (rule exI[of _ "json_dumps ?doc"])
    apply (rule exI[of _ ?doc])
    using n ws f g
    by (simp only: json_loads_dumps js_measures_are_maxima simp_thms)
qed

theorem dimensions_match_viewport_witness:
  "(\<exists>txt doc w'.
     capture_screenshot demo_self demo_env ''http://x'' demo_world =
       Some (Some (''out/snapshot_20240101_000000.png'',
                   ''out/snapshot_20240101_000000.json''), w') \<and>
     files w' = [(''out/snapshot_20240101_000000.png'', Screenshot (1920 + 100) (2016 + 100)),
                 (''out/snapshot_20240101_000000.json'', Text txt)] \<and>
     json_loads txt = Some doc \<and>
     json_get doc ''dimensions'' =
       Some (JObject [(''width'', JInt 1920), (''height'', JInt 2016)])) \<and>
   (\<exists>txt doc w'.
     capture_screenshot demo_self unsaved_env ''http://x'' demo_world =
       Some (Some (''out/snapshot_20240101_000000.png'',
                   ''out/snapshot_20240101_000000.json''), w') \<and>
     files w' = [(''out/snapshot_20240101_000000.json'', Text txt)] \<and>
     window_size w' = (1920 + 100, 2016 + 100) \<and>
     json_loads txt = Some doc \<and>
     json_get doc ''dimensions'' =
       Some (JObject [(''width'', JInt 1920), (''height'', JInt 2016)]))"
proof -
  from run_ok obtain w' where
    run: "capture_screenshot demo_self demo_env ''http://x'' demo_world =
      Some (Some (''out/snapshot_20240101_000000.png'', ''out/snapshot_20240101_000000.json''),
            w')"
    by blast
  have m: "Max {body_scrollWidth (page_at demo_env k), body_offsetWidth (page_at demo_env k),
                docEl_clientWidth (page_at demo_env k), docEl_scrollWidth (page_at demo_env k),
                docEl_offsetWidth (page_at demo_env k)} = 1920"
          "Max {body_scrollHeight (page_at demo_env k), body_offsetHeight (page_at demo_env k),
                docEl_clientHeight (page_at demo_env k), docEl_scrollHeight (page_at demo_env k),
                docEl_offsetHeight (page_at demo_env k)} = 2016" for k
    by (simp_all add: demo_env_def demo_page_def)
  have sv: "screenshot_saved demo_env q" for q by (simp add: demo_env_def)
  from dimensions_match_viewport[OF run]
  have a: "\<exists>txt doc w'.
     capture_screenshot demo_self demo_env ''http://x'' demo_world =
       Some (Some (''out/snapshot_20240101_000000.png'',
                   ''out/snapshot_20240101_000000.json''), w') \<and>
     files w' = [(''out/snapshot_20240101_000000.png'', Screenshot (1920 + 100) (2016 + 100)),
                 (''out/snapshot_20240101_000000.json'', Text txt)] \<and>
     json_loads txt = Some doc \<and>
     json_get doc ''dimensions'' =
       Some (JObject [(''width'', JInt 1920), (''height'', JInt 2016)])"
    using run by (auto simp: m demo_world_def sv)
  from run_unsaved obtain v' where
    run2: "capture_screenshot demo_self unsaved_env ''http://x'' demo_world =
      Some (Some (''out/snapshot_20240101_000000.png'', ''out/snapshot_20240101_000000.json''),
            v')"
    by blast
  have m2: "Max {body_scrollWidth (page_at unsaved_env k), body_offsetWidth (page_at unsaved_env k),
                docEl_clientWidth (page_at unsaved_env k), docEl_scrollWidth (page_at unsaved_env k),
                docEl_offsetWidth (page_at unsaved_env k)} = 1920"
          "Max {body_scrollHeight (page_at unsaved_env k), body_offsetHeight (page_at unsaved_env k),
                docEl_clientHeight (page_at unsaved_env k), docEl_scrollHeight (page_at unsaved_env k),
                docEl_offsetHeight (page_at unsaved_env k)} = 2016" for k
    by (simp_all add: unsaved_env_def demo_env_def demo_page_def)
  have nsv: "\<not> screenshot_saved unsaved_env q" for q
    by (simp add: unsaved_env_def demo_env_def)
  from dimensions_match_viewport[OF run2]
  have b: "\<exists>txt doc w'.
     capture_screenshot demo_self unsaved_env ''http://x'' demo_world =
       Some (Some (''out/snapshot_20240101_000000.png'',
                   ''out/snapshot_20240101_000000.json''), w') \<and>
     files w' = [(''out/snapshot_20240101_000000.json'', Text txt)] \<and>
     window_size w' = (1920 + 100, 2016 + 100) \<and>
     json_loads txt = Some doc \<and>
     json_get doc ''dimensions'' =
       Some (JObject [(''width'', JInt 1920), (''height'', JInt 2016)])"
    using run2 by (auto simp: m2 demo_world_def nsv)
  from a b show ?thesis by (intro conjI)
qed



lemma escape_char_non_ascii:
  assumes "128 \<le> (of_char c :: nat)"
  shows "escape_char c = [c]"
proof -
  have "c \<noteq> CHR 0x22" using assms by (intro notI) simp
  moreover have "c \<noteq> CHR 0x5C" using assms by (intro notI) simp
  moreover have "c \<noteq> CHR 0x0A" using assms by (intro notI) simp
  moreover have "c \<noteq> CHR 0x0D" using assms by (intro notI) simp
  moreover have "c \<noteq> CHR 0x09" using assms by (intro notI) simp
  moreover have "c \<noteq> CHR 0x08" using assms by (intro notI) simp
  moreover have "c \<noteq> CHR 0x0C" using assms by (intro notI) simp
  moreover have "\<not> (of_char c :: nat) < 32" using assms by simp
  ultimately show ?thesis by (simp add: escape_char_def)
qed

text \<open>
  C9, as the code has it. The sidecar of a successful capture is the object
  \<open>{url, timestamp, dimensions: {width, height}, metadata: {title, url, user_agent}}\<close>:
  the user agent is stored under the key \<open>user_agent\<close>. The text is laid out one
  member per line with two spaces per level, it parses back to exactly this object,
  and a byte outside ASCII is written as it is (strings are their UTF-8 bytes here).
\<close>

theorem sidecar_schema:
  assumes "capture_screenshot self env url w = Some (Some (p, j), w')"
  shows "(\<exists>k ts width height title c txt.
            ncalls w' = k + 7 \<and>
            files w' = files w @ (if screenshot_saved env p then [(p, c)] else []) @
              [(j, Text txt)] \<and>
            txt = sidecar_text url ts width height title (page_url (page_at env (k + 5)))
                    (navigator_userAgent (page_at env (k + 6))) \<and>
            json_loads txt =
              Some (JObject
                [(''url'', JString url),
                 (''timestamp'', JString ts),
                 (''dimensions'', JObject [(''width'', JInt width), (''height'', JInt height)]),
                 (''metadata'', JObject
                    [(''title'', JString title),
                     (''url'', JString (page_url (page_at env (k + 5)))),
                     (''user_agent'', JString (navigator_userAgent (page_at env (k + 6))))])])) \<and>
         (\<forall>ch. 128 \<le> (of_char ch :: nat) \<longrightarrow> escape_char ch = [ch])"
proof
  from capture_success_files[OF assms] obtain k ts c width height title where
    n: "ncalls w' = k + 7"
    and f: "files w' = files w @ (if screenshot_saved env p then [(p, c)] else []) @
       [(j, Text (json_dumps (json_data url ts width height title
                    (page_url (page_at env (k + 5)))
                    (navigator_userAgent (page_at env (k + 6))))))]"
    by blast
  let ?doc = "json_data url ts width height title (page_url (page_at env (k + 5)))
                (navigator_userAgent (page_at env (k + 6)))"
  have l: "json_loads (json_dumps ?doc) = Some ?doc" by (rule json_loads_dumps)
  have "ncalls w' = k + 7 \<and>
        files w' = files w @ (if screenshot_saved env p then [(p, c)] else []) @
          [(j, Text (json_dumps ?doc))] \<and>
        json_dumps ?doc = sidecar_text url ts width height title (page_url (page_at env (k + 5)))
                    (navigator_userAgent (page_at env (k + 6))) \<and>
        json_loads (json_dumps ?doc) = Some ?doc"
    using n f l sidecar_layout by blast
  then show "\<exists>k ts width height title c txt.
            ncalls w' = k + 7 \<and>
            files w' = files w @ (if screenshot_saved env p then [(p, c)] else []) @
              [(j, Text txt)] \<and>
            txt = sidecar_text url ts width height title (page_url (page_at env (k + 5)))
                    (navigator_userAgent (page_at env (k + 6))) \<and>
            json_loads txt =
              Some (JObject
                [(''url'', JString url),
                 (''timestamp'', JString ts),
                 (''dimensions'', JObject [(''width'', JInt width), (''height'', JInt height)]),
                 (''metadata'', JObject
                    [(''title'', JString title),
                     (''url'', JString (page_url (page_at env (k + 5)))),
                     (''user_agent'', JString (navigator_userAgent (page_at env (k + 6))))])])"
    unfolding json_data_def by blast
next
  show "\<forall>ch. 128 \<le> (of_char ch :: nat) \<longrightarrow> escape_char ch = [ch]"
    by (simp add: escape_char_non_ascii)
qed

theorem sidecar_schema_witness:
  "(\<exists>ts width height title c w'.
      capture_screenshot demo_self demo_env ''http://x'' demo_world =
        Some (Some (''out/snapshot_20240101_000000.png'',
                    ''out/snapshot_20240101_000000.json''), w') \<and>
      files w' =
        [(''out/snapshot_20240101_000000.png'', c),
         (''out/snapshot_20240101_000000.json'',
          Text (sidecar_text ''http://x'' ts width height title ''http://x/'' ''UA''))] \<and>
      json_loads (sidecar_text ''http://x'' ts width height title ''http://x/'' ''UA'') =
        Some (JObject
          [(''url'', JString ''http://x''),
           (''timestamp'', JString ts),
           (''dimensions'', JObject [(''width'', JInt width), (''height'', JInt height)]),
           (''metadata'', JObject
              [(''title'', JString title),
               (''url'', JString ''http://x/''),
               (''user_agent'', JString ''UA'')])])) \<and>
   escape_char (CHR 0xC3) = [CHR 0xC3]"
proof -
  from run_ok obtain w' where
    run: "capture_screenshot demo_self demo_env ''http://x'' demo_world =
      Some (Some (''out/snapshot_20240101_000000.png'', ''out/snapshot_20240101_000000.json''),
            w')"
    by blast
  have pg: "page_url (page_at demo_env k) = ''http://x/''"
    "navigator_userAgent (page_at demo_env k) = ''UA''" for k
    by (simp_all add: demo_env_def demo_page_def)
  have sv: "screenshot_saved demo_env q = True" for q by (simp add: demo_env_def)
  note t = sidecar_schema[OF run, unfolded pg sv if_True append_Cons append_Nil]
  have e: "escape_char (CHR 0xC3) = [CHR 0xC3]"
    using t[THEN conjunct2] by simp
  have d: "files demo_world = []" by (simp add: demo_world_def)
  from t[THEN conjunct1] obtain k ts width height title c body where
    f: "files w' = files demo_world @
          [(''out/snapshot_20240101_000000.png'', c),
           (''out/snapshot_20240101_000000.json'', Text body)]"
    and x: "body = sidecar_text ''http://x'' ts width height title ''http://x/'' ''UA''"
    and l: "json_loads body =
        Some (JObject
          [(''url'', JString ''http://x''),
           (''timestamp'', JString ts),
           (''dimensions'', JObject [(''width'', JInt width), (''height'', JInt height)]),
           (''metadata'', JObject
              [(''title'', JString title),
               (''url'', JString ''http://x/''),
               (''user_agent'', JString ''UA'')])])"
    by blast
  from f d x have f': "files w' =
        [(''out/snapshot_20240101_000000.png'', c),
         (''out/snapshot_20240101_000000.json'',
          Text (sidecar_text ''http://x'' ts width height title ''http://x/'' ''UA''))]"
    by simp
  from l x have l': "json_loads (sidecar_text ''http://x'' ts width height title ''http://x/'' ''UA'') =
        Some (JObject
          [(''url'', JString ''http://x''),
           (''timestamp'', JString ts),
           (''dimensions'', JObject [(''width'', JInt width), (''height'', JInt height)]),
           (''metadata'', JObject
              [(''title'', JString title),
               (''url'', JString ''http://x/''),
               (''user_agent'', JString ''UA'')])])"
    by simp
  show ?thesis
    apply (rule conjI)
     apply (rule exI[of _ ts], rule exI[of _ width], rule exI[of _ height],
        rule exI[of _ title], rule exI[of _ c], rule exI[of _ w'])
     apply (simp only: run f' l' simp_thms)
    apply (rule e)
    done
qed

text \<open>
  C9 as stated fails: in the sidecar of a successful capture the metadata object has
  the keys \<open>title\<close>, \<open>url\<close> and \<open>user_agent\<close>; there is no key \<open>userAgent\<close>.
\<close>

theorem user_agent_key_counterexample:
  "map_option (map snd \<circ> files \<circ> snd)
     (capture_screenshot demo_self demo_env ''http://x'' demo_world) =
     Some [Screenshot 2020 2116,
           Text (json_dumps (json_data ''http://x'' ''20240101_000000'' 1920 2016
                   ''T'' ''http://x/'' ''UA''))] \<and>
   json_loads (json_dumps (json_data ''http://x'' ''20240101_000000'' 1920 2016
                   ''T'' ''http://x/'' ''UA'')) =
     Some (json_data ''http://x'' ''20240101_000000'' 1920 2016 ''T'' ''http://x/'' ''UA'') \<and>
   map_option json_keys
     (json_get (json_data ''http://x'' ''20240101_000000'' 1920 2016 ''T'' ''http://x/'' ''UA'')
        ''metadata'') = Some [''title'', ''url'', ''user_agent''] \<and>
   json_get (the (json_get (json_data ''http://x'' ''20240101_000000'' 1920 2016 ''T''
                              ''http://x/'' ''UA'') ''metadata'')) ''userAgent'' = None \<and>
   json_get (the (json_get (json_data ''http://x'' ''20240101_000000'' 1920 2016 ''T''
                              ''http://x/'' ''UA'') ''metadata'')) ''user_agent'' =
     Some (JString ''UA'')"
proof -
  from run_ok have "map_option (map snd \<circ> files \<circ> snd)
     (capture_screenshot demo_self demo_env ''http://x'' demo_world) =
     Some [Screenshot 2020 2116,
           Text (json_dumps (json_data ''http://x'' ''20240101_000000'' 1920 2016
                   ''T'' ''http://x/'' ''UA''))]"
    by auto
  moreover have "map_option json_keys
     (json_get (json_data ''http://x'' ''20240101_000000'' 1920 2016 ''T'' ''http://x/'' ''UA'')
        ''metadata'') = Some [''title'', ''url'', ''user_agent'']"
    by (simp add: json_data_def)
  moreover have "json_get (the (json_get (json_data ''http://x'' ''20240101_000000'' 1920 2016
                   ''T'' ''http://x/'' ''UA'') ''metadata'')) ''userAgent'' = None"
    by (simp add: json_data_def)
  moreover have "json_get (the (json_get (json_data ''http://x'' ''20240101_000000'' 1920 2016
                   ''T'' ''http://x/'' ''UA'') ''metadata'')) ''user_agent'' = Some (JString ''UA'')"
    by (simp add: json_data_def)
  ultimately show ?thesis
    by (simp only: json_loads_dumps simp_thms)
qed

end
